(* ===== verification/Prelude.thy ===== *)
theory Prelude
  imports Main "HOL-Library.AList" "HOL-Library.Multiset" "HOL-Library.Char_ord"
    "HOL-Library.List_Lexorder" "HOL-Library.Product_Lexorder"
begin

text \<open>
  The Go values every component shares, and the generic lemmas about them.

  \<^item> Strings and byte slices are \<^typ>\<open>string\<close>: a \<^typ>\<open>char\<close> is one byte, and the order on
    strings (\<open>Char_ord\<close>, \<open>List_Lexorder\<close>) is Go's bytewise lexicographic order.
  \<^item> A Go \<open>map\<close> is an association list (\<open>gomap\<close>) whose keys are distinct. The list
    order stands for one of the iteration orders the runtime may choose; results that must
    not depend on it are proved independent of it.
  \<^item> \<open>int32\<close> and \<open>int64\<close> are \<^typ>\<open>int\<close> with the wrap-around written out (\<open>wrap32\<close>,
    \<open>wrap64\<close>) wherever the code adds.
  \<^item> \<open>time.Time\<close> is the number of nanoseconds since Go's zero time, so \<open>IsZero\<close> is
    \<open>t = 0\<close>; \<open>Time.Sub\<close> saturates at the ends of \<open>time.Duration\<close>.
  \<^item> \<open>sort.Slice\<close> is an insertion sort by the comparator; the locale \<open>slice_order\<close> shows
    that on comparators that are total on the slice every sorting algorithm gives this list.
\<close>

named_theorems gomap_simps \<open>rewriting of association-list maps\<close>

subsection \<open>Machine integers\<close>

definition wrap32 :: "int \<Rightarrow> int" where
  "wrap32 x = (x + 2 ^ 31) mod 2 ^ 32 - 2 ^ 31"

definition wrap64 :: "int \<Rightarrow> int" where
  "wrap64 x = (x + 2 ^ 63) mod 2 ^ 64 - 2 ^ 63"

definition is_int32 :: "int \<Rightarrow> bool" where
  "is_int32 x \<longleftrightarrow> - (2 ^ 31) \<le> x \<and> x < 2 ^ 31"

subsection \<open>Times and durations\<close>

type_synonym gotime = int
type_synonym duration = int

definition maxDuration :: duration where "maxDuration = 2 ^ 63 - 1"
definition minDuration :: duration where "minDuration = - (2 ^ 63)"

text \<open>\<open>Time.Sub\<close>: the difference, saturated to the range of \<open>time.Duration\<close>.\<close>

definition time_sub :: "gotime \<Rightarrow> gotime \<Rightarrow> duration" where
  "time_sub t u = max minDuration (min maxDuration (t - u))"

subsection \<open>Maps\<close>

type_synonym ('k, 'v) gomap = "('k \<times> 'v) list"

definition gm_wf :: "('k, 'v) gomap \<Rightarrow> bool" where
  "gm_wf m \<longleftrightarrow> distinct (map fst m)"

text \<open>Reading a missing key of a \<open>map[K]int\<close> gives the zero value.\<close>

definition gm_int :: "('k, int) gomap \<Rightarrow> 'k \<Rightarrow> int" where
  "gm_int m k = (case map_of m k of None \<Rightarrow> 0 | Some n \<Rightarrow> n)"

text \<open>Reading a missing key of a map of maps gives the nil map, which reads as empty.\<close>

definition gm_map :: "('k, ('l, 'v) gomap) gomap \<Rightarrow> 'k \<Rightarrow> ('l, 'v) gomap" where
  "gm_map m k = (case map_of m k of None \<Rightarrow> [] | Some n \<Rightarrow> n)"

text \<open>The total weight of the bindings of a map, and the weight at one key.\<close>

definition wsum :: "('k \<Rightarrow> 'v \<Rightarrow> nat) \<Rightarrow> ('k, 'v) gomap \<Rightarrow> nat" where
  "wsum w m = sum_list (map (\<lambda>(k, v). w k v) m)"

definition wat :: "('k \<Rightarrow> 'v \<Rightarrow> nat) \<Rightarrow> ('k, 'v) gomap \<Rightarrow> 'k \<Rightarrow> nat" where
  "wat w m k = (case map_of m k of None \<Rightarrow> 0 | Some v \<Rightarrow> w k v)"

subsection \<open>Sorting with a comparator\<close>

fun insert_slice :: "('a \<Rightarrow> 'a \<Rightarrow> bool) \<Rightarrow> 'a \<Rightarrow> 'a list \<Rightarrow> 'a list" where
  "insert_slice lt x [] = [x]"
| "insert_slice lt x (y # ys) = (if lt y x then y # insert_slice lt x ys else x # y # ys)"

fun sort_slice :: "('a \<Rightarrow> 'a \<Rightarrow> bool) \<Rightarrow> 'a list \<Rightarrow> 'a list" where
  "sort_slice lt [] = []"
| "sort_slice lt (x # xs) = insert_slice lt x (sort_slice lt xs)"

subsection \<open>Lemmas on integers and times\<close>

lemma wrap32_id [simp]: "is_int32 x \<Longrightarrow> wrap32 x = x"
  by (simp add: wrap32_def is_int32_def)

lemma wrap32_range [simp]: "is_int32 (wrap32 x)"
  by (simp add: wrap32_def is_int32_def)

lemma wrap32_add_left [simp]: "wrap32 (wrap32 a + b) = wrap32 (a + b)"
proof -
  have "wrap32 a + b + 2 ^ 31 = (a + 2 ^ 31) mod 2 ^ 32 + b" by (simp add: wrap32_def)
  then have "(wrap32 a + b + 2 ^ 31) mod 2 ^ 32 = (a + 2 ^ 31 + b) mod 2 ^ 32"
    by (simp only: mod_add_left_eq)
  then show ?thesis by (simp add: wrap32_def ac_simps)
qed

lemma time_sub_pos_iff: "0 < time_sub t u \<longleftrightarrow> u < t"
  by (auto simp: time_sub_def minDuration_def maxDuration_def)

lemma time_sub_ge_iff:
  "0 < d \<Longrightarrow> d \<le> maxDuration \<Longrightarrow> d \<le> time_sub t u \<longleftrightarrow> u + d \<le> t"
  by (auto simp: time_sub_def minDuration_def maxDuration_def)

subsection \<open>Lemmas on maps\<close>

lemma gm_wf_Nil [simp]: "gm_wf []"
  by (simp add: gm_wf_def)

lemma gm_wf_update [simp]: "gm_wf m \<Longrightarrow> gm_wf (AList.update k v m)"
  by (simp add: gm_wf_def distinct_update)

lemma gm_wf_delete [simp]: "gm_wf m \<Longrightarrow> gm_wf (AList.delete k m)"
  by (simp add: gm_wf_def distinct_delete)

lemma map_of_update [gomap_simps]: "map_of (AList.update k v m) = (map_of m)(k \<mapsto> v)"
  by (simp add: update_conv')

lemma map_of_delete [gomap_simps]: "map_of (AList.delete k m) = (map_of m)(k := None)"
  by (simp add: delete_conv')

lemma gm_int_Nil [simp]: "gm_int [] k = 0"
  by (simp add: gm_int_def)

lemma gm_map_Nil [simp]: "gm_map [] k = []"
  by (simp add: gm_map_def)

lemma gm_map_update [gomap_simps]:
  "gm_map (AList.update k v m) k' = (if k' = k then v else gm_map m k')"
  by (simp add: gm_map_def gomap_simps)

lemma gm_map_delete [gomap_simps]:
  "gm_map (AList.delete k m) k' = (if k' = k then [] else gm_map m k')"
  by (simp add: gm_map_def gomap_simps)

lemma map_of_gm_wf: "gm_wf m \<Longrightarrow> map_of m k = Some v \<longleftrightarrow> (k, v) \<in> set m"
  by (simp add: gm_wf_def)

lemma gm_wf_ConsD: "gm_wf (p # m) \<Longrightarrow> gm_wf m \<and> fst p \<notin> fst ` set m"
  by (auto simp: gm_wf_def)

lemma delete_Nil_iff: "AList.delete k m = [] \<longleftrightarrow> (\<forall>k' \<in> fst ` set m. k' = k)"
  by (induction m) auto

lemma wsum_Nil [simp]: "wsum w [] = 0"
  by (simp add: wsum_def)

lemma wsum_Cons [simp]: "wsum w ((k, v) # m) = w k v + wsum w m"
  by (simp add: wsum_def)

lemma wat_notin: "k \<notin> fst ` set m \<Longrightarrow> wat w m k = 0"
  by (simp add: wat_def map_of_eq_None_iff[symmetric] split: option.split)

lemma update_notin: "k \<notin> fst ` set m \<Longrightarrow> AList.update k v m = m @ [(k, v)]"
  by (induction m) auto

lemma delete_notin: "k \<notin> fst ` set m \<Longrightarrow> AList.delete k m = m"
  by (induction m) auto

lemma wsum_append [simp]: "wsum w (m @ n) = wsum w m + wsum w n"
  by (simp add: wsum_def)

lemma wsum_update: "gm_wf m \<Longrightarrow> wsum w (AList.update k v m) + wat w m k = wsum w m + w k v"
proof (induction m)
  case (Cons p m)
  show ?case
  proof (cases p)
    case (Pair k' v')
    with Cons show ?thesis by (auto simp: wat_def gm_wf_def)
  qed
qed (simp add: wat_def)

lemma wsum_delete: "gm_wf m \<Longrightarrow> wsum w (AList.delete k m) + wat w m k = wsum w m"
proof (induction m)
  case (Cons p m)
  show ?case
  proof (cases p)
    case (Pair k' v')
    with Cons show ?thesis
      by (auto simp: wat_def gm_wf_def delete_notin dest: wat_notin)
  qed
qed (simp add: wat_def)

lemma wat_le_wsum: "wat w m k \<le> wsum w m"
  by (induction m) (auto simp: wat_def)

lemma wsum_0_iff: "wsum w m = 0 \<longleftrightarrow> (\<forall>(k, v) \<in> set m. w k v = 0)"
  by (induction m) auto

lemma wsum_mset: "mset m = mset n \<Longrightarrow> wsum w m = wsum w n"
proof -
  assume "mset m = mset n"
  then have "mset (map (\<lambda>(k, v). w k v) m) = mset (map (\<lambda>(k, v). w k v) n)"
    by (simp only: mset_map)
  then have "sum_mset (mset (map (\<lambda>(k, v). w k v) m)) = sum_mset (mset (map (\<lambda>(k, v). w k v) n))"
    by simp
  then show ?thesis by (simp only: wsum_def sum_mset_sum_list)
qed

subsection \<open>Lemmas on sorting\<close>

lemma mset_insert_slice [simp]: "mset (insert_slice lt x xs) = add_mset x (mset xs)"
  by (induction xs) auto

lemma set_insert_slice [simp]: "set (insert_slice lt x xs) = insert x (set xs)"
  by (induction xs) auto

lemma mset_sort_slice [simp]: "mset (sort_slice lt xs) = mset xs"
  by (induction xs) auto

lemma set_sort_slice [simp]: "set (sort_slice lt xs) = set xs"
  by (induction xs) auto

lemma length_sort_slice [simp]: "length (sort_slice lt xs) = length xs"
proof -
  have "size (mset (sort_slice lt xs)) = size (mset xs)" by (simp only: mset_sort_slice)
  then show ?thesis by (simp only: size_mset)
qed

lemma sort_slice_Nil_iff [simp]: "sort_slice lt xs = [] \<longleftrightarrow> xs = []"
  by (simp flip: length_0_conv)

lemma distinct_sort_slice_map [simp]:
  "distinct (map f (sort_slice lt xs)) \<longleftrightarrow> distinct (map f xs)"
  by (rule mset_eq_imp_distinct_iff) simp

text \<open>
  What \<open>sort.Slice\<close> promises. The comparator has to be a strict order on the elements
  of the slice (\<open>P\<close>) whose incomparability is transitive; the result is then sorted, and
  where distinct elements are always comparable it is the only sorted permutation, so the
  unstable sort of the Go library returns this list whatever order the slice was filled in.
\<close>

locale slice_order =
  fixes lt :: "'a \<Rightarrow> 'a \<Rightarrow> bool" and P :: "'a \<Rightarrow> bool"
  assumes lt_irrefl: "P x \<Longrightarrow> \<not> lt x x"
    and lt_trans: "P x \<Longrightarrow> P y \<Longrightarrow> P z \<Longrightarrow> lt x y \<Longrightarrow> lt y z \<Longrightarrow> lt x z"
    and lt_negtrans:
      "P x \<Longrightarrow> P y \<Longrightarrow> P z \<Longrightarrow> lt x z \<Longrightarrow> lt x y \<or> lt y z"
begin

lemma lt_asym: "P x \<Longrightarrow> P y \<Longrightarrow> lt x y \<Longrightarrow> \<not> lt y x"
  using lt_irrefl lt_trans by blast

lemma insert_sorted:
  assumes "P x" and "\<forall>y \<in> set xs. P y" and "sorted_wrt (\<lambda>a b. \<not> lt b a) xs"
  shows "sorted_wrt (\<lambda>a b. \<not> lt b a) (insert_slice lt x xs)"
  using assms
proof (induction xs)
  case (Cons y ys)
  show ?case
  proof (cases "lt y x")
    case True
    with Cons show ?thesis by (auto dest: lt_asym)
  next
    case False
    have "\<not> lt z x" if "z \<in> set ys" for z
      using that False Cons.prems lt_negtrans [of z y x] by auto
    with False Cons show ?thesis by auto
  qed
qed simp

lemma sort_sorted:
  "\<forall>x \<in> set xs. P x \<Longrightarrow> sorted_wrt (\<lambda>a b. \<not> lt b a) (sort_slice lt xs)"
  by (induction xs) (auto intro: insert_sorted)

lemma sorted_unique:
  assumes "mset xs = mset ys" and "\<forall>x \<in> set xs. P x"
    and "\<forall>x \<in> set xs. \<forall>y \<in> set xs. x \<noteq> y \<longrightarrow> lt x y \<or> lt y x"
    and "sorted_wrt (\<lambda>a b. \<not> lt b a) xs" and "sorted_wrt (\<lambda>a b. \<not> lt b a) ys"
  shows "xs = ys"
  using assms
proof (induction xs arbitrary: ys)
  case (Cons x xs)
  then obtain y ys' where ys: "ys = y # ys'" by (cases ys) auto
  have "set ys = set (x # xs)" using Cons.prems(1) mset_eq_setD by metis
  then have "x = y \<or> (x \<in> set ys' \<and> y \<in> set xs)" using ys by auto
  then have "x = y"
    using Cons.prems(3-5) ys by (metis list.set_intros(1,2) sorted_wrt.simps(2))
  moreover have "xs = ys'"
    by (rule Cons.IH) (use Cons.prems ys \<open>x = y\<close> in auto)
  ultimately show ?case using ys by simp
qed simp

lemma sort_perm:
  assumes "mset xs = mset ys" and "\<forall>x \<in> set xs. P x"
    and "\<forall>x \<in> set xs. \<forall>y \<in> set xs. x \<noteq> y \<longrightarrow> lt x y \<or> lt y x"
  shows "sort_slice lt xs = sort_slice lt ys"
proof (rule sorted_unique)
  have "set ys = set xs" using assms(1) mset_eq_setD by metis
  then show "sorted_wrt (\<lambda>a b. \<not> lt b a) (sort_slice lt ys)"
    using assms(2) by (intro sort_sorted) auto
qed (use assms sort_sorted in auto)

end

text \<open>
  Most comparators compare a rank in a linear order, field by field. Elements of different
  rank are then comparable, and equal results follow for any two fillings of the slice in
  which the rank determines the element.
\<close>

locale ranked_order =
  fixes lt :: "'a \<Rightarrow> 'a \<Rightarrow> bool" and rank :: "'a \<Rightarrow> 'b::linorder"
  assumes lt_rank: "lt x y \<longleftrightarrow> rank x < rank y"

sublocale ranked_order \<subseteq> slice_order lt "\<lambda>_. True"
  by unfold_locales (auto simp: lt_rank)

context ranked_order
begin

lemma sorted_rank: "sorted_wrt (\<lambda>a b. rank a \<le> rank b) (sort_slice lt xs)"
  using sort_sorted [of xs] by (simp add: lt_rank not_less)

lemma sort_perm_rank:
  "mset xs = mset ys \<Longrightarrow> inj_on rank (set xs) \<Longrightarrow> sort_slice lt xs = sort_slice lt ys"
  by (rule sort_perm) (auto simp: lt_rank dest: inj_onD intro: le_neq_trans simp flip: not_le)

end

text \<open>\<open>sort.Strings\<close> orders by \<open><\<close>.\<close>

interpretation string_sort: ranked_order "(<) :: string \<Rightarrow> string \<Rightarrow> bool" "\<lambda>s. s"
  by unfold_locales simp

end
