(* ===== verification/Go_Float.thy ===== *)
theory Go_Float
  imports Complex_Main "HOL-Library.Log_Nat" Prelude
begin

text \<open>
  Go's \<open>float32\<close> and \<open>float64\<close>, as the ranking code uses them: finite values are exact
  rationals, and every operation rounds its exact result to the nearest representable value,
  ties to even, as IEEE 754 prescribes. Overflow gives an infinity and the undefined cases
  give NaN, on which every comparison is false. The two zeros are one value: no code under
  \<open>src/\<close> that is modelled here divides by a zero that may be negative. Every operation is
  rounded on its own, as the amd64 compiler does (the language lets a compiler fuse a
  multiplication with an addition).
\<close>

subsection \<open>Rounding\<close>

definition pow2 :: "int \<Rightarrow> rat" where
  "pow2 e = (if 0 \<le> e then 2 ^ nat e else 1 / 2 ^ nat (- e))"

text \<open>The exponent of the largest power of two that is at most a positive rational.\<close>

definition flog2 :: "rat \<Rightarrow> int" where
  "flog2 x = (let (n, d) = quotient_of x; e = bitlen n - bitlen d
              in if pow2 e \<le> x then e else e - 1)"

definition round_half_even :: "rat \<Rightarrow> int" where
  "round_half_even x =
     (let f = \<lfloor>x\<rfloor>; r = x - of_int f
      in if r < 1 / 2 then f else if 1 / 2 < r then f + 1 else if even f then f else f + 1)"

text \<open>A binary format: precision, exponent of the smallest quantum, overflow exponent.\<close>

datatype fmt = Fmt (prec: int) (qmin: int) (emax: int)

definition binary32 :: fmt where "binary32 = Fmt 24 (-149) 128"
definition binary64 :: fmt where "binary64 = Fmt 53 (-1074) 1024"

definition quantum :: "fmt \<Rightarrow> rat \<Rightarrow> int" where
  "quantum F x = (if x = 0 then qmin F else max (qmin F) (flog2 \<bar>x\<bar> - (prec F - 1)))"

definition rnd_rat :: "fmt \<Rightarrow> rat \<Rightarrow> rat" where
  "rnd_rat F x = of_int (round_half_even (x / pow2 (quantum F x))) * pow2 (quantum F x)"

subsection \<open>Values and operations\<close>

datatype flt = Fin rat | PInf | NInf | NaN

definition rnd :: "fmt \<Rightarrow> rat \<Rightarrow> flt" where
  "rnd F x = (let r = rnd_rat F x
              in if pow2 (emax F) \<le> r then PInf else if r \<le> - pow2 (emax F) then NInf else Fin r)"

text \<open>Conversion between the two widths, and from an integer.\<close>

fun fconv :: "fmt \<Rightarrow> flt \<Rightarrow> flt" where
  "fconv F (Fin x) = rnd F x"
| "fconv F x = x"

definition fint :: "fmt \<Rightarrow> int \<Rightarrow> flt" where
  "fint F n = rnd F (of_int n)"

fun fneg :: "flt \<Rightarrow> flt" where
  "fneg (Fin x) = Fin (- x)"
| "fneg PInf = NInf"
| "fneg NInf = PInf"
| "fneg NaN = NaN"

fun fadd :: "fmt \<Rightarrow> flt \<Rightarrow> flt \<Rightarrow> flt" where
  "fadd F (Fin x) (Fin y) = rnd F (x + y)"
| "fadd F NaN _ = NaN"
| "fadd F _ NaN = NaN"
| "fadd F PInf NInf = NaN"
| "fadd F NInf PInf = NaN"
| "fadd F PInf _ = PInf"
| "fadd F _ PInf = PInf"
| "fadd F NInf _ = NInf"
| "fadd F _ NInf = NInf"

definition fsub :: "fmt \<Rightarrow> flt \<Rightarrow> flt \<Rightarrow> flt" where
  "fsub F x y = fadd F x (fneg y)"

definition inf_sgn :: "rat \<Rightarrow> flt" where
  "inf_sgn s = (if s = 0 then NaN else if 0 < s then PInf else NInf)"

fun fsgn :: "flt \<Rightarrow> rat" where
  "fsgn (Fin x) = sgn x"
| "fsgn PInf = 1"
| "fsgn NInf = - 1"
| "fsgn NaN = 0"

fun fmul :: "fmt \<Rightarrow> flt \<Rightarrow> flt \<Rightarrow> flt" where
  "fmul F (Fin x) (Fin y) = rnd F (x * y)"
| "fmul F NaN _ = NaN"
| "fmul F _ NaN = NaN"
| "fmul F x y = inf_sgn (fsgn x * fsgn y)"

fun fdiv :: "fmt \<Rightarrow> flt \<Rightarrow> flt \<Rightarrow> flt" where
  "fdiv F (Fin x) (Fin y) = (if y = 0 then inf_sgn (sgn x) else rnd F (x / y))"
| "fdiv F NaN _ = NaN"
| "fdiv F _ NaN = NaN"
| "fdiv F (Fin x) _ = Fin 0"
| "fdiv F x (Fin y) = inf_sgn (fsgn x * (if y < 0 then - 1 else 1))"
| "fdiv F _ _ = NaN"

fun flt_lt :: "flt \<Rightarrow> flt \<Rightarrow> bool" where
  "flt_lt (Fin x) (Fin y) = (x < y)"
| "flt_lt NaN _ = False"
| "flt_lt _ NaN = False"
| "flt_lt x PInf = (x \<noteq> PInf)"
| "flt_lt NInf y = (y \<noteq> NInf)"
| "flt_lt _ _ = False"

fun flt_eq :: "flt \<Rightarrow> flt \<Rightarrow> bool" where
  "flt_eq NaN _ = False"
| "flt_eq x y = (x = y)"

definition flt_le :: "flt \<Rightarrow> flt \<Rightarrow> bool" where
  "flt_le x y \<longleftrightarrow> flt_lt x y \<or> flt_eq x y"

definition flt_finite :: "flt \<Rightarrow> bool" where
  "flt_finite x \<longleftrightarrow> x \<noteq> PInf \<and> x \<noteq> NInf \<and> x \<noteq> NaN"

text \<open>A value of the format: a non-finite one, or a rational that rounding keeps.\<close>

fun flt_of :: "fmt \<Rightarrow> flt \<Rightarrow> bool" where
  "flt_of F (Fin x) = (rnd F x = Fin x)"
| "flt_of F _ = True"

subsection \<open>Powers of two and logarithms\<close>

lemma pow2_pos [simp]: "0 < pow2 e"
  by (simp add: pow2_def)

lemma pow2_nonzero [simp]: "pow2 e \<noteq> 0"
  using pow2_pos [of e] by linarith

lemma pow2_0 [simp]: "pow2 0 = 1"
  by (simp add: pow2_def)

lemma pow2_Suc: "pow2 (e + 1) = 2 * pow2 e"
proof (cases "0 \<le> e")
  case True
  then have "nat (e + 1) = Suc (nat e)" by simp
  with True show ?thesis by (simp add: pow2_def)
next
  case False
  then have "nat (- e) = Suc (nat (- (e + 1)))" by simp
  with False show ?thesis by (cases "e = - 1") (auto simp: pow2_def)
qed

lemma pow2_add_nat: "pow2 (e + int n) = pow2 e * 2 ^ n"
proof (induction n)
  case (Suc n)
  have "pow2 (e + int (Suc n)) = pow2 ((e + int n) + 1)" by (simp add: ac_simps)
  then show ?case using Suc by (simp add: pow2_Suc)
qed simp

lemma pow2_add: "pow2 (a + b) = pow2 a * pow2 b"
proof (cases "0 \<le> b")
  case True
  then show ?thesis using pow2_add_nat [of a "nat b"] pow2_add_nat [of 0 "nat b"] by simp
next
  case False
  then have "pow2 a = pow2 (a + b) * pow2 (- b)"
    using pow2_add_nat [of "a + b" "nat (- b)"] pow2_add_nat [of 0 "nat (- b)"] by simp
  moreover have "pow2 (- b) * pow2 b = 1"
    using False by (auto simp: pow2_def)
  ultimately show ?thesis by (simp add: mult.assoc)
qed

lemma pow2_diff: "pow2 (a - b) = pow2 a / pow2 b"
  using pow2_add [of "a - b" b] by (simp add: field_simps)

lemma pow2_le_iff [simp]: "pow2 a \<le> pow2 b \<longleftrightarrow> a \<le> b"
proof -
  have mono: "pow2 a \<le> pow2 b" if "a \<le> b" for a b
    using that pow2_add_nat [of a "nat (b - a)"] by simp
  have strict: "pow2 a < pow2 b" if "a < b" for a b
  proof -
    have "2 * pow2 a \<le> pow2 b" using mono [of "a + 1" b] that by (simp add: pow2_Suc)
    then show ?thesis using pow2_pos [of a] by linarith
  qed
  show ?thesis using mono strict by (meson not_le)
qed

lemma pow2_less_iff [simp]: "pow2 a < pow2 b \<longleftrightarrow> a < b"
  by (meson not_le pow2_le_iff)

lemma pow2_of_int: "0 \<le> e \<Longrightarrow> pow2 e = of_int (2 ^ nat e)"
  by (simp add: pow2_def)

lemma bitlen_pow2:
  assumes "0 < n"
  shows "pow2 (bitlen n - 1) \<le> of_int n" and "of_int n < pow2 (bitlen n)"
proof -
  have b: "1 \<le> bitlen n"
    using assms bitlen_nonneg [of n] bitlen_eq_zero_iff [of n] by linarith
  have "2 ^ nat (bitlen n - 1) \<le> n" and "n < 2 ^ nat (bitlen n)"
    using bitlen_bounds [OF assms] by auto
  then show "pow2 (bitlen n - 1) \<le> of_int n" and "of_int n < pow2 (bitlen n)"
    using b by (simp_all only: pow2_of_int of_int_le_iff of_int_less_iff)
qed

lemma flog2_bounds:
  assumes "0 < x"
  shows "pow2 (flog2 x) \<le> x" and "x < pow2 (flog2 x + 1)"
proof -
  obtain n d where nd: "quotient_of x = (n, d)" by (cases "quotient_of x")
  then have x: "x = of_int n / of_int d" and d: "0 < d"
    using quotient_of_div quotient_of_denom_pos by blast+
  have n: "0 < n" using assms d by (simp add: x zero_less_divide_iff)
  let ?e = "bitlen n - bitlen d"
  have "x < pow2 (bitlen n) / pow2 (bitlen d - 1)" and "pow2 (bitlen n - 1) / pow2 (bitlen d) \<le> x"
    unfolding x using bitlen_pow2 [OF n] bitlen_pow2 [OF d] n d
    by (auto intro!: frac_less frac_le simp: less_imp_le)
  then have "x < pow2 (?e + 1)" and "pow2 (?e - 1) \<le> x"
    by (simp_all add: pow2_diff [symmetric] algebra_simps)
  then show "pow2 (flog2 x) \<le> x" and "x < pow2 (flog2 x + 1)"
    by (auto simp: flog2_def nd Let_def)
qed

lemma flog2_unique: "pow2 e \<le> x \<Longrightarrow> x < pow2 (e + 1) \<Longrightarrow> flog2 x = e"
proof -
  assume e: "pow2 e \<le> x" "x < pow2 (e + 1)"
  then have "0 < x" using pow2_pos [of e] by linarith
  note b = flog2_bounds [OF this]
  have "pow2 e < pow2 (flog2 x + 1)" "pow2 (flog2 x) < pow2 (e + 1)" using e b by linarith+
  then show ?thesis by simp
qed

lemma flog2_mono: "0 < x \<Longrightarrow> x \<le> y \<Longrightarrow> flog2 x \<le> flog2 y"
proof -
  assume xy: "0 < x" "x \<le> y"
  then have "pow2 (flog2 x) < pow2 (flog2 y + 1)"
    using flog2_bounds [of x] flog2_bounds [of y] by linarith
  then show ?thesis by simp
qed

subsection \<open>Rounding to an integer\<close>

lemma round_half_even_floor: "\<lfloor>x\<rfloor> \<le> round_half_even x" "round_half_even x \<le> \<lfloor>x\<rfloor> + 1"
  by (auto simp: round_half_even_def Let_def)

lemma round_half_even_of_int [simp]: "round_half_even (of_int n) = n"
  by (simp add: round_half_even_def)

lemma round_half_even_mono: "x \<le> y \<Longrightarrow> round_half_even x \<le> round_half_even y"
proof (cases "\<lfloor>x\<rfloor> = \<lfloor>y\<rfloor>")
  case True
  assume "x \<le> y"
  with True show ?thesis by (auto simp: round_half_even_def Let_def)
next
  case False
  assume "x \<le> y"
  then have "\<lfloor>x\<rfloor> \<le> \<lfloor>y\<rfloor>" by (rule floor_mono)
  with False show ?thesis
    using round_half_even_floor(2) [of x] round_half_even_floor(1) [of y] by linarith
qed

lemma round_half_even_minus: "round_half_even (- x) = - round_half_even x"
proof (cases "x = of_int \<lfloor>x\<rfloor>")
  case True
  then obtain n where "x = of_int n" by blast
  then show ?thesis using round_half_even_of_int [of "- n"] by simp
next
  case False
  then have f: "\<lfloor>- x\<rfloor> = - \<lfloor>x\<rfloor> - 1"
    using floor_correct [of x] by (intro floor_unique) (auto simp: less_le)
  have "- x - of_int \<lfloor>- x\<rfloor> = 1 - (x - of_int \<lfloor>x\<rfloor>)" by (simp add: f)
  then show ?thesis by (auto simp: round_half_even_def Let_def f)
qed

lemma round_half_even_le_int: "x \<le> of_int n \<Longrightarrow> round_half_even x \<le> n"
  using round_half_even_mono [of x "of_int n"] by simp

lemma round_half_even_ge_int: "of_int n \<le> x \<Longrightarrow> n \<le> round_half_even x"
  using round_half_even_mono [of "of_int n" x] by simp

subsection \<open>Rounding to a format\<close>

lemma quantum_minus [simp]: "quantum F (- x) = quantum F x"
  by (simp add: quantum_def)

lemma rnd_rat_minus: "rnd_rat F (- x) = - rnd_rat F x"
  by (simp add: rnd_rat_def round_half_even_minus)

lemma rnd_rat_0 [simp]: "rnd_rat F 0 = 0"
  using round_half_even_of_int [of 0] by (simp add: rnd_rat_def)

lemma rnd_rat_nonneg: "0 \<le> x \<Longrightarrow> 0 \<le> rnd_rat F x"
  unfolding rnd_rat_def
  by (intro mult_nonneg_nonneg) (auto intro: round_half_even_ge_int simp: less_imp_le)

lemma quantum_mono: "0 \<le> x \<Longrightarrow> x \<le> y \<Longrightarrow> quantum F x \<le> quantum F y"
  using flog2_mono [of x y] by (auto simp: quantum_def)

lemma below_binade:
  assumes "0 \<le> x"
  shows "x < pow2 (quantum F x + prec F)"
proof (cases "x = 0")
  case False
  then have "x < pow2 (flog2 x + 1)" using assms flog2_bounds [of x] by simp
  moreover have "flog2 x + 1 \<le> quantum F x + prec F" using assms False by (simp add: quantum_def)
  then have "pow2 (flog2 x + 1) \<le> pow2 (quantum F x + prec F)" by simp
  ultimately show ?thesis by linarith
qed simp

lemma rnd_rat_le_binade:
  assumes "0 \<le> x" and "1 \<le> prec F"
  shows "rnd_rat F x \<le> pow2 (quantum F x + prec F)"
proof -
  have "x / pow2 (quantum F x) \<le> of_int (2 ^ nat (prec F))"
    using below_binade [OF assms(1), of F] assms(2)
    by (simp add: field_simps pow2_add pow2_of_int)
  then have "round_half_even (x / pow2 (quantum F x)) \<le> 2 ^ nat (prec F)"
    by (rule round_half_even_le_int)
  then have "rnd_rat F x \<le> of_int (2 ^ nat (prec F)) * pow2 (quantum F x)"
    unfolding rnd_rat_def by (intro mult_right_mono) (simp_all only: of_int_le_iff pow2_pos less_imp_le)
  then show ?thesis using assms(2) by (simp add: pow2_add pow2_of_int mult.commute)
qed

lemma rnd_rat_mono_nonneg:
  assumes "0 \<le> x" and "x \<le> y" and p: "1 \<le> prec F"
  shows "rnd_rat F x \<le> rnd_rat F y"
proof (cases "quantum F x = quantum F y")
  case True
  then show ?thesis
    using assms(2) unfolding rnd_rat_def
    by (auto intro!: mult_right_mono round_half_even_mono divide_right_mono simp: less_imp_le)
next
  case False
  then have lt: "quantum F x < quantum F y" using quantum_mono [OF assms(1,2), of F] by simp
  then have "y \<noteq> 0" by (auto simp: quantum_def split: if_splits)
  with lt assms have q: "quantum F y = flog2 y - (prec F - 1)" and "0 < y"
    by (auto simp: quantum_def max_def split: if_splits)
  let ?k = "2 ^ nat (prec F - 1) :: int"
  have "pow2 (quantum F y + (prec F - 1)) \<le> y" using flog2_bounds(1) [OF \<open>0 < y\<close>] by (simp add: q)
  then have "pow2 (quantum F y) * of_int ?k \<le> y"
    using p by (simp only: pow2_add pow2_of_int)
  then have "of_int ?k \<le> y / pow2 (quantum F y)"
    by (simp add: pos_le_divide_eq mult.commute)
  then have "?k \<le> round_half_even (y / pow2 (quantum F y))" by (rule round_half_even_ge_int)
  then have "of_int ?k * pow2 (quantum F y) \<le> rnd_rat F y"
    unfolding rnd_rat_def by (intro mult_right_mono) (simp_all only: of_int_le_iff pow2_pos less_imp_le)
  then have "pow2 (quantum F y + (prec F - 1)) \<le> rnd_rat F y"
    using p by (simp only: pow2_add pow2_of_int mult.commute)
  moreover have "pow2 (quantum F x + prec F) \<le> pow2 (quantum F y + (prec F - 1))"
    using lt by simp
  ultimately show ?thesis using rnd_rat_le_binade [OF assms(1) p] by linarith
qed

lemma rnd_rat_mono:
  assumes "x \<le> y" and "1 \<le> prec F"
  shows "rnd_rat F x \<le> rnd_rat F y"
proof -
  consider "0 \<le> x" | "x < 0" "0 \<le> y" | "y < 0" by linarith
  then show ?thesis
  proof cases
    case 1
    then show ?thesis using assms by (intro rnd_rat_mono_nonneg)
  next
    case 2
    then have "0 \<le> rnd_rat F (- x)" and "0 \<le> rnd_rat F y" by (auto intro: rnd_rat_nonneg)
    then show ?thesis by (simp add: rnd_rat_minus)
  next
    case 3
    then have "rnd_rat F (- y) \<le> rnd_rat F (- x)" using assms by (intro rnd_rat_mono_nonneg) auto
    then show ?thesis by (simp add: rnd_rat_minus)
  qed
qed

text \<open>Multiples of the quantum below the precision are kept, hence rounding is idempotent.\<close>

lemma rnd_rat_exact:
  assumes "x = of_int k * pow2 q" and "quantum F x \<le> q"
  shows "rnd_rat F x = x"
proof -
  let ?n = "k * 2 ^ nat (q - quantum F x)"
  have "x = of_int k * (pow2 (q - quantum F x) * pow2 (quantum F x))"
    using assms(1) by (simp flip: pow2_add)
  then have x: "x = of_int ?n * pow2 (quantum F x)"
    using assms(2) pow2_of_int [of "q - quantum F x"] by simp
  then have "x / pow2 (quantum F x) = of_int ?n"
    by (metis nonzero_mult_div_cancel_right pow2_nonzero)
  then have "rnd_rat F x = of_int ?n * pow2 (quantum F x)"
    by (simp only: rnd_rat_def round_half_even_of_int)
  with x show ?thesis by simp
qed

lemma quantum_le:
  assumes "\<bar>x\<bar> < pow2 (q + prec F)" and "qmin F \<le> q"
  shows "quantum F x \<le> q"
proof (cases "x = 0")
  case False
  then have "pow2 (flog2 \<bar>x\<bar>) < pow2 (q + prec F)"
    using flog2_bounds(1) [of "\<bar>x\<bar>"] assms(1) by linarith
  then show ?thesis using assms(2) False by (simp add: quantum_def)
qed (use assms in \<open>simp add: quantum_def\<close>)

lemma rnd_rat_int:
  assumes "\<bar>n\<bar> < 2 ^ nat (prec F)" and "1 \<le> prec F" and "qmin F \<le> 0"
  shows "rnd_rat F (of_int n) = of_int n"
proof (rule rnd_rat_exact [where k = n and q = 0])
  have "of_int \<bar>n\<bar> < (of_int (2 ^ nat (prec F)) :: rat)"
    using assms(1) by (simp only: of_int_less_iff)
  then have "\<bar>of_int n\<bar> < pow2 (prec F)"
    using assms(2) by (simp only: of_int_abs pow2_of_int)
  then show "quantum F (of_int n) \<le> 0" using assms by (intro quantum_le) auto
qed simp

lemma rnd_rat_idem_nonneg:
  assumes "0 \<le> x" and p: "1 \<le> prec F"
  shows "rnd_rat F (rnd_rat F x) = rnd_rat F x"
proof -
  let ?q = "quantum F x" let ?r = "rnd_rat F x"
  obtain k where k: "?r = of_int k * pow2 ?q" by (auto simp: rnd_rat_def)
  have qm: "qmin F \<le> ?q" by (simp add: quantum_def)
  have r0: "0 \<le> ?r" by (rule rnd_rat_nonneg [OF assms(1)])
  show ?thesis
  proof (cases "?r < pow2 (?q + prec F)")
    case True
    show ?thesis by (rule rnd_rat_exact [OF k]) (use True r0 qm in \<open>auto intro: quantum_le\<close>)
  next
    case False
    then have r: "?r = of_int 1 * pow2 (?q + prec F)" using rnd_rat_le_binade [OF assms] by simp
    have "quantum F ?r \<le> ?q + 1"
      by (rule quantum_le) (use r qm in \<open>auto simp: less_imp_le abs_of_pos\<close>)
    then show ?thesis using p by (intro rnd_rat_exact [OF r]) auto
  qed
qed

lemma rnd_rat_idem: "1 \<le> prec F \<Longrightarrow> rnd_rat F (rnd_rat F x) = rnd_rat F x"
  using rnd_rat_idem_nonneg [of x F] rnd_rat_idem_nonneg [of "- x" F]
  by (cases "0 \<le> x") (auto simp: rnd_rat_minus)

subsection \<open>The order on values\<close>

lemma flt_le_Fin [simp]: "flt_le (Fin x) (Fin y) \<longleftrightarrow> x \<le> y"
  by (auto simp: flt_le_def)

lemma flt_lt_irrefl [simp]: "\<not> flt_lt x x"
  by (cases x) auto

lemma flt_lt_trans: "flt_lt x y \<Longrightarrow> flt_lt y z \<Longrightarrow> flt_lt x z"
  by (cases x; cases y; cases z) auto

lemma flt_lt_total: "x \<noteq> NaN \<Longrightarrow> y \<noteq> NaN \<Longrightarrow> flt_lt x y \<or> x = y \<or> flt_lt y x"
  by (cases x; cases y) auto

lemma flt_eq_iff: "x \<noteq> NaN \<Longrightarrow> flt_eq x y \<longleftrightarrow> x = y"
  by (cases x) auto

lemma flt_le_trans: "flt_le x y \<Longrightarrow> flt_le y z \<Longrightarrow> flt_le x z"
  by (cases x; cases y; cases z) (auto simp: flt_le_def)

subsection \<open>Formats\<close>

text \<open>
  What the ranking code relies on of a float format, proved once for both widths: rounding
  is monotone, keeps the values of the format (the small integers and the powers of two among
  them), and never makes a NaN.
\<close>

locale float_format =
  fixes F :: fmt
  assumes prec_pos: "1 \<le> prec F" and qmin_le: "qmin F \<le> 0" and prec_le: "prec F \<le> emax F"
begin

lemma rnd_Fin_iff: "rnd F x = Fin r \<longleftrightarrow> r = rnd_rat F x \<and> \<bar>r\<bar> < pow2 (emax F)"
  by (auto simp: rnd_def Let_def)

lemma rnd_not_NaN [simp]: "rnd F x \<noteq> NaN"
  by (simp add: rnd_def Let_def)

lemma rnd_mono: "x \<le> y \<Longrightarrow> flt_le (rnd F x) (rnd F y)"
proof -
  assume "x \<le> y"
  then have "rnd_rat F x \<le> rnd_rat F y" using prec_pos by (rule rnd_rat_mono)
  then show ?thesis using pow2_pos [of "emax F"] by (auto simp: rnd_def Let_def flt_le_def)
qed

lemma flt_of_rnd [simp]: "flt_of F (rnd F x)"
  using prec_pos by (auto simp: rnd_def Let_def rnd_rat_idem)

lemma rnd_flt_of: "flt_of F (Fin x) \<Longrightarrow> rnd_rat F x = x \<and> \<bar>x\<bar> < pow2 (emax F)"
  by (simp add: rnd_Fin_iff)

lemma rnd_between:
  assumes "flt_of F (Fin lo)" and "flt_of F (Fin hi)" and "lo \<le> x" and "x \<le> hi"
  obtains r where "rnd F x = Fin r" and "lo \<le> r" and "r \<le> hi" and "flt_of F (Fin r)"
proof -
  have "lo \<le> rnd_rat F x" and "rnd_rat F x \<le> hi"
    using assms rnd_rat_mono [of lo x F] rnd_rat_mono [of x hi F] prec_pos rnd_flt_of by auto
  moreover have "\<bar>lo\<bar> < pow2 (emax F)" and "\<bar>hi\<bar> < pow2 (emax F)"
    using assms rnd_flt_of by auto
  ultimately have "rnd F x = Fin (rnd_rat F x)" by (auto simp: rnd_Fin_iff)
  then show ?thesis
    using that \<open>lo \<le> rnd_rat F x\<close> \<open>rnd_rat F x \<le> hi\<close> flt_of_rnd [of x] by metis
qed

lemma flt_of_int: "\<bar>n\<bar> < 2 ^ nat (prec F) \<Longrightarrow> flt_of F (Fin (of_int n))"
proof -
  assume n: "\<bar>n\<bar> < 2 ^ nat (prec F)"
  then have "of_int \<bar>n\<bar> < (of_int (2 ^ nat (prec F)) :: rat)" by (simp only: of_int_less_iff)
  then have "\<bar>of_int n\<bar> < pow2 (prec F)" using prec_pos by (simp only: of_int_abs pow2_of_int)
  moreover have "pow2 (prec F) \<le> pow2 (emax F)" using prec_le by simp
  ultimately have "\<bar>of_int n\<bar> < pow2 (emax F)" by linarith
  then show ?thesis
    using n prec_pos qmin_le by (simp add: rnd_Fin_iff rnd_rat_int)
qed

lemma flt_of_0 [simp]: "flt_of F (Fin 0)"
  using flt_of_int [of 0] by simp

lemma flt_of_1 [simp]: "flt_of F (Fin 1)"
proof -
  have "(1::int) < 2 ^ nat (prec F)" using prec_pos by simp
  then show ?thesis using flt_of_int [of 1] by simp
qed

lemma rnd_0 [simp]: "rnd F 0 = Fin 0" and rnd_1 [simp]: "rnd F 1 = Fin 1"
  using flt_of_0 flt_of_1 by simp_all

lemma flt_of_pow2: "0 \<le> e \<Longrightarrow> e < emax F \<Longrightarrow> flt_of F (Fin (pow2 e))"
proof -
  assume e: "0 \<le> e" "e < emax F"
  have "quantum F (pow2 e) \<le> e"
  proof (rule quantum_le)
    have "pow2 e < pow2 (e + prec F)" using prec_pos by simp
    then show "\<bar>pow2 e\<bar> < pow2 (e + prec F)" by (simp add: less_imp_le abs_of_pos)
  qed (use e qmin_le in simp)
  then have "rnd_rat F (pow2 e) = pow2 e"
    by (intro rnd_rat_exact [where k = 1 and q = e]) simp_all
  then show ?thesis using e by (simp add: rnd_Fin_iff less_imp_le abs_of_pos)
qed

text \<open>Multiplying a non-negative value by a factor of the unit interval shrinks it.\<close>

lemma fmul_shrink:
  assumes "flt_of F (Fin a)" and "0 \<le> a" and "0 \<le> b" and "b \<le> 1"
  obtains r where "fmul F (Fin a) (Fin b) = Fin r" and "0 \<le> r" and "r \<le> a" and "flt_of F (Fin r)"
proof (rule rnd_between)
  show "flt_of F (Fin 0)" by simp
  show "flt_of F (Fin a)" by fact
  show "0 \<le> a * b" using assms by simp
  show "a * b \<le> a" using assms by (simp add: mult_left_le)
qed (use that in simp)

lemma fmul_1: "flt_of F (Fin a) \<Longrightarrow> fmul F (Fin a) (Fin 1) = Fin a"
  by simp

end

interpretation f32: float_format binary32
  by unfold_locales (simp_all add: binary32_def)

interpretation f64: float_format binary64
  by unfold_locales (simp_all add: binary64_def)

end
