(* ===== verification/Index_Types.thy ===== *)
theory Index_Types
  imports Prelude Go_Float
begin

text \<open>
  The data of \<open>internal/index\<close>: the types of \<open>types.go\<close> and the \<open>Index\<close> struct of
  \<open>index.go\<close> with its keys, entries, options and constructor.

  The struct's mutex is not modelled: every operation of the index that writes runs under the
  write lock from its first to its last access, so the operations are atomic steps on one
  record. The clock (\<open>i.now\<close>) is an argument of the operations that read it. An entry is held
  by pointer in Go; the field \<open>re_id\<close> is its identity, taken from the allocation counter
  \<open>nextEntry\<close>, so that a pointer captured by a lookup still names the entry it was taken from
  (and no other) when the credit arrives later. The metrics sink is the list of calls made
  to it, or \<open>None\<close> when no sink is wired. Counters are unbounded integers: an \<open>int\<close> of the
  code counts map entries in memory and cannot reach \<open>2^63\<close>.
\<close>

subsection \<open>Cache tiers\<close>

text \<open>\<open>CacheTier\<close> is an open \<open>int32\<close> enum: unknown positive values are kept.\<close>

type_synonym CacheTier = int

abbreviation TierUnspecified :: CacheTier where "TierUnspecified \<equiv> 0"
abbreviation TierT1 :: CacheTier where "TierT1 \<equiv> 1"
abbreviation TierT2 :: CacheTier where "TierT2 \<equiv> 2"
abbreviation TierT3 :: CacheTier where "TierT3 \<equiv> 3"

definition worstTier :: "CacheTier \<Rightarrow> CacheTier \<Rightarrow> CacheTier" where
  "worstTier a b =
     (if a = TierUnspecified \<or> b = TierUnspecified then TierUnspecified
      else if b < a then a else b)"

subsection \<open>Requests, updates and events\<close>

definition EvictionLRU :: string where "EvictionLRU = ''lru''"
definition EvictionLFU :: string where "EvictionLFU = ''lfu''"

record ReplicaStats =
  rs_ReplicaID :: string
  rs_CacheMemoryBytes :: int
  rs_HitRate :: flt
  rs_Pressure :: flt
  rs_T2HitTokens :: int
  rs_T2QueryTokens :: int

record PrefixRef =
  pr_PrefixHash :: string
  pr_TokenCount :: int
  pr_BlockHashes :: "string list"
  pr_BlockTokenCounts :: "int list"
  pr_Tier :: CacheTier
  pr_Adapter :: string

record Update =
  u_ReplicaID :: string
  u_Model :: string
  u_Tenant :: string
  u_HashScheme :: string
  u_Adapter :: string
  u_Timestamp :: gotime
  u_Prefixes :: "PrefixRef list"
  u_Stats :: "ReplicaStats option"

datatype EventType = EventPrefixAdded | EventPrefixEvicted | EventReplicaUpdated | EventAllCleared

record Event =
  ev_Type :: EventType
  ev_ReplicaID :: string
  ev_Model :: string
  ev_Tenant :: string
  ev_PrefixHash :: string
  ev_Adapter :: string
  ev_Timestamp :: gotime

record LookupRequest =
  lr_Model :: string
  lr_Tenant :: string
  lr_HashScheme :: string
  lr_Adapter :: string
  lr_PrefixHash :: string
  lr_TokenCount :: int
  lr_BlockHashes :: "string list"
  lr_BlockTokenCounts :: "int list"
  lr_TTFTBudgetMs :: int
  lr_TBTBudgetMs :: int

record ReplicaScore =
  sc_ReplicaID :: string
  sc_Score :: flt
  sc_MatchedTokens :: int
  sc_EstimatedCacheHitProb :: flt
  sc_Tier :: CacheTier

datatype Strategy =
    StrategyNone
  | StrategyPrefixMatch
  | StrategyTenantHot
  | StrategyUnknownTenant
  | StrategyUnknownModel
  | StrategyUnknownHashScheme

text \<open>The captured hits: per replica the identities of the entries of its matched run.\<close>

record LookupResult =
  res_Scores :: "ReplicaScore list"
  res_Strategy :: Strategy
  res_hits :: "(string, nat list) gomap"

definition strategyOnly :: "Strategy \<Rightarrow> LookupResult" where
  "strategyOnly s = \<lparr>res_Scores = [], res_Strategy = s, res_hits = []\<rparr>"

record RankerConfig =
  PressureWeight :: flt
  SLOTightTTFTMs :: int
  SLOTightBias :: flt
  TenantHotMinHitRate :: flt
  TenantHotMaxAge :: duration

text \<open>\<open>DefaultRankerConfig\<close>, with the constants of \<open>ranking.go\<close>.\<close>

definition DefaultRankerConfig :: RankerConfig where
  "DefaultRankerConfig =
     \<lparr>PressureWeight = Fin 1, SLOTightTTFTMs = 200, SLOTightBias = Fin 1,
      TenantHotMinHitRate = rnd binary32 (1 / 10), TenantHotMaxAge = 5 * 60 * 10 ^ 9\<rparr>"

subsection \<open>Keys and entries\<close>

datatype prefixKey =
  PrefixKey (pk_tenant: string) (pk_model: string) (pk_hashScheme: string)
    (pk_adapter: string) (pk_prefixHash: string)

datatype statsKey = StatsKey (sk_tenant: string) (sk_model: string) (sk_replicaID: string)

datatype modelKey = ModelKey (mk_tenant: string) (mk_model: string)

datatype scopeKey = ScopeKey (sc_tenant: string) (sc_model: string) (sc_hashScheme: string)

record replicaEntry =
  re_id :: nat
  re_tokenCount :: int
  re_lastSeen :: gotime
  re_tier :: CacheTier
  re_accessCount :: int

record statEntry =
  se_stats :: ReplicaStats
  se_lastSeen :: gotime
  se_statsReported :: gotime

datatype MetricCall =
    SetIndexEntries string int
  | AddTenantEvictions string string int
  | AddIndexEvictions string string int

text \<open>The lexicographic order on prefix keys that completes the eviction comparators.\<close>

instantiation prefixKey :: linorder
begin

definition less_prefixKey :: "prefixKey \<Rightarrow> prefixKey \<Rightarrow> bool" where
  "less_prefixKey x y \<longleftrightarrow>
     (if pk_tenant x \<noteq> pk_tenant y then pk_tenant x < pk_tenant y
      else if pk_model x \<noteq> pk_model y then pk_model x < pk_model y
      else if pk_hashScheme x \<noteq> pk_hashScheme y then pk_hashScheme x < pk_hashScheme y
      else if pk_adapter x \<noteq> pk_adapter y then pk_adapter x < pk_adapter y
      else pk_prefixHash x < pk_prefixHash y)"

definition less_eq_prefixKey :: "prefixKey \<Rightarrow> prefixKey \<Rightarrow> bool" where
  "less_eq_prefixKey x y \<longleftrightarrow> x < y \<or> x = y"

instance
  by standard
    (auto simp: less_prefixKey_def less_eq_prefixKey_def prefixKey.expand split: if_splits
      intro: prefixKey.expand)

end

subsection \<open>The index\<close>

record Index =
  ttl :: duration
  sweepInterval :: duration
  maxEntries :: int
  ranker :: RankerConfig
  ttlResolver :: "(string \<Rightarrow> duration) option"
  quotaResolver :: "(string \<Rightarrow> int option) option"
  evictionResolver :: "(string \<Rightarrow> string) option"
  reservedTenants :: "string list"
  ready :: bool
  prefixes :: "(prefixKey, (string, replicaEntry) gomap) gomap"
  stats :: "(statsKey, statEntry) gomap"
  totalEntries :: int
  reservedEntries :: int
  prefixesByTenant :: "(string, int) gomap"
  prefixesByTenantModel :: "(modelKey, int) gomap"
  servingByScope :: "(scopeKey, (string, int) gomap) gomap"
  replicasByModel :: "(modelKey, (string, unit) gomap) gomap"
  reportedModels :: "(string, unit) gomap"
  metrics :: "MetricCall list option"
  nextEntry :: nat

definition DefaultTTL :: duration where "DefaultTTL = 30 * 60 * 10 ^ 9"
definition DefaultSweepInterval :: duration where "DefaultSweepInterval = 60 * 10 ^ 9"
definition DefaultMaxEntries :: int where "DefaultMaxEntries = 1000000"

subsection \<open>Options and the constructor\<close>

type_synonym Option = "Index \<Rightarrow> Index"

definition WithTTL :: "duration \<Rightarrow> Option" where
  "WithTTL d i = i\<lparr>ttl := d\<rparr>"

definition WithSweepInterval :: "duration \<Rightarrow> Option" where
  "WithSweepInterval d i = i\<lparr>sweepInterval := d\<rparr>"

definition WithMaxEntries :: "int \<Rightarrow> Option" where
  "WithMaxEntries n i = i\<lparr>maxEntries := n\<rparr>"

definition WithMetrics :: Option where
  "WithMetrics i = i\<lparr>metrics := Some []\<rparr>"

definition WithRanker :: "RankerConfig \<Rightarrow> Option" where
  "WithRanker cfg i = i\<lparr>ranker := cfg\<rparr>"

definition WithTTLResolver :: "(string \<Rightarrow> duration) \<Rightarrow> Option" where
  "WithTTLResolver r i = i\<lparr>ttlResolver := Some r\<rparr>"

definition WithTenantQuotaResolver :: "(string \<Rightarrow> int option) \<Rightarrow> Option" where
  "WithTenantQuotaResolver r i = i\<lparr>quotaResolver := Some r\<rparr>"

definition WithEvictionResolver :: "(string \<Rightarrow> string) \<Rightarrow> Option" where
  "WithEvictionResolver r i = i\<lparr>evictionResolver := Some r\<rparr>"

fun addReserved :: "string list \<Rightarrow> string list \<Rightarrow> string list" where
  "addReserved res [] = res"
| "addReserved res (t # ts) = addReserved (if t = '''' then res else List.insert t res) ts"

definition WithReservedTenants :: "string list \<Rightarrow> Option" where
  "WithReservedTenants tenants i = i\<lparr>reservedTenants := addReserved (reservedTenants i) tenants\<rparr>"

definition emptyIndex :: Index where
  "emptyIndex =
     \<lparr>ttl = DefaultTTL, sweepInterval = DefaultSweepInterval, maxEntries = DefaultMaxEntries,
      ranker = DefaultRankerConfig, ttlResolver = None, quotaResolver = None,
      evictionResolver = None, reservedTenants = [], ready = False, prefixes = [], stats = [],
      totalEntries = 0, reservedEntries = 0, prefixesByTenant = [], prefixesByTenantModel = [],
      servingByScope = [], replicasByModel = [], reportedModels = [], metrics = None,
      nextEntry = 0\<rparr>"

text \<open>\<open>New\<close>: defaults, the options in order, then the clamps.\<close>

definition New :: "Option list \<Rightarrow> Index" where
  "New opts =
     (let i = fold (\<lambda>opt i. opt i) opts emptyIndex;
          i = (if ttl i \<le> 0 then i\<lparr>ttl := DefaultTTL\<rparr> else i)
      in if sweepInterval i \<le> 0 then i\<lparr>sweepInterval := DefaultSweepInterval\<rparr> else i)"

definition scopeOf :: "prefixKey \<Rightarrow> scopeKey" where
  "scopeOf k = ScopeKey (pk_tenant k) (pk_model k) (pk_hashScheme k)"

definition modelOf :: "prefixKey \<Rightarrow> modelKey" where
  "modelOf k = ModelKey (pk_tenant k) (pk_model k)"

subsection \<open>Tiers\<close>

text \<open>
  On the tiers the index stores (known and positive) the fold is the maximum, so the tier of
  a run is the coldest of its blocks whatever order the blocks are met in.
\<close>

lemma worstTier_pos: "0 < a \<Longrightarrow> 0 < b \<Longrightarrow> worstTier a b = max a b"
  by (simp add: worstTier_def)

lemma worstTier_unspecified: "worstTier a b = TierUnspecified \<longleftrightarrow> a = TierUnspecified \<or> b = TierUnspecified"
  by (auto simp: worstTier_def)

lemma worstTier_commute: "worstTier a b = worstTier b a"
  by (auto simp: worstTier_def)

lemma worstTier_assoc: "worstTier (worstTier a b) c = worstTier a (worstTier b c)"
  by (auto simp: worstTier_def)

end
