(* ===== verification/Accounting.thy ===== *)
theory Accounting
  imports Index_Types
begin

text \<open>
  \<open>internal/index/accounting.go\<close>: inserting and removing one (prefix, replica) entry, with the
  counters kept in lockstep, the serving and stats scopes, and the per-model gauge report.

  The counters are instances of one interface, \<open>counter_map\<close>: a map represents a function
  into the natural numbers and \<open>inc\<close>/\<open>dec\<close> move one value by one. Its two providers are the
  flat counters (distinct prefixes per tenant and per model) and the two-level serving count.
  \<open>idx_inv\<close> says what every counter counts; inserting, refreshing and removing an entry
  keep it.
\<close>

subsection \<open>Counters\<close>

text \<open>\<open>m[k]++\<close>, and the decrement that deletes the key when it reaches zero.\<close>

definition ctr_inc :: "'k \<Rightarrow> ('k, int) gomap \<Rightarrow> ('k, int) gomap" where
  "ctr_inc k m = AList.update k (gm_int m k + 1) m"

definition ctr_dec :: "'k \<Rightarrow> ('k, int) gomap \<Rightarrow> ('k, int) gomap" where
  "ctr_dec k m =
     (let n = gm_int m k - 1 in if n \<le> 0 then AList.delete k m else AList.update k n m)"

definition srv_inc ::
  "scopeKey \<times> string \<Rightarrow> (scopeKey, (string, int) gomap) gomap \<Rightarrow> (scopeKey, (string, int) gomap) gomap"
  where
  "srv_inc sr s =
     (case sr of (scope, replicaID) \<Rightarrow>
        AList.update scope (ctr_inc replicaID (gm_map s scope)) s)"

definition srv_dec ::
  "scopeKey \<times> string \<Rightarrow> (scopeKey, (string, int) gomap) gomap \<Rightarrow> (scopeKey, (string, int) gomap) gomap"
  where
  "srv_dec sr s =
     (case sr of (scope, replicaID) \<Rightarrow>
        (case map_of s scope of
           None \<Rightarrow> s
         | Some m \<Rightarrow>
             (let n = gm_int m replicaID - 1
              in if n \<le> 0
                 then (let m' = AList.delete replicaID m
                       in if m' = [] then AList.delete scope s else AList.update scope m' s)
                 else AList.update scope (AList.update replicaID n m) s)))"

definition scopeIncLocked :: "Index \<Rightarrow> scopeKey \<Rightarrow> string \<Rightarrow> Index" where
  "scopeIncLocked i scope replicaID =
     i\<lparr>servingByScope := srv_inc (scope, replicaID) (servingByScope i)\<rparr>"

definition scopeDecLocked :: "Index \<Rightarrow> scopeKey \<Rightarrow> string \<Rightarrow> Index" where
  "scopeDecLocked i scope replicaID =
     i\<lparr>servingByScope := srv_dec (scope, replicaID) (servingByScope i)\<rparr>"

definition statsScopeAddLocked :: "Index \<Rightarrow> modelKey \<Rightarrow> string \<Rightarrow> Index" where
  "statsScopeAddLocked i mk replicaID =
     i\<lparr>replicasByModel :=
         AList.update mk (AList.update replicaID () (gm_map (replicasByModel i) mk))
           (replicasByModel i)\<rparr>"

definition statsScopeRemoveLocked :: "Index \<Rightarrow> modelKey \<Rightarrow> string \<Rightarrow> Index" where
  "statsScopeRemoveLocked i mk replicaID =
     (case map_of (replicasByModel i) mk of
        None \<Rightarrow> i
      | Some m \<Rightarrow>
          (let m' = AList.delete replicaID m
           in if m' = [] then i\<lparr>replicasByModel := AList.delete mk (replicasByModel i)\<rparr>
              else i\<lparr>replicasByModel := AList.update mk m' (replicasByModel i)\<rparr>))"

subsection \<open>Entries\<close>

definition isReservedTenant :: "Index \<Rightarrow> string \<Rightarrow> bool" where
  "isReservedTenant i tenant \<longleftrightarrow> tenant \<in> set (reservedTenants i)"

definition upsertReplicaLocked ::
  "Index \<Rightarrow> prefixKey \<Rightarrow> string \<Rightarrow> int \<Rightarrow> CacheTier \<Rightarrow> gotime \<Rightarrow> Index" where
  "upsertReplicaLocked i key replicaID tokenCount tier ts =
     (let i = (if map_of (prefixes i) key = None
               then i\<lparr>prefixes := AList.update key [] (prefixes i),
                      prefixesByTenant := ctr_inc (pk_tenant key) (prefixesByTenant i),
                      prefixesByTenantModel :=
                        ctr_inc (ModelKey (pk_tenant key) (pk_model key)) (prefixesByTenantModel i)\<rparr>
               else i);
          replicas = gm_map (prefixes i) key
      in case map_of replicas replicaID of
           None \<Rightarrow>
             (let e = \<lparr>re_id = nextEntry i, re_tokenCount = tokenCount, re_lastSeen = ts,
                       re_tier = tier, re_accessCount = 0\<rparr>;
                  i = i\<lparr>prefixes := AList.update key (AList.update replicaID e replicas) (prefixes i),
                        nextEntry := Suc (nextEntry i),
                        totalEntries := totalEntries i + 1,
                        reservedEntries :=
                          (if isReservedTenant i (pk_tenant key) then reservedEntries i + 1
                           else reservedEntries i)\<rparr>
              in scopeIncLocked i (ScopeKey (pk_tenant key) (pk_model key) (pk_hashScheme key)) replicaID)
         | Some e \<Rightarrow>
             i\<lparr>prefixes :=
                 AList.update key
                   (AList.update replicaID
                      (e\<lparr>re_tokenCount := tokenCount, re_lastSeen := ts, re_tier := tier\<rparr>) replicas)
                   (prefixes i)\<rparr>)"

text \<open>
  The caller always passes \<open>i.prefixes[key]\<close> as the \<open>replicas\<close> argument, a reference to the
  inner map; the model reads it from the index.
\<close>

definition removeReplicaLocked :: "Index \<Rightarrow> prefixKey \<Rightarrow> string \<Rightarrow> Index" where
  "removeReplicaLocked i key replicaID =
     (let replicas = gm_map (prefixes i) key
      in if map_of replicas replicaID = None then i
         else
           (let replicas = AList.delete replicaID replicas;
                i = i\<lparr>prefixes := AList.update key replicas (prefixes i),
                      totalEntries := totalEntries i - 1,
                      reservedEntries :=
                        (if isReservedTenant i (pk_tenant key) then reservedEntries i - 1
                         else reservedEntries i)\<rparr>;
                i = (if replicas = []
                     then i\<lparr>prefixes := AList.delete key (prefixes i),
                            prefixesByTenant := ctr_dec (pk_tenant key) (prefixesByTenant i),
                            prefixesByTenantModel :=
                              ctr_dec (ModelKey (pk_tenant key) (pk_model key))
                                (prefixesByTenantModel i)\<rparr>
                     else i)
            in scopeDecLocked i (ScopeKey (pk_tenant key) (pk_model key) (pk_hashScheme key)) replicaID))"

subsection \<open>The gauge report\<close>

definition EntryCountsByModel :: "Index \<Rightarrow> (string, int) gomap" where
  "EntryCountsByModel i =
     fold (\<lambda>(key, _) counts.
             if isReservedTenant i (pk_tenant key) then counts else ctr_inc (pk_model key) counts)
       (prefixes i) []"

definition reportEntries :: "Index \<Rightarrow> Index" where
  "reportEntries i =
     (case metrics i of
        None \<Rightarrow> i
      | Some calls \<Rightarrow>
          (let counts = EntryCountsByModel i;
               drained = filter (\<lambda>(model, _). map_of counts model = None) (reportedModels i);
               kept = filter (\<lambda>(model, _). map_of counts model \<noteq> None) (reportedModels i)
           in i\<lparr>metrics := Some (calls @ map (\<lambda>(model, _). SetIndexEntries model 0) drained
                                 @ map (\<lambda>(model, n). SetIndexEntries model n) counts),
                reportedModels := fold (\<lambda>(model, _). AList.update model ()) counts kept\<rparr>))"

definition sanitizeRate :: "flt \<Rightarrow> flt" where
  "sanitizeRate f = (if flt_finite f then f else Fin 0)"

subsection \<open>The counter interface\<close>

locale counter_map =
  fixes rep :: "'m \<Rightarrow> ('k \<Rightarrow> nat) \<Rightarrow> bool"
    and inc :: "'k \<Rightarrow> 'm \<Rightarrow> 'm" and dec :: "'k \<Rightarrow> 'm \<Rightarrow> 'm"
  assumes rep_inc: "rep m f \<Longrightarrow> rep (inc k m) (f(k := f k + 1))"
    and rep_dec: "rep m f \<Longrightarrow> 0 < f k \<Longrightarrow> rep (dec k m) (f(k := f k - 1))"
begin

lemma rep_inc_eq:
  assumes "rep m f" and "\<And>k. g k = f k + of_bool (k = k0)"
  shows "rep (inc k0 m) g"
proof -
  have "g = f(k0 := f k0 + 1)" using assms(2) by auto
  with rep_inc [OF assms(1)] show ?thesis by simp
qed

lemma rep_dec_eq:
  assumes "rep m f" and "\<And>k. f k = g k + of_bool (k = k0)"
  shows "rep (dec k0 m) g"
proof -
  have "g = f(k0 := f k0 - 1)" and "0 < f k0" using assms(2) by auto
  with rep_dec [OF assms(1)] show ?thesis by simp
qed

lemma rep_fold_inc: "rep m f \<Longrightarrow> rep (fold inc ks m) (\<lambda>k. f k + count_list ks k)"
proof (induction ks arbitrary: m f)
  case (Cons k ks)
  have "rep (fold inc ks (inc k m)) (\<lambda>k'. (f(k := f k + 1)) k' + count_list ks k')"
    by (rule Cons.IH [OF rep_inc [OF Cons.prems]])
  moreover have "(\<lambda>k'. (f(k := f k + 1)) k' + count_list ks k') = (\<lambda>k'. f k' + count_list (k # ks) k')"
    by auto
  ultimately show ?case by simp
qed simp

end

text \<open>A flat counter holds exactly the keys whose count is positive.\<close>

definition tracks :: "('k, int) gomap \<Rightarrow> ('k \<Rightarrow> nat) \<Rightarrow> bool" where
  "tracks m f \<longleftrightarrow> gm_wf m \<and> (\<forall>k. map_of m k = (if f k = 0 then None else Some (int (f k))))"

lemma tracks_gm_int: "tracks m f \<Longrightarrow> gm_int m k = int (f k)"
  by (simp add: tracks_def gm_int_def)

lemma tracks_mem: "tracks m f \<Longrightarrow> k \<in> fst ` set m \<longleftrightarrow> 0 < f k"
  by (metis map_of_eq_None_iff neq0_conv option.distinct(1) tracks_def)

lemma tracks_Nil_iff: "tracks m f \<Longrightarrow> m = [] \<longleftrightarrow> (\<forall>k. f k = 0)"
  by (metis image_is_empty set_empty tracks_mem neq0_conv equals0I empty_iff)

interpretation flat: counter_map tracks ctr_inc ctr_dec
proof
  show "tracks (ctr_inc k m) (f(k := f k + 1))" if "tracks m f" for m and f :: "'a \<Rightarrow> nat" and k
    using that tracks_gm_int [OF that, of k] by (auto simp: tracks_def ctr_inc_def gomap_simps)
  show "tracks (ctr_dec k m) (f(k := f k - 1))" if "tracks m f" "0 < f k" for m and f :: "'a \<Rightarrow> nat" and k
    using that tracks_gm_int [OF that(1), of k]
    by (auto simp: tracks_def ctr_dec_def gomap_simps Let_def)
qed

text \<open>The serving count is a flat counter per scope, with no empty inner map.\<close>

definition serves :: "(scopeKey, (string, int) gomap) gomap \<Rightarrow> (scopeKey \<times> string \<Rightarrow> nat) \<Rightarrow> bool" where
  "serves s f \<longleftrightarrow>
     gm_wf s \<and> (\<forall>scope. map_of s scope \<noteq> Some []) \<and>
     (\<forall>scope. tracks (gm_map s scope) (\<lambda>r. f (scope, r)))"

lemma serves_tracks: "serves s f \<Longrightarrow> tracks (gm_map s scope) (\<lambda>r. f (scope, r))"
  by (simp add: serves_def)

lemma serves_Some: "serves s f \<Longrightarrow> map_of s scope = Some m \<longleftrightarrow> m = gm_map s scope \<and> m \<noteq> []"
  by (auto simp: serves_def gm_map_def split: option.splits)

interpretation serving: counter_map serves srv_inc srv_dec
proof
  fix s and f :: "scopeKey \<times> string \<Rightarrow> nat" and k :: "scopeKey \<times> string"
  assume s: "serves s f"
  obtain scope r where k: "k = (scope, r)" by (cases k)
  have t: "tracks (ctr_inc r (gm_map s scope)) (\<lambda>r'. (f(k := f k + 1)) (scope, r'))"
    by (rule flat.rep_inc_eq [OF serves_tracks [OF s]]) (auto simp: k)
  have "ctr_inc r (gm_map s scope) \<noteq> []"
    using tracks_mem [OF t, of r] by (auto simp: k)
  with s t show "serves (srv_inc k s) (f(k := f k + 1))"
    by (auto simp: serves_def srv_inc_def k gomap_simps)
next
  fix s and f :: "scopeKey \<times> string \<Rightarrow> nat" and k :: "scopeKey \<times> string"
  assume s: "serves s f" and pos: "0 < f k"
  obtain scope r where k: "k = (scope, r)" by (cases k)
  let ?m = "gm_map s scope"
  have tr: "tracks ?m (\<lambda>r. f (scope, r))" by (rule serves_tracks [OF s])
  have "?m \<noteq> []" using tracks_mem [OF tr, of r] pos by (auto simp: k)
  then have m: "map_of s scope = Some ?m" using serves_Some [OF s] by simp
  have t: "tracks (ctr_dec r ?m) (\<lambda>r'. (f(k := f k - 1)) (scope, r'))"
    by (rule flat.rep_dec_eq [OF tr]) (use pos in \<open>auto simp: k\<close>)
  have eq: "srv_dec k s = (if ctr_dec r ?m = [] then AList.delete scope s
                           else AList.update scope (ctr_dec r ?m) s)"
    by (auto simp: srv_dec_def k m ctr_dec_def Let_def)
  show "serves (srv_dec k s) (f(k := f k - 1))"
  proof (cases "ctr_dec r ?m = []")
    case True
    with t have "tracks [] (\<lambda>r'. (f(k := f k - 1)) (scope, r'))" by simp
    with s True show ?thesis unfolding eq by (auto simp: serves_def k gomap_simps)
  next
    case False
    with s t show ?thesis unfolding eq by (auto simp: serves_def k gomap_simps)
  qed
qed

subsection \<open>What the counters count\<close>

definition w_total :: "prefixKey \<Rightarrow> (string, replicaEntry) gomap \<Rightarrow> nat" where
  "w_total k rs = length rs"

definition w_reserved :: "Index \<Rightarrow> prefixKey \<Rightarrow> (string, replicaEntry) gomap \<Rightarrow> nat" where
  "w_reserved i k rs = (if isReservedTenant i (pk_tenant k) then length rs else 0)"

definition w_tenant :: "string \<Rightarrow> prefixKey \<Rightarrow> (string, replicaEntry) gomap \<Rightarrow> nat" where
  "w_tenant t k rs = of_bool (pk_tenant k = t)"

definition w_model :: "modelKey \<Rightarrow> prefixKey \<Rightarrow> (string, replicaEntry) gomap \<Rightarrow> nat" where
  "w_model mk k rs = of_bool (modelOf k = mk)"

definition w_serve :: "scopeKey \<times> string \<Rightarrow> prefixKey \<Rightarrow> (string, replicaEntry) gomap \<Rightarrow> nat" where
  "w_serve sr k rs = of_bool (scopeOf k = fst sr \<and> snd sr \<in> fst ` set rs)"

definition w_entry :: "nat \<Rightarrow> prefixKey \<Rightarrow> (string, replicaEntry) gomap \<Rightarrow> nat" where
  "w_entry n k rs = wsum (\<lambda>r e. of_bool (re_id e = n)) rs"

lemmas weight_defs = w_total_def w_reserved_def w_tenant_def w_model_def w_serve_def

text \<open>
  The accounting invariant: no key twice and no prefix without a holder; the totals count
  replica entries; the tenant and model counters count distinct prefix keys; the serving count
  of (scope, replica) is the number of prefixes of the scope the replica holds; and entry
  identities are unique and below the allocation counter.
\<close>

definition prefix_inv :: "Index \<Rightarrow> bool" where
  "prefix_inv i \<longleftrightarrow>
     gm_wf (prefixes i) \<and>
     (\<forall>(k, rs) \<in> set (prefixes i). gm_wf rs \<and> rs \<noteq> []) \<and>
     totalEntries i = int (wsum w_total (prefixes i)) \<and>
     reservedEntries i = int (wsum (w_reserved i) (prefixes i)) \<and>
     tracks (prefixesByTenant i) (\<lambda>t. wsum (w_tenant t) (prefixes i)) \<and>
     tracks (prefixesByTenantModel i) (\<lambda>mk. wsum (w_model mk) (prefixes i)) \<and>
     serves (servingByScope i) (\<lambda>sr. wsum (w_serve sr) (prefixes i)) \<and>
     (\<forall>n. wsum (w_entry n) (prefixes i) \<le> of_bool (n < nextEntry i))"

text \<open>The stats scope of a (tenant, model) is the set of replicas with stats there.\<close>

definition stats_inv :: "Index \<Rightarrow> bool" where
  "stats_inv i \<longleftrightarrow>
     gm_wf (stats i) \<and> gm_wf (replicasByModel i) \<and>
     (\<forall>mk. map_of (replicasByModel i) mk \<noteq> Some []) \<and>
     (\<forall>mk. gm_wf (gm_map (replicasByModel i) mk)) \<and>
     (\<forall>t m r. r \<in> fst ` set (gm_map (replicasByModel i) (ModelKey t m)) \<longleftrightarrow>
        map_of (stats i) (StatsKey t m r) \<noteq> None)"

definition idx_inv :: "Index \<Rightarrow> bool" where
  "idx_inv i \<longleftrightarrow> prefix_inv i \<and> stats_inv i"

subsection \<open>Effect of an insertion\<close>

lemma update_twice: "AList.update k v (AList.update k w m) = AList.update k v m"
  by (induction m) auto

lemma delete_update_same: "AList.delete k (AList.update k v m) = AList.delete k m"
  by (induction m) auto

definition upserted ::
  "Index \<Rightarrow> prefixKey \<Rightarrow> string \<Rightarrow> int \<Rightarrow> CacheTier \<Rightarrow> gotime \<Rightarrow> replicaEntry" where
  "upserted i key replicaID tokenCount tier ts =
     (case map_of (gm_map (prefixes i) key) replicaID of
        None \<Rightarrow> \<lparr>re_id = nextEntry i, re_tokenCount = tokenCount, re_lastSeen = ts,
                 re_tier = tier, re_accessCount = 0\<rparr>
      | Some e \<Rightarrow> e\<lparr>re_tokenCount := tokenCount, re_lastSeen := ts, re_tier := tier\<rparr>)"

abbreviation held :: "Index \<Rightarrow> prefixKey \<Rightarrow> string \<Rightarrow> replicaEntry option" where
  "held i key replicaID \<equiv> map_of (gm_map (prefixes i) key) replicaID"

text \<open>A new (prefix, replica) entry, a new prefix key.\<close>

abbreviation fresh_entry :: "Index \<Rightarrow> prefixKey \<Rightarrow> string \<Rightarrow> bool" where
  "fresh_entry i key replicaID \<equiv> held i key replicaID = None"

abbreviation fresh_key :: "Index \<Rightarrow> prefixKey \<Rightarrow> bool" where
  "fresh_key i key \<equiv> map_of (prefixes i) key = None"

lemma upsert_prefixes:
  "prefixes (upsertReplicaLocked i key r c t ts) =
     AList.update key (AList.update r (upserted i key r c t ts) (gm_map (prefixes i) key)) (prefixes i)"
  by (auto simp: upsertReplicaLocked_def upserted_def Let_def scopeIncLocked_def gomap_simps
      gm_map_def update_twice split: option.splits)

lemma upsert_counters:
  "totalEntries (upsertReplicaLocked i key r c t ts) =
     totalEntries i + of_bool (fresh_entry i key r)"
  "reservedEntries (upsertReplicaLocked i key r c t ts) =
     reservedEntries i + of_bool (fresh_entry i key r \<and> isReservedTenant i (pk_tenant key))"
  "prefixesByTenant (upsertReplicaLocked i key r c t ts) =
     (if fresh_key i key then ctr_inc (pk_tenant key) (prefixesByTenant i) else prefixesByTenant i)"
  "prefixesByTenantModel (upsertReplicaLocked i key r c t ts) =
     (if fresh_key i key then ctr_inc (modelOf key) (prefixesByTenantModel i)
      else prefixesByTenantModel i)"
  "servingByScope (upsertReplicaLocked i key r c t ts) =
     (if fresh_entry i key r then srv_inc (scopeOf key, r) (servingByScope i) else servingByScope i)"
  "nextEntry (upsertReplicaLocked i key r c t ts) = nextEntry i + of_bool (fresh_entry i key r)"
  by (auto simp: upsertReplicaLocked_def Let_def scopeIncLocked_def gomap_simps gm_map_def
      isReservedTenant_def modelOf_def scopeOf_def split: option.splits)

lemma upsert_frame [simp]:
  "stats (upsertReplicaLocked i key r c t ts) = stats i"
  "replicasByModel (upsertReplicaLocked i key r c t ts) = replicasByModel i"
  "reservedTenants (upsertReplicaLocked i key r c t ts) = reservedTenants i"
  "maxEntries (upsertReplicaLocked i key r c t ts) = maxEntries i"
  "ttl (upsertReplicaLocked i key r c t ts) = ttl i"
  "ranker (upsertReplicaLocked i key r c t ts) = ranker i"
  "ttlResolver (upsertReplicaLocked i key r c t ts) = ttlResolver i"
  "quotaResolver (upsertReplicaLocked i key r c t ts) = quotaResolver i"
  "evictionResolver (upsertReplicaLocked i key r c t ts) = evictionResolver i"
  "metrics (upsertReplicaLocked i key r c t ts) = metrics i"
  "reportedModels (upsertReplicaLocked i key r c t ts) = reportedModels i"
  by (auto simp: upsertReplicaLocked_def Let_def scopeIncLocked_def split: option.splits)

lemma held_upsert:
  "held (upsertReplicaLocked i key r c t ts) k r' =
     (if k = key \<and> r' = r then Some (upserted i key r c t ts) else held i k r')"
  by (simp add: upsert_prefixes gomap_simps)

subsection \<open>Insertion keeps the invariant\<close>

lemma prefix_inv_wf: "prefix_inv i \<Longrightarrow> gm_wf (prefixes i)"
  by (simp add: prefix_inv_def)

lemma prefix_inv_inner: "prefix_inv i \<Longrightarrow> gm_wf (gm_map (prefixes i) key)"
  by (auto simp: prefix_inv_def gm_map_def dest!: map_of_SomeD split: option.splits)

lemma prefix_inv_inner_ne: "prefix_inv i \<Longrightarrow> map_of (prefixes i) key = Some rs \<Longrightarrow> rs \<noteq> []"
  by (auto simp: prefix_inv_def dest!: map_of_SomeD)

lemma length_update: "length (AList.update k v m) = length m + of_bool (map_of m k = None)"
  by (induction m) auto

lemma keys_update: "fst ` set (AList.update k v m) = insert k (fst ` set m)"
  by (induction m) auto

lemma mem_keys: "k \<in> fst ` set m \<longleftrightarrow> map_of m k \<noteq> None"
  by (simp add: map_of_eq_None_iff)

lemma wat_prefixes:
  "wat w (prefixes i) key = (if fresh_key i key then 0 else w key (gm_map (prefixes i) key))"
  by (simp add: wat_def gm_map_def split: option.splits)

lemma wsum_upsert:
  assumes "prefix_inv i"
  shows "wsum w (prefixes (upsertReplicaLocked i key r c t ts))
           + (if fresh_key i key then 0 else w key (gm_map (prefixes i) key)) =
         wsum w (prefixes i) + w key (AList.update r (upserted i key r c t ts) (gm_map (prefixes i) key))"
  using wsum_update [OF prefix_inv_wf [OF assms]]
  unfolding upsert_prefixes by (simp only: wat_prefixes)

lemma fresh_key_Nil: "fresh_key i key \<Longrightarrow> gm_map (prefixes i) key = []"
  by (simp add: gm_map_def)

lemma held_key: "held i key r = Some e \<Longrightarrow> \<not> fresh_key i key"
  by (cases "map_of (prefixes i) key") (auto simp: gm_map_def)

lemma upsert_sums:
  fixes key :: prefixKey and r :: string and c :: int and t :: CacheTier and ts :: gotime
  assumes "prefix_inv i"
  defines "P' \<equiv> prefixes (upsertReplicaLocked i key r c t ts)"
  shows "wsum w_total P' = wsum w_total (prefixes i) + of_bool (fresh_entry i key r)"
    and "wsum (w_reserved i) P' =
           wsum (w_reserved i) (prefixes i) + of_bool (fresh_entry i key r \<and> isReservedTenant i (pk_tenant key))"
    and "wsum (w_tenant x) P' = wsum (w_tenant x) (prefixes i) + of_bool (fresh_key i key \<and> x = pk_tenant key)"
    and "wsum (w_model mk) P' = wsum (w_model mk) (prefixes i) + of_bool (fresh_key i key \<and> mk = modelOf key)"
    and "wsum (w_serve sr) P' =
           wsum (w_serve sr) (prefixes i) + of_bool (fresh_entry i key r \<and> sr = (scopeOf key, r))"
    and "wsum (w_entry n) P' =
           wsum (w_entry n) (prefixes i) + of_bool (fresh_entry i key r \<and> n = nextEntry i)"
proof -
  note eq = wsum_upsert [OF assms(1), of _ key r c t ts, folded P'_def]
  note N = fresh_key_Nil [of i key]
  show "wsum w_total P' = wsum w_total (prefixes i) + of_bool (fresh_entry i key r)"
    using eq [of w_total] N by (auto simp: weight_defs length_update split: if_splits)
  show "wsum (w_reserved i) P' =
      wsum (w_reserved i) (prefixes i) + of_bool (fresh_entry i key r \<and> isReservedTenant i (pk_tenant key))"
    using eq [of "w_reserved i"] N by (auto simp: weight_defs length_update split: if_splits)
  show "wsum (w_tenant x) P' = wsum (w_tenant x) (prefixes i) + of_bool (fresh_key i key \<and> x = pk_tenant key)"
    using eq [of "w_tenant x"] by (auto simp: weight_defs split: if_splits)
  show "wsum (w_model mk) P' = wsum (w_model mk) (prefixes i) + of_bool (fresh_key i key \<and> mk = modelOf key)"
    using eq [of "w_model mk"] by (auto simp: weight_defs split: if_splits)
  show "wsum (w_serve sr) P' =
      wsum (w_serve sr) (prefixes i) + of_bool (fresh_entry i key r \<and> sr = (scopeOf key, r))"
    using eq [of "w_serve sr"] N
    by (cases sr; cases "snd sr = r") (auto simp: weight_defs keys_update mem_keys split: if_splits)
  let ?g = "\<lambda>(r::string) e. of_bool (re_id e = n) :: nat"
  have "wsum ?g (AList.update r (upserted i key r c t ts) (gm_map (prefixes i) key)) =
      wsum ?g (gm_map (prefixes i) key) + of_bool (fresh_entry i key r \<and> n = nextEntry i)"
    using wsum_update [OF prefix_inv_inner [OF assms(1)], of ?g r "upserted i key r c t ts" key]
    by (auto simp: upserted_def wat_def split: option.splits)
  then show "wsum (w_entry n) P' =
      wsum (w_entry n) (prefixes i) + of_bool (fresh_entry i key r \<and> n = nextEntry i)"
    using eq [of "w_entry n"] N by (auto simp: w_entry_def split: if_splits)
qed

lemma w_reserved_cong: "reservedTenants i = reservedTenants j \<Longrightarrow> w_reserved i = w_reserved j"
  by (simp add: fun_eq_iff w_reserved_def isReservedTenant_def)

lemma prefix_inv_upsert:
  assumes inv: "prefix_inv i"
  shows "prefix_inv (upsertReplicaLocked i key r c t ts)" (is "prefix_inv ?i'")
proof -
  note sums = upsert_sums [OF inv, where key = key and r = r and c = c and t = t and ts = ts]
  have res: "w_reserved ?i' = w_reserved i" by (rule w_reserved_cong) simp
  have "\<forall>(k, rs) \<in> set (prefixes ?i'). gm_wf rs \<and> rs \<noteq> []"
  proof clarify
    fix k rs
    assume "(k, rs) \<in> set (prefixes ?i')"
    then have "k = key \<and> rs = AList.update r (upserted i key r c t ts) (gm_map (prefixes i) key) \<or>
        (k, rs) \<in> set (prefixes i)"
      unfolding upsert_prefixes by (metis (no_types, opaque_lifting) inv map_of_gm_wf map_of_update prefix_inv_wf gm_wf_update fun_upd_apply option.inject)
    then show "gm_wf rs \<and> rs \<noteq> []"
      using inv prefix_inv_inner [OF inv, of key] by (auto simp: prefix_inv_def update_nonempty)
  qed
  moreover have "tracks (prefixesByTenant ?i') (\<lambda>x. wsum (w_tenant x) (prefixes ?i'))"
    using inv unfolding prefix_inv_def
    by (auto simp: upsert_counters sums intro!: flat.rep_inc_eq)
  moreover have "tracks (prefixesByTenantModel ?i') (\<lambda>mk. wsum (w_model mk) (prefixes ?i'))"
    using inv unfolding prefix_inv_def
    by (auto simp: upsert_counters sums intro!: flat.rep_inc_eq)
  moreover have "serves (servingByScope ?i') (\<lambda>sr. wsum (w_serve sr) (prefixes ?i'))"
    using inv unfolding prefix_inv_def
    by (auto simp: upsert_counters sums intro!: serving.rep_inc_eq)
  moreover have "wsum (w_entry n) (prefixes ?i') \<le> of_bool (n < nextEntry ?i')" for n
  proof -
    have "wsum (w_entry n) (prefixes i) \<le> of_bool (n < nextEntry i)"
      using inv by (simp add: prefix_inv_def)
    then show ?thesis by (auto simp: sums upsert_counters split: if_splits)
  qed
  moreover have "gm_wf (prefixes ?i')"
    using prefix_inv_wf [OF inv] by (simp add: upsert_prefixes)
  ultimately show ?thesis
    using inv unfolding prefix_inv_def res by (simp add: upsert_counters sums)
qed

subsection \<open>Effect of a removal\<close>

abbreviation last_holder :: "Index \<Rightarrow> prefixKey \<Rightarrow> string \<Rightarrow> bool" where
  "last_holder i key r \<equiv> AList.delete r (gm_map (prefixes i) key) = []"

lemma remove_absent: "fresh_entry i key r \<Longrightarrow> removeReplicaLocked i key r = i"
  by (simp add: removeReplicaLocked_def)

lemma remove_prefixes:
  "held i key r = Some e \<Longrightarrow>
     prefixes (removeReplicaLocked i key r) =
       (if last_holder i key r then AList.delete key (prefixes i)
        else AList.update key (AList.delete r (gm_map (prefixes i) key)) (prefixes i))"
  by (simp add: removeReplicaLocked_def Let_def scopeDecLocked_def delete_update_same)

lemma remove_counters:
  assumes "held i key r = Some e"
  shows "totalEntries (removeReplicaLocked i key r) = totalEntries i - 1"
    and "reservedEntries (removeReplicaLocked i key r) =
           reservedEntries i - of_bool (isReservedTenant i (pk_tenant key))"
    and "prefixesByTenant (removeReplicaLocked i key r) =
           (if last_holder i key r then ctr_dec (pk_tenant key) (prefixesByTenant i)
            else prefixesByTenant i)"
    and "prefixesByTenantModel (removeReplicaLocked i key r) =
           (if last_holder i key r then ctr_dec (modelOf key) (prefixesByTenantModel i)
            else prefixesByTenantModel i)"
    and "servingByScope (removeReplicaLocked i key r) = srv_dec (scopeOf key, r) (servingByScope i)"
  using assms
  by (auto simp: removeReplicaLocked_def Let_def scopeDecLocked_def isReservedTenant_def
      modelOf_def scopeOf_def)

lemma remove_frame [simp]:
  "stats (removeReplicaLocked i key r) = stats i"
  "replicasByModel (removeReplicaLocked i key r) = replicasByModel i"
  "reservedTenants (removeReplicaLocked i key r) = reservedTenants i"
  "maxEntries (removeReplicaLocked i key r) = maxEntries i"
  "nextEntry (removeReplicaLocked i key r) = nextEntry i"
  "ttl (removeReplicaLocked i key r) = ttl i"
  "ranker (removeReplicaLocked i key r) = ranker i"
  "ttlResolver (removeReplicaLocked i key r) = ttlResolver i"
  "quotaResolver (removeReplicaLocked i key r) = quotaResolver i"
  "evictionResolver (removeReplicaLocked i key r) = evictionResolver i"
  "metrics (removeReplicaLocked i key r) = metrics i"
  "reportedModels (removeReplicaLocked i key r) = reportedModels i"
  by (auto simp: removeReplicaLocked_def Let_def scopeDecLocked_def)

lemma held_remove:
  "held (removeReplicaLocked i key r) k r' =
     (if k = key \<and> r' = r then None else held i k r')"
proof (cases "held i key r")
  case None
  then show ?thesis by (simp add: remove_absent)
next
  case (Some e)
  have "held i key r' = None" if "last_holder i key r" "r' \<noteq> r"
  proof -
    have "map_of (AList.delete r (gm_map (prefixes i) key)) r' = None" using that by simp
    then show ?thesis using that(2) by (simp add: gomap_simps)
  qed
  then show ?thesis by (auto simp: remove_prefixes [OF Some] gomap_simps)
qed

lemma length_delete:
  "gm_wf m \<Longrightarrow> length (AList.delete k m) + of_bool (map_of m k \<noteq> None) = length m"
proof -
  assume "gm_wf m"
  moreover have "wsum (\<lambda>_ _. 1) n = length n" for n :: "('a, 'b) gomap" by (induction n) auto
  ultimately show ?thesis
    using wsum_delete [of m "\<lambda>_ _. 1" k] by (auto simp: wat_def split: option.splits)
qed

lemma keys_delete: "fst ` set (AList.delete k m) = fst ` set m - {k}"
  by (induction m) auto

lemma remove_sums:
  fixes key :: prefixKey and r :: string
  assumes inv: "prefix_inv i" and h: "held i key r = Some e"
  defines "P' \<equiv> prefixes (removeReplicaLocked i key r)"
  shows "wsum w_total (prefixes i) = wsum w_total P' + 1"
    and "wsum (w_reserved i) (prefixes i) =
           wsum (w_reserved i) P' + of_bool (isReservedTenant i (pk_tenant key))"
    and "wsum (w_tenant x) (prefixes i) =
           wsum (w_tenant x) P' + of_bool (last_holder i key r \<and> x = pk_tenant key)"
    and "wsum (w_model mk) (prefixes i) =
           wsum (w_model mk) P' + of_bool (last_holder i key r \<and> mk = modelOf key)"
    and "wsum (w_serve sr) (prefixes i) = wsum (w_serve sr) P' + of_bool (sr = (scopeOf key, r))"
    and "wsum (w_entry n) P' \<le> wsum (w_entry n) (prefixes i)"
proof -
  let ?rs = "gm_map (prefixes i) key" and ?rs' = "AList.delete r (gm_map (prefixes i) key)"
  have fk: "\<not> fresh_key i key" using h by (rule held_key)
  have wf: "gm_wf (prefixes i)" and wf': "gm_wf ?rs"
    using inv by (auto intro: prefix_inv_wf prefix_inv_inner)
  have eq: "wsum w P' + w key ?rs = wsum w (prefixes i) + (if ?rs' = [] then 0 else w key ?rs')" for w
    using wsum_delete [OF wf, of w key] wsum_update [OF wf, of w key ?rs'] fk
    by (simp add: P'_def remove_prefixes [OF h] wat_prefixes)
  have len: "length ?rs = length ?rs' + 1" using length_delete [OF wf', of r] h by simp
  show "wsum w_total (prefixes i) = wsum w_total P' + 1"
    using eq [of w_total] len by (auto simp: weight_defs split: if_splits)
  show "wsum (w_reserved i) (prefixes i) =
      wsum (w_reserved i) P' + of_bool (isReservedTenant i (pk_tenant key))"
    using eq [of "w_reserved i"] len by (auto simp: weight_defs split: if_splits)
  show "wsum (w_tenant x) (prefixes i) =
      wsum (w_tenant x) P' + of_bool (last_holder i key r \<and> x = pk_tenant key)"
    using eq [of "w_tenant x"] by (auto simp: weight_defs split: if_splits)
  show "wsum (w_model mk) (prefixes i) =
      wsum (w_model mk) P' + of_bool (last_holder i key r \<and> mk = modelOf key)"
    using eq [of "w_model mk"] by (auto simp: weight_defs split: if_splits)
  have keys: "fst ` set ?rs' = fst ` set ?rs - {r}" by (rule keys_delete)
  have rin: "r \<in> fst ` set ?rs" using h by (simp add: mem_keys)
  have emp: "?rs' = [] \<longleftrightarrow> fst ` set ?rs - {r} = {}" using keys by (metis image_is_empty set_empty)
  show "wsum (w_serve sr) (prefixes i) = wsum (w_serve sr) P' + of_bool (sr = (scopeOf key, r))"
  proof (cases "snd sr = r")
    case True
    then show ?thesis using eq [of "w_serve sr"] rin
      by (cases sr) (auto simp: weight_defs keys split: if_splits)
  next
    case False
    then have "?rs' = [] \<Longrightarrow> snd sr \<notin> fst ` set ?rs" using emp by blast
    with False show ?thesis using eq [of "w_serve sr"]
      by (cases sr) (auto simp: weight_defs keys split: if_splits)
  qed
  have "wsum (\<lambda>r e. of_bool (re_id e = n)) ?rs' \<le> wsum (\<lambda>r e. of_bool (re_id e = n) :: nat) ?rs"
    using wsum_delete [OF wf', of "\<lambda>r e. of_bool (re_id e = n)" r] by linarith
  then show "wsum (w_entry n) P' \<le> wsum (w_entry n) (prefixes i)"
    using eq [of "w_entry n"] by (simp add: w_entry_def split: if_splits)
qed

lemma prefix_inv_remove:
  assumes inv: "prefix_inv i"
  shows "prefix_inv (removeReplicaLocked i key r)" (is "prefix_inv ?i'")
proof (cases "held i key r")
  case None
  then show ?thesis using inv by (simp add: remove_absent)
next
  case (Some e)
  note sums = remove_sums [OF inv Some]
  have res: "w_reserved ?i' = w_reserved i" by (rule w_reserved_cong) simp
  have "\<forall>(k, rs) \<in> set (prefixes ?i'). gm_wf rs \<and> rs \<noteq> []"
  proof clarify
    fix k rs
    assume "(k, rs) \<in> set (prefixes ?i')"
    moreover have "gm_wf (prefixes ?i')"
      using prefix_inv_wf [OF inv] by (simp add: remove_prefixes [OF Some])
    ultimately have "map_of (prefixes ?i') k = Some rs" by (simp add: map_of_gm_wf)
    then have "k = key \<and> rs = AList.delete r (gm_map (prefixes i) key) \<and> rs \<noteq> [] \<or>
        (k, rs) \<in> set (prefixes i)"
      by (auto simp: remove_prefixes [OF Some] gomap_simps dest: map_of_SomeD split: if_splits)
    then show "gm_wf rs \<and> rs \<noteq> []"
      using inv prefix_inv_inner [OF inv, of key] by (auto simp: prefix_inv_def)
  qed
  moreover have "tracks (prefixesByTenant ?i') (\<lambda>x. wsum (w_tenant x) (prefixes ?i'))"
    using inv unfolding prefix_inv_def
    by (auto simp: remove_counters [OF Some] sums(3) intro!: flat.rep_dec_eq)
  moreover have "tracks (prefixesByTenantModel ?i') (\<lambda>mk. wsum (w_model mk) (prefixes ?i'))"
    using inv unfolding prefix_inv_def
    by (auto simp: remove_counters [OF Some] sums(4) intro!: flat.rep_dec_eq)
  moreover have "serves (servingByScope ?i') (\<lambda>sr. wsum (w_serve sr) (prefixes ?i'))"
    using inv unfolding prefix_inv_def
    by (auto simp: remove_counters [OF Some] sums(5) intro!: serving.rep_dec_eq)
  moreover have "wsum (w_entry n) (prefixes ?i') \<le> of_bool (n < nextEntry ?i')" for n
    using inv order_trans [OF sums(6)] by (simp add: prefix_inv_def)
  moreover have "gm_wf (prefixes ?i')"
    using prefix_inv_wf [OF inv] by (simp add: remove_prefixes [OF Some])
  moreover have "totalEntries i = int (wsum w_total (prefixes ?i')) + 1"
    and "reservedEntries i =
      int (wsum (w_reserved i) (prefixes ?i')) + of_bool (isReservedTenant i (pk_tenant key))"
    using inv sums(1,2) by (simp_all add: prefix_inv_def)
  ultimately show ?thesis
    unfolding prefix_inv_def res by (simp add: remove_counters [OF Some])
qed

subsection \<open>The stats scope\<close>

lemma stats_inv_put:
  assumes "stats_inv i"
  shows "stats_inv (statsScopeAddLocked (i\<lparr>stats := AList.update (StatsKey t m r) s (stats i)\<rparr>)
           (ModelKey t m) r)"
  using assms
  by (auto simp: stats_inv_def statsScopeAddLocked_def gomap_simps keys_update update_nonempty)

lemma stats_inv_del:
  assumes "stats_inv i"
  shows "stats_inv (statsScopeRemoveLocked (i\<lparr>stats := AList.delete (StatsKey t m r) (stats i)\<rparr>)
           (ModelKey t m) r)"
proof (cases "map_of (replicasByModel i) (ModelKey t m)")
  case None
  then have "gm_map (replicasByModel i) (ModelKey t m) = []" by (simp add: gm_map_def)
  then have "map_of (stats i) (StatsKey t m r') = None" for r'
    using assms unfolding stats_inv_def by (metis empty_iff empty_set image_empty)
  with None assms show ?thesis
    by (auto simp: stats_inv_def statsScopeRemoveLocked_def gomap_simps)
next
  case (Some rs)
  then have rs: "gm_map (replicasByModel i) (ModelKey t m) = rs" by (simp add: gm_map_def)
  show ?thesis
  proof (cases "AList.delete r rs = []")
    case True
    then have "fst ` set rs \<subseteq> {r}" using keys_delete [of r rs] by auto
    then have "map_of (stats i) (StatsKey t m r') = None" if "r' \<noteq> r" for r'
      using assms rs that unfolding stats_inv_def by (metis singletonD subsetD)
    with True Some assms show ?thesis
      by (auto simp: stats_inv_def statsScopeRemoveLocked_def gomap_simps Let_def)
  next
    case False
    have "gm_wf rs" using assms rs unfolding stats_inv_def by metis
    moreover have "r' \<in> fst ` set rs \<longleftrightarrow> map_of (stats i) (StatsKey t m r') \<noteq> None" for r'
      using assms rs unfolding stats_inv_def by metis
    ultimately show ?thesis using False Some assms
      by (auto simp: stats_inv_def statsScopeRemoveLocked_def gomap_simps Let_def keys_delete)
  qed
qed

lemma statsScope_frame [simp]:
  "stats (statsScopeAddLocked i mk r) = stats i"
  "stats (statsScopeRemoveLocked i mk r) = stats i"
  "prefixes (statsScopeAddLocked i mk r) = prefixes i"
  "prefixes (statsScopeRemoveLocked i mk r) = prefixes i"
  "maxEntries (statsScopeAddLocked i mk r) = maxEntries i"
  "maxEntries (statsScopeRemoveLocked i mk r) = maxEntries i"
  "totalEntries (statsScopeAddLocked i mk r) = totalEntries i"
  "totalEntries (statsScopeRemoveLocked i mk r) = totalEntries i"
  "reservedEntries (statsScopeAddLocked i mk r) = reservedEntries i"
  "reservedEntries (statsScopeRemoveLocked i mk r) = reservedEntries i"
  "reservedTenants (statsScopeAddLocked i mk r) = reservedTenants i"
  "reservedTenants (statsScopeRemoveLocked i mk r) = reservedTenants i"
  "prefixesByTenant (statsScopeAddLocked i mk r) = prefixesByTenant i"
  "prefixesByTenant (statsScopeRemoveLocked i mk r) = prefixesByTenant i"
  "prefixesByTenantModel (statsScopeAddLocked i mk r) = prefixesByTenantModel i"
  "prefixesByTenantModel (statsScopeRemoveLocked i mk r) = prefixesByTenantModel i"
  "servingByScope (statsScopeAddLocked i mk r) = servingByScope i"
  "servingByScope (statsScopeRemoveLocked i mk r) = servingByScope i"
  "nextEntry (statsScopeAddLocked i mk r) = nextEntry i"
  "nextEntry (statsScopeRemoveLocked i mk r) = nextEntry i"
  "metrics (statsScopeAddLocked i mk r) = metrics i"
  "metrics (statsScopeRemoveLocked i mk r) = metrics i"
  "reportedModels (statsScopeAddLocked i mk r) = reportedModels i"
  "reportedModels (statsScopeRemoveLocked i mk r) = reportedModels i"
  "ttl (statsScopeAddLocked i mk r) = ttl i"
  "ttl (statsScopeRemoveLocked i mk r) = ttl i"
  "ttlResolver (statsScopeAddLocked i mk r) = ttlResolver i"
  "ttlResolver (statsScopeRemoveLocked i mk r) = ttlResolver i"
  "evictionResolver (statsScopeAddLocked i mk r) = evictionResolver i"
  "evictionResolver (statsScopeRemoveLocked i mk r) = evictionResolver i"
  "quotaResolver (statsScopeAddLocked i mk r) = quotaResolver i"
  "quotaResolver (statsScopeRemoveLocked i mk r) = quotaResolver i"
  "ranker (statsScopeAddLocked i mk r) = ranker i"
  "ranker (statsScopeRemoveLocked i mk r) = ranker i"
  by (auto simp: statsScopeAddLocked_def statsScopeRemoveLocked_def Let_def split: option.splits)

text \<open>Each half of the invariant reads its own fields only.\<close>

lemma prefix_inv_cong:
  assumes "prefixes j = prefixes i" "totalEntries j = totalEntries i"
    "reservedEntries j = reservedEntries i" "reservedTenants j = reservedTenants i"
    "prefixesByTenant j = prefixesByTenant i" "prefixesByTenantModel j = prefixesByTenantModel i"
    "servingByScope j = servingByScope i" "nextEntry j = nextEntry i"
  shows "prefix_inv j = prefix_inv i"
  using assms w_reserved_cong [of j i] by (simp add: prefix_inv_def)

lemma stats_inv_cong:
  assumes "stats j = stats i" "replicasByModel j = replicasByModel i"
  shows "stats_inv j = stats_inv i"
  using assms by (simp add: stats_inv_def)

lemma idx_inv_upsert: "idx_inv i \<Longrightarrow> idx_inv (upsertReplicaLocked i key r c t ts)"
  using prefix_inv_upsert stats_inv_cong [of "upsertReplicaLocked i key r c t ts" i]
  by (simp add: idx_inv_def)

lemma idx_inv_remove: "idx_inv i \<Longrightarrow> idx_inv (removeReplicaLocked i key r)"
  using prefix_inv_remove stats_inv_cong [of "removeReplicaLocked i key r" i]
  by (simp add: idx_inv_def)

lemma idx_inv_stats_put:
  "idx_inv i \<Longrightarrow>
     idx_inv (statsScopeAddLocked (i\<lparr>stats := AList.update (StatsKey t m r) s (stats i)\<rparr>) (ModelKey t m) r)"
  unfolding idx_inv_def
  by (rule conjI [OF prefix_inv_cong [THEN iffD2, of _ i] stats_inv_put]) auto

lemma idx_inv_stats_del:
  "idx_inv i \<Longrightarrow>
     idx_inv (statsScopeRemoveLocked (i\<lparr>stats := AList.delete (StatsKey t m r) (stats i)\<rparr>) (ModelKey t m) r)"
  unfolding idx_inv_def
  by (rule conjI [OF prefix_inv_cong [THEN iffD2, of _ i] stats_inv_del]) auto

lemma tracks_Nil [simp]: "tracks [] (\<lambda>_. 0)"
  by (simp add: tracks_def)

lemma idx_inv_empty:
  "prefixes i = [] \<Longrightarrow> stats i = [] \<Longrightarrow> totalEntries i = 0 \<Longrightarrow> reservedEntries i = 0 \<Longrightarrow>
   prefixesByTenant i = [] \<Longrightarrow> prefixesByTenantModel i = [] \<Longrightarrow> servingByScope i = [] \<Longrightarrow>
   replicasByModel i = [] \<Longrightarrow> idx_inv i"
  by (simp add: idx_inv_def prefix_inv_def stats_inv_def serves_def)

subsection \<open>Reading the counters\<close>

lemma total_reserved_le: "prefix_inv i \<Longrightarrow> reservedEntries i \<le> totalEntries i"
proof -
  have "wsum (w_reserved i) P \<le> wsum w_total P" for P
    by (induction P) (auto simp: w_reserved_def w_total_def split: prod.splits intro: add_mono)
  then show "prefix_inv i \<Longrightarrow> ?thesis" by (simp add: prefix_inv_def)
qed

lemma wsum_of_bool_pos: "0 < wsum (\<lambda>k v. of_bool (Q k v)) m \<longleftrightarrow> (\<exists>(k, v) \<in> set m. Q k v)"
  by (induction m) auto

lemma tenant_count_pos:
  "prefix_inv i \<Longrightarrow> 0 < gm_int (prefixesByTenant i) t \<longleftrightarrow> (\<exists>k \<in> fst ` set (prefixes i). pk_tenant k = t)"
  using wsum_of_bool_pos [of "\<lambda>k _. pk_tenant k = t" "prefixes i"]
  by (force simp: prefix_inv_def tracks_gm_int w_tenant_def [abs_def])

lemma model_count_pos:
  "prefix_inv i \<Longrightarrow>
     0 < gm_int (prefixesByTenantModel i) mk \<longleftrightarrow> (\<exists>k \<in> fst ` set (prefixes i). modelOf k = mk)"
  using wsum_of_bool_pos [of "\<lambda>k _. modelOf k = mk" "prefixes i"]
  by (force simp: prefix_inv_def tracks_gm_int w_model_def [abs_def])

lemma held_iff: "held i k r \<noteq> None \<longleftrightarrow> (\<exists>rs. map_of (prefixes i) k = Some rs \<and> r \<in> fst ` set rs)"
  by (cases "map_of (prefixes i) k") (auto simp: gm_map_def mem_keys)

lemma serving_iff:
  assumes "prefix_inv i"
  shows "r \<in> fst ` set (gm_map (servingByScope i) s) \<longleftrightarrow>
           (\<exists>k. scopeOf k = s \<and> held i k r \<noteq> None)"
proof -
  have t: "tracks (gm_map (servingByScope i) s) (\<lambda>r. wsum (w_serve (s, r)) (prefixes i))"
    using assms serves_tracks unfolding prefix_inv_def by blast
  have "0 < wsum (w_serve (s, r)) (prefixes i) \<longleftrightarrow>
      (\<exists>(k, rs) \<in> set (prefixes i). scopeOf k = s \<and> r \<in> fst ` set rs)"
    using wsum_of_bool_pos [of "\<lambda>k rs. scopeOf k = s \<and> r \<in> fst ` set rs" "prefixes i"]
    by (simp add: w_serve_def [abs_def])
  also have "\<dots> \<longleftrightarrow> (\<exists>k. scopeOf k = s \<and> held i k r \<noteq> None)"
    unfolding held_iff using map_of_gm_wf [OF prefix_inv_wf [OF assms]] by fastforce
  finally show ?thesis using tracks_mem [OF t, of r] by simp
qed

lemma gm_wf_serving: "prefix_inv i \<Longrightarrow> gm_wf (gm_map (servingByScope i) s)"
  using serves_tracks unfolding prefix_inv_def tracks_def by blast

end
