(* ===== verification/Go_Text.thy ===== *)
theory Go_Text
  imports Go_Float
begin

text \<open>
  The text conversions of Go's \<open>strconv\<close> the control plane uses: \<open>ParseFloat(s, 32)\<close> with the
  whole grammar of the language's floating-point literals, and \<open>FormatFloat(f, 'f', -1, 32)\<close>, the
  shortest decimal that reads back as the same \<open>float32\<close>. The last section proves that it does.
\<close>

subsection \<open>Digits\<close>

definition digitChar :: "int \<Rightarrow> char" where
  "digitChar d = char_of (48 + d)"

definition charCode :: "char \<Rightarrow> int" where
  "charCode c = of_char c"

definition digitOf :: "bool \<Rightarrow> char \<Rightarrow> int option" where
  "digitOf hex c =
     (let n = charCode c
      in if 48 \<le> n \<and> n \<le> 57 then Some (n - 48)
         else if hex \<and> 97 \<le> n \<and> n \<le> 102 then Some (n - 87)
         else if hex \<and> 65 \<le> n \<and> n \<le> 70 then Some (n - 55)
         else None)"

text \<open>The lower case of an ASCII letter, as \<open>strconv\<close> and (on ASCII) \<open>strings.ToLower\<close> compute it.\<close>

definition lowerChar :: "char \<Rightarrow> char" where
  "lowerChar c = (let n = of_char c :: int in if 65 \<le> n \<and> n \<le> 90 then char_of (n + 32) else c)"

function showNat :: "int \<Rightarrow> string" where
  "showNat n = (if n < 10 then [digitChar n] else showNat (n div 10) @ [digitChar (n mod 10)])"
  by pat_completeness auto
termination by (relation "measure nat") auto

primrec showPad :: "nat \<Rightarrow> int \<Rightarrow> string" where
  "showPad 0 n = []"
| "showPad (Suc k) n = showPad k (n div 10) @ [digitChar (n mod 10)]"

definition pow10 :: "int \<Rightarrow> rat" where
  "pow10 e = (if 0 \<le> e then 10 ^ nat e else 1 / 10 ^ nat (- e))"

subsection \<open>ParseFloat\<close>

text \<open>The state of the mantissa loop of \<open>readFloat\<close>: dot, digits and underscores seen, the value, the digits after the dot.\<close>

record floatScan =
  fs_dot :: bool
  fs_digits :: bool
  fs_under :: bool
  fs_value :: int
  fs_frac :: nat

fun scanMant :: "bool \<Rightarrow> floatScan \<Rightarrow> string \<Rightarrow> floatScan \<times> string" where
  "scanMant hex st [] = (st, [])"
| "scanMant hex st (c # cs) =
     (if c = CHR ''_'' then scanMant hex (st\<lparr>fs_under := True\<rparr>) cs
      else if c = CHR ''.'' then
        (if fs_dot st then (st, c # cs) else scanMant hex (st\<lparr>fs_dot := True\<rparr>) cs)
      else
        (case digitOf hex c of
           None \<Rightarrow> (st, c # cs)
         | Some d \<Rightarrow>
             scanMant hex
               (st\<lparr>fs_digits := True, fs_value := fs_value st * (if hex then 16 else 10) + d,
                  fs_frac := fs_frac st + (if fs_dot st then 1 else 0)\<rparr>) cs))"

fun scanExp :: "int \<Rightarrow> bool \<Rightarrow> string \<Rightarrow> int \<times> bool \<times> string" where
  "scanExp e und [] = (e, und, [])"
| "scanExp e und (c # cs) =
     (if c = CHR ''_'' then scanExp e True cs
      else
        (case digitOf False c of
           None \<Rightarrow> (e, und, c # cs)
         | Some d \<Rightarrow> scanExp (if e < 10000 then e * 10 + d else e) und cs))"

text \<open>\<open>underscoreOK\<close>: underscores stand between digits, or between the base prefix and a digit.\<close>

fun underscoreScan :: "bool \<Rightarrow> char \<Rightarrow> string \<Rightarrow> bool" where
  "underscoreScan hex i [] \<longleftrightarrow> i \<noteq> CHR ''_''"
| "underscoreScan hex i (c # cs) \<longleftrightarrow>
     (if digitOf hex c \<noteq> None then underscoreScan hex (CHR ''0'') cs
      else if c = CHR ''_'' then i = CHR ''0'' \<and> underscoreScan hex (CHR ''_'') cs
      else i \<noteq> CHR ''_'' \<and> underscoreScan hex (CHR ''!'') cs)"

definition dropSign :: "string \<Rightarrow> string" where
  "dropSign s = (case s of [] \<Rightarrow> [] | c # cs \<Rightarrow> if c = CHR ''+'' \<or> c = CHR ''-'' then cs else s)"

definition underscoreOK :: "string \<Rightarrow> bool" where
  "underscoreOK s =
     (case dropSign s of
        z # x # cs \<Rightarrow>
          if z = CHR ''0'' \<and> lowerChar x \<in> {CHR ''b'', CHR ''o'', CHR ''x''}
          then underscoreScan (lowerChar x = CHR ''x'') (CHR ''0'') cs
          else underscoreScan False (CHR ''^'') (z # x # cs)
      | s' \<Rightarrow> underscoreScan False (CHR ''^'') s')"

text \<open>
  The optional exponent: its value, whether an underscore was seen, and the rest; \<open>None\<close> when it is
  malformed. A hexadecimal number must have one.
\<close>

definition readExp :: "bool \<Rightarrow> string \<Rightarrow> (int \<times> bool \<times> string) option" where
  "readExp hex s =
     (case s of
        c # cs \<Rightarrow>
          if lowerChar c = (if hex then CHR ''p'' else CHR ''e'')
          then
            (case dropSign cs of
               [] \<Rightarrow> None
             | d # ds \<Rightarrow>
                 if digitOf False d = None then None
                 else
                   (let (e, und, rest) = scanExp 0 False (d # ds)
                    in Some (if hd cs = CHR ''-'' then - e else e, und, rest)))
          else if hex then None else Some (0, False, s)
      | [] \<Rightarrow> if hex then None else Some (0, False, []))"

text \<open>\<open>readFloat\<close> on a whole string: the exact value, or \<open>None\<close> for a syntax error.\<close>

definition readFloat :: "string \<Rightarrow> rat option" where
  "readFloat s =
     (let body = dropSign s;
          hex = (2 < length body \<and> body ! 0 = CHR ''0'' \<and> lowerChar (body ! 1) = CHR ''x'');
          (st, rest) =
            scanMant hex \<lparr>fs_dot = False, fs_digits = False, fs_under = False, fs_value = 0, fs_frac = 0\<rparr>
              (if hex then drop 2 body else body)
      in if \<not> fs_digits st then None
         else
           (case readExp hex rest of
              None \<Rightarrow> None
            | Some (e, und, rest) \<Rightarrow>
                if rest \<noteq> [] \<or> (fs_under st \<or> und) \<and> \<not> underscoreOK s then None
                else
                  Some ((if s \<noteq> [] \<and> hd s = CHR ''-'' then - 1 else 1) *
                        (of_int (fs_value st) / of_int ((if hex then 16 else 10) ^ fs_frac st) *
                         (if hex then pow2 e else pow10 e)))))"

text \<open>\<open>None\<close> is an error: of syntax, or of range when the value rounds to an infinity.\<close>

definition ParseFloat32 :: "string \<Rightarrow> flt option" where
  "ParseFloat32 s =
     (let low = map lowerChar s
      in if low \<in> {''inf'', ''+inf'', ''infinity'', ''+infinity''} then Some PInf
         else if low \<in> {''-inf'', ''-infinity''} then Some NInf
         else if low = ''nan'' then Some NaN
         else
           (case readFloat s of
              None \<Rightarrow> None
            | Some q \<Rightarrow> (case rnd binary32 q of Fin r \<Rightarrow> Some (Fin r) | _ \<Rightarrow> None)))"

subsection \<open>FormatFloat\<close>

text \<open>
  The shortest decimal that rounds to \<open>q\<close>: the least number of decimals \<open>k\<close> (negative for trailing
  zeros before the point) at which one of the two neighbours of \<open>q\<close> does, and the nearer one when both do.
\<close>

definition shortAt :: "rat \<Rightarrow> int \<Rightarrow> int option" where
  "shortAt q k =
     (let s = q * pow10 k; lo = \<lfloor>s\<rfloor>; ok = (\<lambda>c. rnd binary32 (of_int c / pow10 k) = Fin q)
      in if ok lo \<and> (\<not> ok (lo + 1) \<or> s - of_int lo \<le> of_int (lo + 1) - s) then Some lo
         else if ok (lo + 1) then Some (lo + 1)
         else None)"

fun shortSearch :: "rat \<Rightarrow> int \<Rightarrow> nat \<Rightarrow> (int \<times> int) option" where
  "shortSearch q k 0 = None"
| "shortSearch q k (Suc n) =
     (case shortAt q k of Some c \<Rightarrow> Some (c, k) | None \<Rightarrow> shortSearch q (k + 1) n)"

definition renderDecimal :: "int \<Rightarrow> int \<Rightarrow> string" where
  "renderDecimal c k =
     (if k \<le> 0 then showNat (c * 10 ^ nat (- k))
      else showNat (c div 10 ^ nat k) @ ''.'' @ showPad (nat k) (c mod 10 ^ nat k))"

text \<open>
  The search starts at the power of ten above every \<open>float32\<close> and has fuel up to 149 decimals, where
  every \<open>float32\<close> is exact.
\<close>

definition formatPos :: "rat \<Rightarrow> string" where
  "formatPos q =
     (if q = 0 then ''0''
      else (case shortSearch q (- 39) 189 of None \<Rightarrow> [] | Some (c, k) \<Rightarrow> renderDecimal c k))"

fun FormatFloat32 :: "flt \<Rightarrow> string" where
  "FormatFloat32 (Fin q) = (if q < 0 then ''-'' @ formatPos (- q) else formatPos q)"
| "FormatFloat32 PInf = ''+Inf''"
| "FormatFloat32 NInf = ''-Inf''"
| "FormatFloat32 NaN = ''NaN''"

subsection \<open>Reading back what was printed\<close>

lemma digitChar_code: "0 \<le> d \<Longrightarrow> d < 10 \<Longrightarrow> charCode (digitChar d) = 48 + d"
  by (simp add: charCode_def digitChar_def of_char_of)

lemma digitOf_digitChar [simp]: "0 \<le> d \<Longrightarrow> d < 10 \<Longrightarrow> digitOf hex (digitChar d) = Some d"
  by (simp add: digitOf_def digitChar_code Let_def)

lemma digitChar_neq:
  assumes "0 \<le> d" and "d < 10" and "charCode c < 48 \<or> 57 < charCode c"
  shows "digitChar d \<noteq> c"
  using assms digitChar_code [of d] by auto

definition scanned :: "floatScan \<Rightarrow> nat \<Rightarrow> int \<Rightarrow> floatScan" where
  "scanned st k n =
     st\<lparr>fs_digits := fs_digits st \<or> 0 < k, fs_value := fs_value st * 10 ^ k + n,
        fs_frac := fs_frac st + (if fs_dot st then k else 0)\<rparr>"

lemma scanMant_digit:
  "0 \<le> d \<Longrightarrow> d < 10 \<Longrightarrow> scanMant False st (digitChar d # cs) = scanMant False (scanned st 1 d) cs"
  by (simp add: digitChar_neq charCode_def scanned_def)

declare scanMant.simps(2) [simp del]

lemma div10_less: "n div 10 < x \<longleftrightarrow> n < 10 * x" for n x :: int
  by presburger

lemma scanned_scanned: "0 < k \<Longrightarrow> scanned (scanned st j m) k n = scanned st (j + k) (m * 10 ^ k + n)"
  by (simp add: scanned_def algebra_simps power_add)

lemma scanMant_showPad:
  "0 \<le> n \<Longrightarrow> n < 10 ^ k \<Longrightarrow> 0 < k \<Longrightarrow> scanMant False st (showPad k n @ cs) = scanMant False (scanned st k n) cs"
proof (induction k arbitrary: n cs)
  case (Suc k)
  show ?case
  proof (cases "k = 0")
    case True
    with Suc.prems show ?thesis by (simp add: scanMant_digit)
  next
    case False
    have "n div 10 < 10 ^ k" using Suc.prems by (simp add: div10_less)
    then show ?thesis
      using Suc.IH [of "n div 10" "digitChar (n mod 10) # cs"] Suc.prems False
      by (simp add: scanMant_digit scanned_scanned)
  qed
qed simp

declare showNat.simps [simp del]

lemma showNat_showPad:
  assumes "0 \<le> n"
  obtains k where "0 < k" and "n < 10 ^ k" and "showNat n = showPad k n"
  using assms
proof (induction n arbitrary: thesis rule: showNat.induct)
  case (1 n)
  show ?case
  proof (cases "n < 10")
    case True
    then show ?thesis using 1(2) [of 1] "1.prems" by (simp add: showNat.simps)
  next
    case False
    with 1(3) have "0 \<le> n div 10" by simp
    obtain k where k: "0 < k" "n div 10 < 10 ^ k" "showNat (n div 10) = showPad k (n div 10)"
      using 1(1) [OF False _ \<open>0 \<le> n div 10\<close>] by metis
    have "n < 10 ^ Suc k" using k(2) by (simp add: div10_less)
    moreover have "showNat n = showPad (Suc k) n" using False k(3) by (subst showNat.simps) simp
    ultimately show ?thesis using 1(2) [of "Suc k"] by simp
  qed
qed

lemma showPad_shape: "0 < k \<Longrightarrow> \<exists>d cs. 0 \<le> d \<and> d < 10 \<and> showPad k n = digitChar d # cs"
proof (induction k arbitrary: n)
  case (Suc k)
  show ?case
  proof (cases "k = 0")
    case True
    then show ?thesis by (intro exI [of _ "n mod 10"]) auto
  next
    case False
    then show ?thesis using Suc.IH [of "n div 10"] by auto
  qed
qed simp

lemma set_showPad: "set (showPad k n) \<subseteq> digitChar ` {0..<10}"
  by (induction k arbitrary: n) auto

lemma set_renderDecimal: "0 \<le> c \<Longrightarrow> set (renderDecimal c k) \<subseteq> insert (CHR ''.'') (digitChar ` {0..<10})"
proof -
  assume c: "0 \<le> c"
  have "set (showNat n) \<subseteq> digitChar ` {0..<10}" if "0 \<le> n" for n
    using showNat_showPad [OF that] set_showPad by metis
  from this [of "c * 10 ^ nat (- k)"] this [of "c div 10 ^ nat k"] set_showPad [of "nat k" "c mod 10 ^ nat k"] c
  show ?thesis by (auto simp: renderDecimal_def pos_imp_zdiv_nonneg_iff)
qed

lemma lowerChar_digit [simp]: "0 \<le> d \<Longrightarrow> d < 10 \<Longrightarrow> lowerChar (digitChar d) = digitChar d"
  using digitChar_code [of d] by (simp add: lowerChar_def charCode_def Let_def)

lemma renderDecimal_head:
  assumes "0 \<le> c"
  obtains d cs where "0 \<le> d" and "d < 10" and "renderDecimal c k = digitChar d # cs"
proof -
  define n where "n = (if k \<le> 0 then c * 10 ^ nat (- k) else c div 10 ^ nat k)"
  have "0 \<le> n" using assms by (simp add: n_def pos_imp_zdiv_nonneg_iff)
  then obtain j where j: "0 < j" "showNat n = showPad j n" by (rule showNat_showPad)
  from showPad_shape [OF j(1), of n] obtain d cs where d: "0 \<le> d" "d < 10" "showNat n = digitChar d # cs"
    unfolding j(2) by blast
  show ?thesis
  proof (cases "k \<le> 0")
    case True
    with d that show ?thesis by (simp add: renderDecimal_def n_def)
  next
    case False
    with d show ?thesis by (intro that [of d "cs @ ''.'' @ showPad (nat k) (c mod 10 ^ nat k)"]) (simp_all add: renderDecimal_def n_def)
  qed
qed

lemma pow10_pos [simp]: "0 < pow10 k"
  by (simp add: pow10_def)

lemma scan_renderDecimal:
  assumes "0 \<le> c" and st: "st = \<lparr>fs_dot = False, fs_digits = False, fs_under = False, fs_value = 0, fs_frac = 0\<rparr>"
  obtains st' where "scanMant False st (renderDecimal c k) = (st', [])" and "fs_digits st'" and "\<not> fs_under st'"
    and "of_int (fs_value st') / of_int (10 ^ fs_frac st') = of_int c / pow10 k"
proof (cases "k \<le> 0")
  case True
  obtain j where j: "0 < j" "c * 10 ^ nat (- k) < 10 ^ j" "showNat (c * 10 ^ nat (- k)) = showPad j (c * 10 ^ nat (- k))"
    using showNat_showPad [of "c * 10 ^ nat (- k)"] assms by auto
  have "scanMant False st (renderDecimal c k) = (scanned st j (c * 10 ^ nat (- k)), [])"
    using True scanMant_showPad [of "c * 10 ^ nat (- k)" j st "[]"] j assms by (simp add: renderDecimal_def)
  moreover have "pow10 k = 1 / 10 ^ nat (- k)" using True by (auto simp: pow10_def)
  ultimately show ?thesis using that j st by (simp add: scanned_def)
next
  case False
  let ?a = "c div 10 ^ nat k" and ?b = "c mod 10 ^ nat k"
  have "0 \<le> ?a" using assms by (simp add: pos_imp_zdiv_nonneg_iff)
  then obtain j where j: "0 < j" "?a < 10 ^ j" "showNat ?a = showPad j ?a" by (rule showNat_showPad)
  have b: "0 \<le> ?b" "?b < 10 ^ nat k" by simp_all
  let ?st = "(scanned st j ?a)\<lparr>fs_dot := True\<rparr>"
  have "scanMant False st (renderDecimal c k) = scanMant False (scanned st j ?a) (CHR ''.'' # showPad (nat k) ?b)"
    using False scanMant_showPad [OF \<open>0 \<le> ?a\<close> j(2,1), of st] j(3) by (simp add: renderDecimal_def)
  also have "\<dots> = scanMant False ?st (showPad (nat k) ?b @ [])"
    using st by (simp add: scanMant.simps(2) scanned_def)
  also have "\<dots> = (scanned ?st (nat k) ?b, [])" using scanMant_showPad [OF b, of ?st "[]"] False by simp
  finally have "scanMant False st (renderDecimal c k) = (scanned ?st (nat k) ?b, [])" .
  moreover have "fs_value (scanned ?st (nat k) ?b) = c" "fs_frac (scanned ?st (nat k) ?b) = nat k"
    using st by (simp_all add: scanned_def div_mult_mod_eq)
  moreover have "pow10 k = 10 ^ nat k" using False by (simp add: pow10_def)
  ultimately show ?thesis using that j st by (simp add: scanned_def)
qed

lemma readFloat_decimal:
  assumes "dropSign s = b" and "2 < length b \<Longrightarrow> lowerChar (b ! 1) \<noteq> CHR ''x''"
    and "scanMant False \<lparr>fs_dot = False, fs_digits = False, fs_under = False, fs_value = 0, fs_frac = 0\<rparr> b = (st, [])"
    and "fs_digits st" and "\<not> fs_under st"
  shows "readFloat s = Some ((if s \<noteq> [] \<and> hd s = CHR ''-'' then - 1 else 1) * (of_int (fs_value st) / of_int (10 ^ fs_frac st)))"
proof -
  have hex: "(2 < length b \<and> b ! 0 = CHR ''0'' \<and> lowerChar (b ! 1) = CHR ''x'') = False" using assms(2) by blast
  have "pow10 0 = 1" by (simp add: pow10_def)
  then show ?thesis unfolding readFloat_def Let_def assms(1) hex using assms(3,4,5) by (simp add: readExp_def)
qed

lemma readFloat_renderDecimal:
  assumes "0 \<le> c"
  shows "readFloat (renderDecimal c k) = Some (of_int c / pow10 k)"
    and "readFloat (CHR ''-'' # renderDecimal c k) = Some (- (of_int c / pow10 k))"
proof -
  let ?s = "renderDecimal c k"
  obtain d cs where d: "0 \<le> d" "d < 10" "?s = digitChar d # cs" by (rule renderDecimal_head [OF assms])
  have "digitChar d \<notin> {CHR ''+'', CHR ''-''}" using d digitChar_neq [of d] by (auto simp: charCode_def)
  then have sign: "dropSign ?s = ?s" "hd ?s \<noteq> CHR ''-''" unfolding d(3) dropSign_def by simp_all
  have nox: "lowerChar (?s ! 1) \<noteq> CHR ''x''" if "2 < length ?s"
  proof -
    have "?s ! 1 \<in> set ?s" using that by simp
    then have "?s ! 1 \<in> insert (CHR ''.'') (digitChar ` {0..<10})" using set_renderDecimal [OF assms] by blast
    moreover have "lowerChar (CHR ''.'') \<noteq> CHR ''x''" by code_simp
    moreover have "lowerChar (digitChar e) \<noteq> CHR ''x''" if "e \<in> {0..<10}" for e
      using that digitChar_neq [of e "CHR ''x''"] by (simp add: charCode_def)
    ultimately show ?thesis by (elim insertE imageE) simp_all
  qed
  obtain st where st: "scanMant False \<lparr>fs_dot = False, fs_digits = False, fs_under = False, fs_value = 0, fs_frac = 0\<rparr> ?s = (st, [])"
    "fs_digits st" "\<not> fs_under st" "of_int (fs_value st) / of_int (10 ^ fs_frac st) = of_int c / pow10 k"
    by (rule scan_renderDecimal [OF assms refl])
  show "readFloat ?s = Some (of_int c / pow10 k)"
    using readFloat_decimal [OF sign(1) nox st(1,2,3)] sign(2) st(4) by simp
  have "dropSign (CHR ''-'' # ?s) = ?s" by (simp add: dropSign_def)
  from readFloat_decimal [OF this nox st(1,2,3)] show "readFloat (CHR ''-'' # ?s) = Some (- (of_int c / pow10 k))"
    using st(4) by simp
qed

lemma rnd_uminus: "rnd binary32 x = Fin q \<Longrightarrow> rnd binary32 (- x) = Fin (- q)"
  by (auto simp: f32.rnd_Fin_iff rnd_rat_minus)

lemma ParseFloat32_renderDecimal:
  assumes "0 \<le> c" and "rnd binary32 (of_int c / pow10 k) = Fin q"
  shows "ParseFloat32 (renderDecimal c k) = Some (Fin q)" and "ParseFloat32 (CHR ''-'' # renderDecimal c k) = Some (Fin (- q))"
proof -
  let ?s = "renderDecimal c k"
  obtain d cs where d: "0 \<le> d" "d < 10" "?s = digitChar d # cs" by (rule renderDecimal_head [OF assms(1)])
  have first: "digitChar d \<noteq> ch" if "ch \<in> {CHR ''i'', CHR ''n'', CHR ''+'', CHR ''-''}" for ch
    using d that digitChar_neq [of d ch] by (auto simp: charCode_def)
  have low: "map lowerChar ?s = digitChar d # map lowerChar cs" using d by simp
  have minus: "lowerChar (CHR ''-'') = CHR ''-''" by code_simp
  show "ParseFloat32 ?s = Some (Fin q)"
    unfolding ParseFloat32_def Let_def low using first assms(2) readFloat_renderDecimal(1) [OF assms(1), of k] by simp
  show "ParseFloat32 (CHR ''-'' # ?s) = Some (Fin (- q))"
    unfolding ParseFloat32_def Let_def list.map low minus
    using first rnd_uminus [OF assms(2)] readFloat_renderDecimal(2) [OF assms(1), of k] by simp
qed

lemma shortSearch_sound:
  "shortSearch q k n = Some (c, k') \<Longrightarrow> rnd binary32 (of_int c / pow10 k') = Fin q"
  by (induction q k n rule: shortSearch.induct)
    (auto simp: shortAt_def Let_def split: option.splits if_splits)

lemma shortSearch_nonneg: "0 \<le> q \<Longrightarrow> shortSearch q k n = Some (c, k') \<Longrightarrow> 0 \<le> c"
proof (induction q k n rule: shortSearch.induct)
  case (2 q k n)
  have "0 \<le> q * pow10 k" using 2(2) by (simp add: less_imp_le)
  then have "0 \<le> \<lfloor>q * pow10 k\<rfloor>" by simp
  then show ?case using 2 by (auto simp: shortAt_def Let_def split: option.splits if_splits)
qed simp

lemma shortSearch_complete:
  "shortAt q (k + int j) \<noteq> None \<Longrightarrow> j < n \<Longrightarrow> shortSearch q k n \<noteq> None"
proof (induction j arbitrary: k n)
  case (Suc j)
  then obtain m where "n = Suc m" by (cases n) auto
  with Suc.IH [of "k + 1" m] Suc.prems show ?case by (auto split: option.splits simp: ac_simps)
next
  case 0
  then show ?case by (cases n) auto
qed

text \<open>With 149 decimals every \<open>float32\<close> is exact, so the search ends.\<close>

lemma shortAt_149:
  assumes "flt_of binary32 (Fin q)"
  shows "shortAt q 149 \<noteq> None"
proof -
  have "rnd_rat binary32 q = q" using assms by (simp add: f32.rnd_Fin_iff)
  define m where "m = round_half_even (q / pow2 (quantum binary32 q))"
  have q: "q = of_int m * pow2 (quantum binary32 q)"
    using \<open>rnd_rat binary32 q = q\<close> by (simp add: rnd_rat_def m_def)
  define j where "j = nat (quantum binary32 q + 149)"
  have "- 149 \<le> quantum binary32 q" by (simp add: quantum_def binary32_def)
  then have j: "quantum binary32 q = - 149 + int j" by (simp add: j_def)
  have two: "pow2 (quantum binary32 q) = 2 ^ j / 2 ^ 149" using pow2_add_nat [of "- 149" j] by (simp add: j pow2_def)
  have ten: "pow10 149 = 2 ^ 149 * 5 ^ 149" by (simp add: pow10_def power_mult_distrib [symmetric])
  have "q * pow10 149 = of_int m * (2 ^ j / 2 ^ 149) * (2 ^ 149 * 5 ^ 149)" unfolding ten two [symmetric] using q by simp
  also have "\<dots> = of_int (m * 2 ^ j * 5 ^ 149)" by simp
  finally have "q * pow10 149 = of_int (m * 2 ^ j * 5 ^ 149)" .
  then obtain n where n: "q * pow10 149 = of_int n" by blast
  then have "of_int \<lfloor>q * pow10 149\<rfloor> / pow10 149 = q" using pow10_pos [of 149] by (simp add: nonzero_divide_eq_eq less_imp_neq [symmetric])
  then show ?thesis using assms by (simp add: shortAt_def Let_def n)
qed

lemma formatPos_shape:
  assumes "flt_of binary32 (Fin q)" and "0 < q"
  obtains c k where "formatPos q = renderDecimal c k" and "0 \<le> c" and "rnd binary32 (of_int c / pow10 k) = Fin q"
proof -
  have "shortSearch q (- 39) 189 \<noteq> None"
    using shortSearch_complete [of q "- 39" 188 189] shortAt_149 [OF assms(1)] by simp
  then obtain c k where ck: "shortSearch q (- 39) 189 = Some (c, k)" by auto
  show ?thesis
  proof (rule that)
    show "formatPos q = renderDecimal c k" using ck assms(2) by (simp add: formatPos_def)
    show "0 \<le> c" using shortSearch_nonneg [OF _ ck] assms(2) by simp
    show "rnd binary32 (of_int c / pow10 k) = Fin q" by (rule shortSearch_sound [OF ck])
  qed
qed

lemma parse_format:
  assumes "flt_of binary32 (Fin q)"
  shows "ParseFloat32 (FormatFloat32 (Fin q)) = Some (Fin q)"
proof -
  consider "q = 0" | "0 < q" | "q < 0" by linarith
  then show ?thesis
  proof cases
    case 1
    have "ParseFloat32 ''0'' = Some (Fin 0)" by code_simp
    with 1 show ?thesis by (simp add: formatPos_def)
  next
    case 2
    from formatPos_shape [OF assms 2] ParseFloat32_renderDecimal(1) show ?thesis using 2 by (metis FormatFloat32.simps(1) not_less_iff_gr_or_eq)
  next
    case 3
    have "flt_of binary32 (Fin (- q))" using assms rnd_uminus [of q q] by simp
    from formatPos_shape [OF this] 3 obtain c k where "formatPos (- q) = renderDecimal c k" "0 \<le> c"
      "rnd binary32 (of_int c / pow10 k) = Fin (- q)" by auto
    with ParseFloat32_renderDecimal(2) [of c k "- q"] 3 show ?thesis by simp
  qed
qed

end
