(* ===== verification/Eviction.thy ===== *)
theory Eviction
  imports Accounting Go_Text
begin

text \<open>
  \<open>internal/index/eviction.go\<close>: the TTL sweep, the global entry cap with its LRU/LFU victim
  order, and the per-tenant prefix quota. Every eviction is a sequence of single removals, so
  each is described by the list of victims it removes (\<open>dropAll\<close>): exactly the expired
  entries, exactly the excess over the cap taken from the front of the victim order, exactly
  the excess of the tenant taken oldest first. The cap's victims do not depend on the order
  in which the maps are iterated.
\<close>

subsection \<open>Resolvers\<close>

definition ttlFor :: "Index \<Rightarrow> string \<Rightarrow> duration" where
  "ttlFor i tenant =
     (case ttlResolver i of
        None \<Rightarrow> ttl i
      | Some r \<Rightarrow> (if 0 < r tenant then r tenant else ttl i))"

definition evictionFor :: "Index \<Rightarrow> string \<Rightarrow> string" where
  "evictionFor i tenant =
     (case evictionResolver i of
        None \<Rightarrow> EvictionLRU
      | Some r \<Rightarrow> (if map lowerChar (r tenant) = EvictionLFU then EvictionLFU else EvictionLRU))"

definition tenantQuotaFor :: "Index \<Rightarrow> string \<Rightarrow> int option" where
  "tenantQuotaFor i tenant = (case quotaResolver i of None \<Rightarrow> None | Some r \<Rightarrow> r tenant)"

definition tenantEvictionReasonOverEntries :: string where
  "tenantEvictionReasonOverEntries = ''over_entries''"
definition indexEvictionReasonCap :: string where "indexEvictionReasonCap = ''cap''"
definition indexEvictionReasonTTL :: string where "indexEvictionReasonTTL = ''ttl''"

text \<open>Calls to the metrics sink, when one is wired.\<close>

definition emitCalls :: "MetricCall list \<Rightarrow> Index \<Rightarrow> Index" where
  "emitCalls cs i = (case metrics i of None \<Rightarrow> i | Some calls \<Rightarrow> i\<lparr>metrics := Some (calls @ cs)\<rparr>)"

subsection \<open>The TTL sweep\<close>

definition expired :: "Index \<Rightarrow> gotime \<Rightarrow> string \<Rightarrow> gotime \<Rightarrow> bool" where
  "expired i now tenant lastSeen \<longleftrightarrow>
     0 < ttlFor i tenant \<and> ttlFor i tenant \<le> time_sub now lastSeen"

definition sweepPrefixes :: "Index \<Rightarrow> gotime \<Rightarrow> Index \<times> (string, int) gomap" where
  "sweepPrefixes i now =
     fold (\<lambda>(key, replicas). fold (\<lambda>(id, e) (j, evicted).
             if expired i now (pk_tenant key) (re_lastSeen e)
             then (removeReplicaLocked j key id, ctr_inc (evictionFor i (pk_tenant key)) evicted)
             else (j, evicted)) replicas)
       (prefixes i) (i, [])"

definition sweepStats :: "Index \<Rightarrow> gotime \<Rightarrow> Index" where
  "sweepStats i now =
     fold (\<lambda>(sk, s) j.
             if expired i now (sk_tenant sk) (se_lastSeen s)
             then statsScopeRemoveLocked (j\<lparr>stats := AList.delete sk (stats j)\<rparr>)
                    (ModelKey (sk_tenant sk) (sk_model sk)) (sk_replicaID sk)
             else j)
       (stats i) i"

definition evictExpired :: "Index \<Rightarrow> gotime \<Rightarrow> Index" where
  "evictExpired i now =
     (let (i, ttlEvicted) = sweepPrefixes i now;
          i = sweepStats i now;
          i = emitCalls (map (\<lambda>(algo, n). AddIndexEvictions algo indexEvictionReasonTTL n) ttlEvicted) i
      in reportEntries i)"

subsection \<open>The entry cap\<close>

record capRef =
  cr_key :: prefixKey
  cr_replica :: string
  cr_algo :: string
  cr_effectiveCount :: int
  cr_lastSeen :: gotime

definition capRefs :: "Index \<Rightarrow> capRef list" where
  "capRefs i =
     concat (map (\<lambda>(key, replicas).
       if isReservedTenant i (pk_tenant key) then []
       else
         (let algo = evictionFor i (pk_tenant key)
          in map (\<lambda>(id, e).
               \<lparr>cr_key = key, cr_replica = id, cr_algo = algo,
                cr_effectiveCount = (if algo = EvictionLFU then re_accessCount e else 0),
                cr_lastSeen = re_lastSeen e\<rparr>) replicas))
       (prefixes i))"

definition capLess :: "capRef \<Rightarrow> capRef \<Rightarrow> bool" where
  "capLess x y \<longleftrightarrow>
     (if cr_effectiveCount x \<noteq> cr_effectiveCount y then cr_effectiveCount x < cr_effectiveCount y
      else if cr_lastSeen x \<noteq> cr_lastSeen y then cr_lastSeen x < cr_lastSeen y
      else if cr_key x \<noteq> cr_key y then
        (if pk_tenant (cr_key x) \<noteq> pk_tenant (cr_key y)
         then pk_tenant (cr_key x) < pk_tenant (cr_key y)
         else if pk_model (cr_key x) \<noteq> pk_model (cr_key y)
         then pk_model (cr_key x) < pk_model (cr_key y)
         else if pk_hashScheme (cr_key x) \<noteq> pk_hashScheme (cr_key y)
         then pk_hashScheme (cr_key x) < pk_hashScheme (cr_key y)
         else if pk_adapter (cr_key x) \<noteq> pk_adapter (cr_key y)
         then pk_adapter (cr_key x) < pk_adapter (cr_key y)
         else pk_prefixHash (cr_key x) < pk_prefixHash (cr_key y))
      else cr_replica x < cr_replica y)"

fun capLoop :: "Index \<Rightarrow> capRef list \<Rightarrow> (string, int) gomap \<Rightarrow> Index \<times> (string, int) gomap" where
  "capLoop i [] evicted = (i, evicted)"
| "capLoop i (r # rs) evicted =
     (if totalEntries i - reservedEntries i \<le> maxEntries i then (i, evicted)
      else capLoop (removeReplicaLocked i (cr_key r) (cr_replica r)) rs (ctr_inc (cr_algo r) evicted))"

definition enforceCapLocked :: "Index \<Rightarrow> Index \<times> (string, int) gomap" where
  "enforceCapLocked i =
     (let effectiveTotal = totalEntries i - reservedEntries i
      in if maxEntries i \<le> 0 \<or> effectiveTotal \<le> maxEntries i then (i, [])
         else capLoop i (sort_slice capLess (capRefs i)) [])"

subsection \<open>The tenant quota\<close>

record quotaRef =
  qr_key :: prefixKey
  qr_age :: gotime

definition newestSeen :: "(string, replicaEntry) gomap \<Rightarrow> gotime" where
  "newestSeen replicas =
     fold (\<lambda>(_, e) newest. if newest < re_lastSeen e then re_lastSeen e else newest) replicas 0"

definition quotaRefs :: "Index \<Rightarrow> string \<Rightarrow> quotaRef list" where
  "quotaRefs i tenant =
     concat (map (\<lambda>(key, replicas).
       if pk_tenant key \<noteq> tenant then []
       else [\<lparr>qr_key = key, qr_age = newestSeen replicas\<rparr>]) (prefixes i))"

definition quotaLess :: "quotaRef \<Rightarrow> quotaRef \<Rightarrow> bool" where
  "quotaLess a b \<longleftrightarrow>
     (let x = qr_key a; y = qr_key b
      in if qr_age a \<noteq> qr_age b then qr_age a < qr_age b
         else if pk_model x \<noteq> pk_model y then pk_model x < pk_model y
         else if pk_hashScheme x \<noteq> pk_hashScheme y then pk_hashScheme x < pk_hashScheme y
         else if pk_adapter x \<noteq> pk_adapter y then pk_adapter x < pk_adapter y
         else pk_prefixHash x < pk_prefixHash y)"

text \<open>Dropping a prefix: the replica ids are collected first, then removed one by one.\<close>

definition dropPrefix :: "Index \<Rightarrow> prefixKey \<Rightarrow> Index" where
  "dropPrefix i key = fold (\<lambda>id j. removeReplicaLocked j key id) (map fst (gm_map (prefixes i) key)) i"

fun quotaLoop :: "Index \<Rightarrow> string \<Rightarrow> int \<Rightarrow> quotaRef list \<Rightarrow> int \<Rightarrow> Index \<times> int" where
  "quotaLoop i tenant maxPrefixes [] removed = (i, removed)"
| "quotaLoop i tenant maxPrefixes (r # rs) removed =
     (if gm_int (prefixesByTenant i) tenant \<le> maxPrefixes then (i, removed)
      else quotaLoop (dropPrefix i (qr_key r)) tenant maxPrefixes rs (removed + 1))"

definition evictOldestForTenantLocked :: "Index \<Rightarrow> string \<Rightarrow> int \<Rightarrow> Index \<times> int" where
  "evictOldestForTenantLocked i tenant maxPrefixes =
     (if maxPrefixes < 0 then (i, 0)
      else if gm_int (prefixesByTenant i) tenant \<le> maxPrefixes then (i, 0)
      else quotaLoop i tenant maxPrefixes (sort_slice quotaLess (quotaRefs i tenant)) 0)"

subsection \<open>Removing a list of entries\<close>

definition dropAll :: "(prefixKey \<times> string) list \<Rightarrow> Index \<Rightarrow> Index" where
  "dropAll xs i = fold (\<lambda>(key, r) j. removeReplicaLocked j key r) xs i"

lemma dropAll_Nil [simp]: "dropAll [] i = i"
  by (simp add: dropAll_def)

lemma dropAll_Cons [simp]: "dropAll ((key, r) # xs) i = dropAll xs (removeReplicaLocked i key r)"
  by (simp add: dropAll_def)

lemma dropAll_append: "dropAll (xs @ ys) i = dropAll ys (dropAll xs i)"
  by (simp add: dropAll_def)

lemma held_dropAll: "held (dropAll xs i) k r = (if (k, r) \<in> set xs then None else held i k r)"
  by (induction xs arbitrary: i) (auto simp: held_remove split: prod.splits if_splits)

lemma idx_inv_dropAll: "idx_inv i \<Longrightarrow> idx_inv (dropAll xs i)"
  by (induction xs arbitrary: i) (auto simp: idx_inv_remove split: prod.splits)

lemma dropAll_frame [simp]:
  "stats (dropAll xs i) = stats i"
  "replicasByModel (dropAll xs i) = replicasByModel i"
  "reservedTenants (dropAll xs i) = reservedTenants i"
  "maxEntries (dropAll xs i) = maxEntries i"
  "nextEntry (dropAll xs i) = nextEntry i"
  "ttl (dropAll xs i) = ttl i"
  "ranker (dropAll xs i) = ranker i"
  "ttlResolver (dropAll xs i) = ttlResolver i"
  "quotaResolver (dropAll xs i) = quotaResolver i"
  "evictionResolver (dropAll xs i) = evictionResolver i"
  "metrics (dropAll xs i) = metrics i"
  "reportedModels (dropAll xs i) = reportedModels i"
  by (induction xs arbitrary: i) (auto split: prod.splits)

text \<open>The entries of an index as one list.\<close>

definition entriesOf :: "Index \<Rightarrow> (prefixKey \<times> string \<times> replicaEntry) list" where
  "entriesOf i = concat (map (\<lambda>(k, rs). map (\<lambda>(r, e). (k, r, e)) rs) (prefixes i))"

lemma set_entriesOf: "prefix_inv i \<Longrightarrow> (k, r, e) \<in> set (entriesOf i) \<longleftrightarrow> held i k r = Some e"
proof -
  assume inv: "prefix_inv i"
  have "(k, r, e) \<in> set (entriesOf i) \<longleftrightarrow> (\<exists>rs. (k, rs) \<in> set (prefixes i) \<and> (r, e) \<in> set rs)"
    by (auto simp: entriesOf_def)
  also have "\<dots> \<longleftrightarrow> (\<exists>rs. map_of (prefixes i) k = Some rs \<and> (r, e) \<in> set rs)"
    by (simp add: map_of_gm_wf [OF prefix_inv_wf [OF inv]])
  also have "\<dots> \<longleftrightarrow> (r, e) \<in> set (gm_map (prefixes i) k)"
    by (cases "map_of (prefixes i) k") (auto simp: gm_map_def)
  also have "\<dots> \<longleftrightarrow> held i k r = Some e"
    by (simp add: map_of_gm_wf [OF prefix_inv_inner [OF inv]])
  finally show ?thesis .
qed

lemma distinct_concat_pairs:
  assumes "distinct (map fst m)" and "\<forall>(k, rs) \<in> set m. distinct (map fst rs)"
  shows "distinct (map (\<lambda>(k, r, e). (k, r)) (concat (map (\<lambda>(k, rs). map (\<lambda>(r, e). (k, r, e)) rs) m)))"
  using assms
proof (induction m)
  case (Cons p m)
  obtain k rs where p: "p = (k, rs)" by (cases p)
  have "inj_on (Pair k) (fst ` set rs)" by (auto simp: inj_on_def)
  moreover have "map (\<lambda>(k, r, e). (k, r)) (map (\<lambda>(r, e). (k, r, e)) rs) = map (Pair k) (map fst rs)"
    by auto
  ultimately have "distinct (map (\<lambda>(k, r, e). (k, r)) (map (\<lambda>(r, e). (k, r, e)) rs))"
    using Cons.prems p by (simp only: distinct_map) (auto simp: distinct_map inj_on_def)
  moreover have "k \<notin> fst ` set m" using Cons.prems p by simp
  ultimately show ?case using Cons p by (force simp del: map_map)
qed simp

lemma distinct_entriesOf: "prefix_inv i \<Longrightarrow> distinct (map (\<lambda>(k, r, e). (k, r)) (entriesOf i))"
  unfolding entriesOf_def
  by (rule distinct_concat_pairs) (auto simp: prefix_inv_def gm_wf_def)

lemma dropAll_counts:
  assumes "prefix_inv i" and "distinct xs" and "\<forall>(k, r) \<in> set xs. held i k r \<noteq> None"
  shows "totalEntries (dropAll xs i) = totalEntries i - int (length xs) \<and>
    reservedEntries (dropAll xs i) =
      reservedEntries i - int (length (filter (\<lambda>(k, r). isReservedTenant i (pk_tenant k)) xs))"
  using assms
proof (induction xs arbitrary: i)
  case (Cons x xs)
  obtain k r where x: "x = (k, r)" by (cases x)
  then obtain e where e: "held i k r = Some e" using Cons.prems by fastforce
  have res: "isReservedTenant (removeReplicaLocked i k r) = isReservedTenant i"
    by (simp add: isReservedTenant_def fun_eq_iff)
  have "\<forall>(k', r') \<in> set xs. held (removeReplicaLocked i k r) k' r' \<noteq> None"
    using Cons.prems x by (auto simp: held_remove)
  note IH = Cons.IH [OF prefix_inv_remove [OF Cons.prems(1)] _ this]
  show ?case using IH Cons.prems x by (simp add: remove_counters [OF e] res)
qed simp

subsection \<open>What the sweep removes\<close>

lemma fold_nested:
  "fold (\<lambda>(k, rs). fold (\<lambda>(r, e). g k r e) rs) m s =
     fold (\<lambda>(k, r, e). g k r e) (concat (map (\<lambda>(k, rs). map (\<lambda>(r, e). (k, r, e)) rs) m)) s"
proof (induction m arbitrary: s)
  case (Cons p m)
  have "fold (\<lambda>(k, r, e). g k r e) (map (\<lambda>(r, e). (k, r, e)) rs) s = fold (\<lambda>(r, e). g k r e) rs s"
    for k rs s by (induction rs arbitrary: s) auto
  with Cons show ?case by (cases p) simp
qed simp

lemma fold_filter_pair:
  "fold (\<lambda>x (j, ev). if P x then (f x j, g x ev) else (j, ev)) xs (j, ev) =
     (fold f (filter P xs) j, fold g (filter P xs) ev)"
  by (induction xs arbitrary: j ev) auto

definition expiredEntries :: "Index \<Rightarrow> gotime \<Rightarrow> (prefixKey \<times> string \<times> replicaEntry) list" where
  "expiredEntries i now =
     filter (\<lambda>(k, r, e). expired i now (pk_tenant k) (re_lastSeen e)) (entriesOf i)"

lemma sweepPrefixes_eq:
  "sweepPrefixes i now =
     (dropAll (map (\<lambda>(k, r, e). (k, r)) (expiredEntries i now)) i,
      fold ctr_inc (map (\<lambda>(k, r, e). evictionFor i (pk_tenant k)) (expiredEntries i now)) [])"
proof -
  let ?P = "\<lambda>(k, r, e). expired i now (pk_tenant k) (re_lastSeen e)"
  let ?f = "\<lambda>(k, r, e) j. removeReplicaLocked j k r"
  let ?g = "\<lambda>(k, r, e). ctr_inc (evictionFor i (pk_tenant k))"
  have "sweepPrefixes i now =
      fold (\<lambda>x (j, ev). if ?P x then (?f x j, ?g x ev) else (j, ev)) (entriesOf i) (i, [])"
    unfolding sweepPrefixes_def entriesOf_def
      fold_nested [where g = "\<lambda>key id e (j, evicted).
             if expired i now (pk_tenant key) (re_lastSeen e)
             then (removeReplicaLocked j key id, ctr_inc (evictionFor i (pk_tenant key)) evicted)
             else (j, evicted)"]
    by (rule arg_cong [where f = "\<lambda>h. fold h _ _"]) (auto simp: fun_eq_iff)
  also have "\<dots> = (fold ?f (expiredEntries i now) i, fold ?g (expiredEntries i now) [])"
    unfolding expiredEntries_def by (rule fold_filter_pair)
  also have "fold ?f (expiredEntries i now) i = dropAll (map (\<lambda>(k, r, e). (k, r)) (expiredEntries i now)) i"
    unfolding dropAll_def fold_map by (rule arg_cong [where f = "\<lambda>h. fold h _ _"]) auto
  also have "fold ?g (expiredEntries i now) [] =
      fold ctr_inc (map (\<lambda>(k, r, e). evictionFor i (pk_tenant k)) (expiredEntries i now)) []"
    unfolding fold_map by (rule arg_cong [where f = "\<lambda>h. fold h _ _"]) auto
  finally show ?thesis .
qed

lemma held_sweepPrefixes:
  assumes "prefix_inv i"
  shows "held (fst (sweepPrefixes i now)) k r =
    (case held i k r of
       None \<Rightarrow> None
     | Some e \<Rightarrow> if expired i now (pk_tenant k) (re_lastSeen e) then None else Some e)"
proof -
  have "(k, r) \<in> set (map (\<lambda>(k, r, e). (k, r)) (expiredEntries i now)) \<longleftrightarrow>
      (\<exists>e. held i k r = Some e \<and> expired i now (pk_tenant k) (re_lastSeen e))"
    using set_entriesOf [OF assms, of k r] by (force simp: expiredEntries_def)
  then show ?thesis
    by (auto simp: sweepPrefixes_eq held_dropAll split: option.splits simp del: set_map)
qed

lemma sweepStats_fold:
  fixes Q :: "statsKey \<Rightarrow> statEntry \<Rightarrow> bool"
  assumes "idx_inv j" and "gm_wf m" and "\<forall>(sk, s) \<in> set m. map_of (stats j) sk = Some s"
  defines "j' \<equiv> fold (\<lambda>(sk, s) j.
             if Q sk s
             then statsScopeRemoveLocked (j\<lparr>stats := AList.delete sk (stats j)\<rparr>)
                    (ModelKey (sk_tenant sk) (sk_model sk)) (sk_replicaID sk)
             else j) m j"
  shows "idx_inv j' \<and> prefixes j' = prefixes j \<and>
    map_of (stats j') sk =
      (case map_of (stats j) sk of None \<Rightarrow> None
       | Some s \<Rightarrow> if sk \<in> fst ` set m \<and> Q sk s then None else Some s)"
  using assms(1-3) unfolding j'_def
proof (induction m arbitrary: j)
  case (Cons p m)
  obtain k s where p: "p = (k, s)" by (cases p)
  have wf: "gm_wf m" "k \<notin> fst ` set m" using gm_wf_ConsD [OF Cons.prems(2)] p by auto
  show ?case
  proof (cases "Q k s")
    case True
    let ?j = "statsScopeRemoveLocked (j\<lparr>stats := AList.delete k (stats j)\<rparr>)
                (ModelKey (sk_tenant k) (sk_model k)) (sk_replicaID k)"
    have "idx_inv ?j"
      using idx_inv_stats_del [OF Cons.prems(1), of "sk_tenant k" "sk_model k" "sk_replicaID k"] by simp
    moreover have "\<forall>(sk, s) \<in> set m. map_of (stats ?j) sk = Some s"
      using Cons.prems(3) wf p by (force simp: gomap_simps)
    ultimately show ?thesis using Cons.IH [of ?j] wf True Cons.prems p
      by (auto simp: gomap_simps split: option.splits)
  next
    case False
    then show ?thesis using Cons.IH [of j] wf Cons.prems p by (auto split: option.splits)
  qed
qed (auto split: option.splits)

lemma sweepStats_spec:
  assumes "idx_inv i"
  shows "idx_inv (sweepStats i now)" and "prefixes (sweepStats i now) = prefixes i"
    and "map_of (stats (sweepStats i now)) sk =
      (case map_of (stats i) sk of None \<Rightarrow> None
       | Some s \<Rightarrow> if expired i now (sk_tenant sk) (se_lastSeen s) then None else Some s)"
proof -
  have wf: "gm_wf (stats i)" using assms by (simp add: idx_inv_def stats_inv_def)
  have *: "\<forall>(sk, s) \<in> set (stats i). map_of (stats i) sk = Some s"
    using wf by (auto simp: map_of_gm_wf)
  note f = sweepStats_fold [OF assms wf *, of "\<lambda>sk s. expired i now (sk_tenant sk) (se_lastSeen s)",
      folded sweepStats_def]
  show "idx_inv (sweepStats i now)" and "prefixes (sweepStats i now) = prefixes i" using f by auto
  have "map_of (stats i) sk = Some s \<Longrightarrow> sk \<in> fst ` set (stats i)" for s
    by (simp add: mem_keys)
  then show "map_of (stats (sweepStats i now)) sk =
      (case map_of (stats i) sk of None \<Rightarrow> None
       | Some s \<Rightarrow> if expired i now (sk_tenant sk) (se_lastSeen s) then None else Some s)"
    using f [of sk] by (auto split: option.splits)
qed

subsection \<open>What the cap removes\<close>

definition capRank :: "capRef \<Rightarrow> int \<times> gotime \<times> prefixKey \<times> string" where
  "capRank x = (cr_effectiveCount x, cr_lastSeen x, cr_key x, cr_replica x)"

interpretation cap: ranked_order capLess capRank
  by unfold_locales (auto simp: capLess_def capRank_def less_prefixKey_def less_prod_def less_eq_prefixKey_def)

definition capRefOf :: "Index \<Rightarrow> prefixKey \<times> string \<times> replicaEntry \<Rightarrow> capRef" where
  "capRefOf i x =
     (case x of (key, r, e) \<Rightarrow>
        \<lparr>cr_key = key, cr_replica = r, cr_algo = evictionFor i (pk_tenant key),
         cr_effectiveCount =
           (if evictionFor i (pk_tenant key) = EvictionLFU then re_accessCount e else 0),
         cr_lastSeen = re_lastSeen e\<rparr>)"

lemma capRefs_eq:
  "capRefs i = map (capRefOf i) (filter (\<lambda>(k, r, e). \<not> isReservedTenant i (pk_tenant k)) (entriesOf i))"
proof -
  have "concat (map (\<lambda>(key, replicas).
       if isReservedTenant i (pk_tenant key) then []
       else
         (let algo = evictionFor i (pk_tenant key)
          in map (\<lambda>(id, e).
               \<lparr>cr_key = key, cr_replica = id, cr_algo = algo,
                cr_effectiveCount = (if algo = EvictionLFU then re_accessCount e else 0),
                cr_lastSeen = re_lastSeen e\<rparr>) replicas)) m) =
    map (capRefOf i) (filter (\<lambda>(k, r, e). \<not> isReservedTenant i (pk_tenant k))
      (concat (map (\<lambda>(k, rs). map (\<lambda>(r, e). (k, r, e)) rs) m)))" for m
    by (induction m) (auto simp: filter_map comp_def capRefOf_def case_prod_beta Let_def)
  then show ?thesis by (simp add: capRefs_def entriesOf_def)
qed

definition capIdent :: "capRef \<Rightarrow> prefixKey \<times> string" where
  "capIdent x = (cr_key x, cr_replica x)"

lemma capIdent_capRefOf: "capIdent (capRefOf i x) = (fst x, fst (snd x))"
  by (cases x) (simp add: capIdent_def capRefOf_def)

lemma distinct_capRefs: "prefix_inv i \<Longrightarrow> distinct (map capIdent (capRefs i))"
  using distinct_map_filter [OF distinct_entriesOf [of i],
      of "\<lambda>(k, r, e). \<not> isReservedTenant i (pk_tenant k)"]
  by (simp add: capRefs_eq comp_def capIdent_capRefOf case_prod_beta')

lemma capRefs_held:
  assumes "prefix_inv i" and "x \<in> set (capRefs i)"
  shows "held i (cr_key x) (cr_replica x) \<noteq> None" "\<not> isReservedTenant i (pk_tenant (cr_key x))"
  using assms set_entriesOf [OF assms(1)]
  by (auto simp: capRefs_eq capRefOf_def)

lemma length_capRefs:
  assumes "prefix_inv i"
  shows "int (length (capRefs i)) = totalEntries i - reservedEntries i"
proof -
  have "wsum w_total m = wsum (w_reserved i) m +
      length (filter (\<lambda>(k, r, e). \<not> isReservedTenant i (pk_tenant k))
        (concat (map (\<lambda>(k, rs). map (\<lambda>(r, e). (k, r, e)) rs) m)))" for m
    by (induction m) (auto simp: w_total_def w_reserved_def filter_map comp_def case_prod_beta)
  from this [of "prefixes i"] show ?thesis
    using assms by (simp add: capRefs_eq entriesOf_def prefix_inv_def)
qed

definition capExcess :: "Index \<Rightarrow> nat" where
  "capExcess i = nat (totalEntries i - reservedEntries i - maxEntries i)"

lemma capLoop_eq:
  assumes "prefix_inv i" and "distinct (map capIdent rs)"
    and "\<forall>x \<in> set rs. held i (cr_key x) (cr_replica x) \<noteq> None \<and> \<not> isReservedTenant i (pk_tenant (cr_key x))"
  shows "capLoop i rs evicted =
    (dropAll (map capIdent (take (capExcess i) rs)) i,
     fold ctr_inc (map cr_algo (take (capExcess i) rs)) evicted)"
  using assms
proof (induction rs arbitrary: i evicted)
  case (Cons x rs)
  show ?case
  proof (cases "totalEntries i - reservedEntries i \<le> maxEntries i")
    case True
    then show ?thesis by (simp add: capExcess_def)
  next
    case False
    let ?i = "removeReplicaLocked i (cr_key x) (cr_replica x)"
    obtain e where e: "held i (cr_key x) (cr_replica x) = Some e"
      and nr: "\<not> isReservedTenant i (pk_tenant (cr_key x))" using Cons.prems by auto
    have ex: "capExcess i = Suc (capExcess ?i)"
      using False nr by (simp add: capExcess_def remove_counters [OF e])
    have "\<forall>y \<in> set rs. held ?i (cr_key y) (cr_replica y) \<noteq> None \<and>
        \<not> isReservedTenant ?i (pk_tenant (cr_key y))"
      using Cons.prems by (auto simp: held_remove isReservedTenant_def capIdent_def image_iff)
    then have "capLoop ?i rs (ctr_inc (cr_algo x) evicted) =
        (dropAll (map capIdent (take (capExcess ?i) rs)) ?i,
         fold ctr_inc (map cr_algo (take (capExcess ?i) rs)) (ctr_inc (cr_algo x) evicted))"
      using Cons.prems by (intro Cons.IH prefix_inv_remove) auto
    then show ?thesis using False by (simp add: ex) (simp add: capIdent_def [of x])
  qed
qed simp

definition capVictims :: "Index \<Rightarrow> capRef list" where
  "capVictims i = (if maxEntries i \<le> 0 then [] else take (capExcess i) (sort_slice capLess (capRefs i)))"

lemma enforceCap_eq:
  assumes "prefix_inv i"
  shows "enforceCapLocked i =
    (dropAll (map capIdent (capVictims i)) i, fold ctr_inc (map cr_algo (capVictims i)) [])"
proof (cases "maxEntries i \<le> 0 \<or> totalEntries i - reservedEntries i \<le> maxEntries i")
  case True
  then show ?thesis by (auto simp: enforceCapLocked_def capVictims_def capExcess_def Let_def)
next
  case False
  have "distinct (map capIdent (sort_slice capLess (capRefs i)))"
    using distinct_capRefs [OF assms] by simp
  from capLoop_eq [OF assms this, of "[]"] False show ?thesis
    using capRefs_held [OF assms] by (auto simp: enforceCapLocked_def capVictims_def Let_def)
qed

lemma capVictims_sub: "set (capVictims i) \<subseteq> set (capRefs i)"
  using set_take_subset [of "capExcess i" "sort_slice capLess (capRefs i)"]
  by (auto simp: capVictims_def)

lemma length_capVictims:
  "prefix_inv i \<Longrightarrow> 0 < maxEntries i \<Longrightarrow> length (capVictims i) = capExcess i"
  using length_capRefs [of i] by (simp add: capVictims_def capExcess_def)

lemma distinct_capVictims: "prefix_inv i \<Longrightarrow> distinct (map capIdent (capVictims i))"
  using distinct_capRefs [of i]
  by (simp add: capVictims_def take_map [symmetric] distinct_take)

text \<open>After the sweep the entries outside the reserved tenants are within the cap.\<close>

lemma enforceCap_exact:
  assumes "prefix_inv i" and "0 < maxEntries i"
  shows "totalEntries (fst (enforceCapLocked i)) - reservedEntries (fst (enforceCapLocked i)) =
    min (maxEntries i) (totalEntries i - reservedEntries i)"
proof -
  let ?xs = "map capIdent (capVictims i)"
  have "\<forall>(k, r) \<in> set ?xs. held i k r \<noteq> None \<and> \<not> isReservedTenant i (pk_tenant k)"
    using capRefs_held [OF assms(1)] capVictims_sub [of i] by (fastforce simp: capIdent_def)
  then have "totalEntries (dropAll ?xs i) = totalEntries i - int (capExcess i)"
    and "filter (\<lambda>(k, r). isReservedTenant i (pk_tenant k)) ?xs = [] \<Longrightarrow>
      reservedEntries (dropAll ?xs i) = reservedEntries i"
    and "filter (\<lambda>(k, r). isReservedTenant i (pk_tenant k)) ?xs = []"
    using dropAll_counts [OF assms(1) distinct_capVictims [OF assms(1)]] length_capVictims [OF assms]
    by (fastforce simp: filter_empty_conv)+
  then show ?thesis by (simp add: enforceCap_eq [OF assms(1)] capExcess_def)
qed

lemma enforceCap_bound:
  assumes "prefix_inv i" and "0 < maxEntries i"
  shows "totalEntries (fst (enforceCapLocked i)) - reservedEntries (fst (enforceCapLocked i))
           \<le> maxEntries i"
  using enforceCap_exact [OF assms] by simp

text \<open>A survivor is never before a victim in the victim order.\<close>

lemma capVictims_first:
  assumes "v \<in> set (capVictims i)" and "x \<in> set (capRefs i)" and "x \<notin> set (capVictims i)"
  shows "capRank v \<le> capRank x"
proof -
  let ?s = "sort_slice capLess (capRefs i)" and ?n = "capExcess i"
  have v: "v \<in> set (take ?n ?s)" using assms(1) by (auto simp: capVictims_def split: if_splits)
  then have "maxEntries i > 0" using assms(1) by (auto simp: capVictims_def split: if_splits)
  then have "x \<in> set (drop ?n ?s)"
    using assms(2,3) by (simp add: capVictims_def)
      (metis UnE append_take_drop_id set_append set_sort_slice)
  moreover have "sorted_wrt (\<lambda>a b. capRank a \<le> capRank b) (take ?n ?s @ drop ?n ?s)"
    using cap.sorted_rank [of "capRefs i"] by simp
  ultimately show ?thesis using v by (simp only: sorted_wrt_append)
qed

subsection \<open>The cap does not depend on the iteration order\<close>

text \<open>
  Two indexes with the same entries, however their maps are ordered, and the same settings
  lose the same entries.
\<close>

definition same_entries :: "Index \<Rightarrow> Index \<Rightarrow> bool" where
  "same_entries i j \<longleftrightarrow>
     (\<forall>k r. held i k r = held j k r) \<and> maxEntries i = maxEntries j \<and>
     reservedTenants i = reservedTenants j \<and> evictionResolver i = evictionResolver j"

lemma mset_entriesOf:
  assumes "prefix_inv i" and "prefix_inv j" and "\<forall>k r. held i k r = held j k r"
  shows "mset (entriesOf i) = mset (entriesOf j)"
proof -
  have "set (entriesOf i) = set (entriesOf j)"
    using set_entriesOf [OF assms(1)] set_entriesOf [OF assms(2)] assms(3) by auto
  moreover have "distinct (entriesOf i)" "distinct (entriesOf j)"
    using distinct_entriesOf [OF assms(1)] distinct_entriesOf [OF assms(2)] by (simp_all add: distinct_map)
  ultimately show ?thesis by (simp add: set_eq_iff_mset_eq_distinct)
qed

lemma mset_capRefs:
  assumes "prefix_inv i" and "prefix_inv j" and "same_entries i j"
  shows "mset (capRefs i) = mset (capRefs j)"
proof -
  have "capRefOf i = capRefOf j"
    and "(\<lambda>(k, r, e). \<not> isReservedTenant i (pk_tenant k)) =
      (\<lambda>(k, r :: string, e :: replicaEntry). \<not> isReservedTenant j (pk_tenant k))"
    using assms(3) by (auto simp: same_entries_def fun_eq_iff capRefOf_def evictionFor_def isReservedTenant_def)
  then show ?thesis
    using mset_entriesOf [OF assms(1,2)] assms(3) by (simp add: capRefs_eq same_entries_def)
qed

lemma capVictims_perm:
  assumes "prefix_inv i" and "prefix_inv j" and "same_entries i j"
  shows "capVictims i = capVictims j"
proof -
  note m = mset_capRefs [OF assms]
  have "inj_on capIdent (set (capRefs i))" using distinct_capRefs [OF assms(1)] by (simp add: distinct_map)
  then have "inj_on capRank (set (capRefs i))"
    by (auto simp: inj_on_def capIdent_def capRank_def)
  with m have "sort_slice capLess (capRefs i) = sort_slice capLess (capRefs j)"
    by (rule cap.sort_perm_rank)
  moreover have "length (capRefs i) = length (capRefs j)" using m by (rule mset_eq_length)
  then have "capExcess i = capExcess j"
    using length_capRefs [OF assms(1)] length_capRefs [OF assms(2)] assms(3)
    by (simp add: capExcess_def same_entries_def)
  ultimately show ?thesis using assms(3) by (simp add: capVictims_def same_entries_def)
qed

subsection \<open>What the quota removes\<close>

lemma held_keys:
  assumes "prefix_inv i"
  shows "k \<in> set (map fst (prefixes i)) \<longleftrightarrow> (\<exists>r. held i k r \<noteq> None)"
proof (cases "map_of (prefixes i) k")
  case None
  then have "held i k r = None" for r by (simp add: gm_map_def)
  with None show ?thesis by (simp add: map_of_eq_None_iff)
next
  case (Some rs)
  then obtain r e m where "rs = (r, e) # m"
    using prefix_inv_inner_ne [OF assms Some] by (cases rs) auto
  with Some have "held i k r \<noteq> None" by (simp add: gm_map_def)
  moreover have "k \<in> set (map fst (prefixes i))" using Some by (simp add: mem_keys)
  ultimately show ?thesis by blast
qed

lemma tenant_card:
  assumes "prefix_inv i"
  shows "gm_int (prefixesByTenant i) t = int (card {k. pk_tenant k = t \<and> (\<exists>r. held i k r \<noteq> None)})"
proof -
  have "wsum (w_tenant t) m = length (filter (\<lambda>k. pk_tenant k = t) (map fst m))"
    for m :: "(prefixKey, (string, replicaEntry) gomap) gomap"
    by (induction m) (auto simp: w_tenant_def)
  moreover have "distinct (map fst (prefixes i))" using assms by (simp add: prefix_inv_def gm_wf_def)
  ultimately have "wsum (w_tenant t) (prefixes i) = card (set (filter (\<lambda>k. pk_tenant k = t) (map fst (prefixes i))))"
    by (simp only: distinct_card [OF distinct_filter])
  moreover have "set (filter (\<lambda>k. pk_tenant k = t) (map fst (prefixes i))) =
      {k. pk_tenant k = t \<and> (\<exists>r. held i k r \<noteq> None)}"
    unfolding set_filter using held_keys [OF assms] by blast
  moreover have "tracks (prefixesByTenant i) (\<lambda>t. wsum (w_tenant t) (prefixes i))"
    using assms by (simp add: prefix_inv_def)
  ultimately show ?thesis by (simp only: tracks_gm_int)
qed

lemma finite_keys: "finite {k. pk_tenant k = t \<and> (\<exists>r. held i k r \<noteq> None)}"
  by (rule finite_subset [of _ "fst ` set (prefixes i)"]) (auto dest: held_key simp: mem_keys)

lemma dropPrefix_eq: "dropPrefix i key = dropAll (map (Pair key) (map fst (gm_map (prefixes i) key))) i"
  unfolding dropPrefix_def dropAll_def fold_map by (simp add: comp_def)

lemma held_dropPrefix: "held (dropPrefix i key) k r = (if k = key then None else held i k r)"
proof -
  have "(k, r) \<in> set (map (Pair key) (map fst (gm_map (prefixes i) key))) \<longleftrightarrow>
      k = key \<and> held i key r \<noteq> None"
    by (simp only: set_map mem_keys [symmetric]) auto
  then show ?thesis by (auto simp: dropPrefix_eq held_dropAll simp del: set_map)
qed

lemma prefix_inv_dropAll: "prefix_inv i \<Longrightarrow> prefix_inv (dropAll xs i)"
  by (induction xs arbitrary: i) (auto simp: prefix_inv_remove split: prod.splits)

lemma prefix_inv_dropPrefix: "prefix_inv i \<Longrightarrow> prefix_inv (dropPrefix i key)"
  unfolding dropPrefix_eq by (rule prefix_inv_dropAll)

lemma dropPrefix_tenant:
  assumes "prefix_inv i" and "held i key r \<noteq> None"
  shows "gm_int (prefixesByTenant (dropPrefix i key)) t =
    gm_int (prefixesByTenant i) t - of_bool (t = pk_tenant key)"
proof -
  let ?K = "{k. pk_tenant k = t \<and> (\<exists>r. held i k r \<noteq> None)}"
  have inv: "prefix_inv (dropPrefix i key)" by (rule prefix_inv_dropPrefix [OF assms(1)])
  have "{k. pk_tenant k = t \<and> (\<exists>r. held (dropPrefix i key) k r \<noteq> None)} = ?K - {key}"
    by (auto simp: held_dropPrefix)
  moreover have "int (card (?K - {key})) = int (card ?K) - of_bool (t = pk_tenant key)"
  proof (cases "t = pk_tenant key")
    case True
    then have "key \<in> ?K" using assms(2) by auto
    then have "card ?K = Suc (card (?K - {key}))" by (rule card.remove [OF finite_keys])
    then show ?thesis using True by simp
  qed simp
  ultimately show ?thesis by (simp only: tenant_card [OF inv] tenant_card [OF assms(1)])
qed

definition quotaRank :: "quotaRef \<Rightarrow> gotime \<times> string \<times> string \<times> string \<times> string" where
  "quotaRank a =
     (qr_age a, pk_model (qr_key a), pk_hashScheme (qr_key a), pk_adapter (qr_key a),
      pk_prefixHash (qr_key a))"

interpretation quota: ranked_order quotaLess quotaRank
  by unfold_locales (auto simp: quotaLess_def quotaRank_def Let_def)

lemma quotaRefs_eq:
  "quotaRefs i tenant = map (\<lambda>(k, rs). \<lparr>qr_key = k, qr_age = newestSeen rs\<rparr>)
     (filter (\<lambda>(k, rs). pk_tenant k = tenant) (prefixes i))"
proof -
  have "concat (map (\<lambda>(key, replicas). if pk_tenant key \<noteq> tenant then []
      else [\<lparr>qr_key = key, qr_age = newestSeen replicas\<rparr>]) m) =
    map (\<lambda>(k, rs). \<lparr>qr_key = k, qr_age = newestSeen rs\<rparr>) (filter (\<lambda>(k, rs). pk_tenant k = tenant) m)"
    for m by (induction m) auto
  then show ?thesis by (simp add: quotaRefs_def)
qed

lemma quotaRefs_keys: "map qr_key (quotaRefs i tenant) = filter (\<lambda>k. pk_tenant k = tenant) (map fst (prefixes i))"
  by (simp add: quotaRefs_eq filter_map comp_def case_prod_beta')

lemma distinct_quotaRefs: "prefix_inv i \<Longrightarrow> distinct (map qr_key (quotaRefs i tenant))"
  unfolding quotaRefs_keys by (rule distinct_filter) (simp add: prefix_inv_def gm_wf_def)

lemma set_quotaRefs:
  assumes "prefix_inv i"
  shows "qr_key ` set (quotaRefs i tenant) = {k. pk_tenant k = tenant \<and> (\<exists>r. held i k r \<noteq> None)}"
proof -
  have "qr_key ` set (quotaRefs i tenant) = set (map qr_key (quotaRefs i tenant))" by simp
  also have "\<dots> = {k. pk_tenant k = tenant \<and> (\<exists>r. held i k r \<noteq> None)}"
    unfolding quotaRefs_keys set_filter using held_keys [OF assms] by blast
  finally show ?thesis .
qed

lemma length_quotaRefs:
  assumes "prefix_inv i"
  shows "int (length (quotaRefs i tenant)) = gm_int (prefixesByTenant i) tenant"
  using distinct_card [OF distinct_quotaRefs [OF assms, of tenant]]
  by (simp add: set_quotaRefs [OF assms] tenant_card [OF assms])

definition dropKeys :: "prefixKey list \<Rightarrow> Index \<Rightarrow> Index" where
  "dropKeys ks i = fold (\<lambda>k j. dropPrefix j k) ks i"

lemma held_dropKeys: "held (dropKeys ks i) k r = (if k \<in> set ks then None else held i k r)"
  unfolding dropKeys_def by (induction ks arbitrary: i) (auto simp: held_dropPrefix)

lemma idx_inv_dropKeys: "idx_inv i \<Longrightarrow> idx_inv (dropKeys ks i)"
  unfolding dropKeys_def
  by (induction ks arbitrary: i) (auto simp: dropPrefix_eq idx_inv_dropAll simp del: map_map)

definition quotaExcess :: "Index \<Rightarrow> string \<Rightarrow> int \<Rightarrow> nat" where
  "quotaExcess i tenant maxPrefixes = nat (gm_int (prefixesByTenant i) tenant - maxPrefixes)"

lemma quotaLoop_eq:
  assumes "prefix_inv i" and "distinct (map qr_key rs)"
    and "\<forall>x \<in> set rs. pk_tenant (qr_key x) = tenant \<and> (\<exists>r. held i (qr_key x) r \<noteq> None)"
  shows "quotaLoop i tenant m rs n =
    (dropKeys (map qr_key (take (quotaExcess i tenant m) rs)) i,
     n + int (length (take (quotaExcess i tenant m) rs)))"
  using assms
proof (induction rs arbitrary: i n)
  case (Cons x rs)
  show ?case
  proof (cases "gm_int (prefixesByTenant i) tenant \<le> m")
    case True
    then show ?thesis by (simp add: quotaExcess_def dropKeys_def)
  next
    case False
    let ?i = "dropPrefix i (qr_key x)"
    obtain r where r: "held i (qr_key x) r \<noteq> None" and t: "pk_tenant (qr_key x) = tenant"
      using Cons.prems by auto
    have ex: "quotaExcess i tenant m = Suc (quotaExcess ?i tenant m)"
      using False t by (simp add: quotaExcess_def dropPrefix_tenant [OF Cons.prems(1) r])
    have "\<forall>y \<in> set rs. pk_tenant (qr_key y) = tenant \<and> (\<exists>r. held ?i (qr_key y) r \<noteq> None)"
    proof
      fix y
      assume y: "y \<in> set rs"
      then have "qr_key y \<noteq> qr_key x" using Cons.prems(2) by (metis distinct.simps(2) image_eqI list.simps(9) set_map)
      with y Cons.prems(3) show "pk_tenant (qr_key y) = tenant \<and> (\<exists>r. held ?i (qr_key y) r \<noteq> None)"
        by (simp add: held_dropPrefix)
    qed
    then have "quotaLoop ?i tenant m rs (n + 1) =
        (dropKeys (map qr_key (take (quotaExcess ?i tenant m) rs)) ?i,
         n + 1 + int (length (take (quotaExcess ?i tenant m) rs)))"
      using Cons.prems by (intro Cons.IH prefix_inv_dropPrefix) auto
    then show ?thesis using False by (simp add: ex dropKeys_def)
  qed
qed (simp add: dropKeys_def)

definition quotaVictims :: "Index \<Rightarrow> string \<Rightarrow> int \<Rightarrow> quotaRef list" where
  "quotaVictims i tenant m =
     (if m < 0 then [] else take (quotaExcess i tenant m) (sort_slice quotaLess (quotaRefs i tenant)))"

lemma evictOldest_eq:
  assumes "prefix_inv i"
  shows "evictOldestForTenantLocked i tenant m =
    (dropKeys (map qr_key (quotaVictims i tenant m)) i, int (length (quotaVictims i tenant m)))"
proof (cases "m < 0 \<or> gm_int (prefixesByTenant i) tenant \<le> m")
  case True
  then show ?thesis
    by (auto simp: evictOldestForTenantLocked_def quotaVictims_def quotaExcess_def dropKeys_def)
next
  case False
  have "\<forall>x \<in> set (quotaRefs i tenant). pk_tenant (qr_key x) = tenant \<and> (\<exists>r. held i (qr_key x) r \<noteq> None)"
    using set_quotaRefs [OF assms, of tenant] by blast
  then show ?thesis using False distinct_quotaRefs [OF assms, of tenant]
    by (simp add: evictOldestForTenantLocked_def quotaVictims_def quotaLoop_eq [OF assms])
qed

lemma length_quotaVictims:
  assumes "prefix_inv i" and "0 \<le> m"
  shows "int (length (quotaVictims i tenant m)) = max 0 (gm_int (prefixesByTenant i) tenant - m)"
  using assms(2) length_quotaRefs [OF assms(1), of tenant]
  by (simp add: quotaVictims_def quotaExcess_def)

lemma quota_bound:
  assumes "prefix_inv i" and "0 \<le> m"
  shows "gm_int (prefixesByTenant (fst (evictOldestForTenantLocked i tenant m))) tenant =
    min m (gm_int (prefixesByTenant i) tenant)"
proof -
  let ?vs = "map qr_key (quotaVictims i tenant m)" and ?K = "{k. pk_tenant k = tenant \<and> (\<exists>r. held i k r \<noteq> None)}"
  have inv: "prefix_inv (dropKeys ks i)" for ks
    unfolding dropKeys_def using assms(1)
    by (induction ks arbitrary: i) (auto simp: prefix_inv_dropPrefix)
  have d: "distinct ?vs"
    using distinct_quotaRefs [OF assms(1), of tenant]
    by (simp add: quotaVictims_def take_map [symmetric] distinct_take)
  have "set ?vs \<subseteq> qr_key ` set (quotaRefs i tenant)"
    using set_take_subset [of _ "sort_slice quotaLess (quotaRefs i tenant)"]
    by (auto simp: quotaVictims_def)
  then have sub: "set ?vs \<subseteq> ?K" by (simp only: set_quotaRefs [OF assms(1)])
  have "{k. pk_tenant k = tenant \<and> (\<exists>r. held (dropKeys ?vs i) k r \<noteq> None)} = ?K - set ?vs"
    by (auto simp: held_dropKeys)
  then have "gm_int (prefixesByTenant (dropKeys ?vs i)) tenant = int (card (?K - set ?vs))"
    by (simp only: tenant_card [OF inv])
  also have "\<dots> = int (card ?K) - int (length ?vs)"
    using card_mono [OF finite_keys sub]
    by (simp only: card_Diff_subset [OF finite_set sub] distinct_card [OF d] of_nat_diff)
  also have "\<dots> = gm_int (prefixesByTenant i) tenant - max 0 (gm_int (prefixesByTenant i) tenant - m)"
    using length_quotaVictims [OF assms, of tenant] tenant_card [OF assms(1), of tenant] by simp
  finally show ?thesis by (simp add: evictOldest_eq [OF assms(1)])
qed

lemma quotaVictims_sub: "set (quotaVictims i tenant m) \<subseteq> set (quotaRefs i tenant)"
  using set_take_subset [of _ "sort_slice quotaLess (quotaRefs i tenant)"]
  by (auto simp: quotaVictims_def)

lemma quotaVictims_oldest:
  assumes "v \<in> set (quotaVictims i tenant m)" and "x \<in> set (quotaRefs i tenant)"
    and "x \<notin> set (quotaVictims i tenant m)"
  shows "quotaRank v \<le> quotaRank x"
proof -
  let ?s = "sort_slice quotaLess (quotaRefs i tenant)" and ?n = "quotaExcess i tenant m"
  have "0 \<le> m" and v: "v \<in> set (take ?n ?s)"
    using assms(1) by (auto simp: quotaVictims_def split: if_splits)
  then have "x \<in> set (drop ?n ?s)"
    using assms(2,3) by (simp add: quotaVictims_def)
      (metis UnE append_take_drop_id set_append set_sort_slice)
  moreover have "sorted_wrt (\<lambda>a b. quotaRank a \<le> quotaRank b) (take ?n ?s @ drop ?n ?s)"
    using quota.sorted_rank [of "quotaRefs i tenant"] by simp
  ultimately show ?thesis using v by (simp only: sorted_wrt_append)
qed

lemma held_evictOldest_other:
  assumes "prefix_inv i" and "pk_tenant k \<noteq> tenant"
  shows "held (fst (evictOldestForTenantLocked i tenant m)) k r = held i k r"
proof -
  have "qr_key ` set (quotaVictims i tenant m) \<subseteq> {k. pk_tenant k = tenant}"
    using image_mono [OF quotaVictims_sub, of qr_key i tenant m] set_quotaRefs [OF assms(1), of tenant]
    by blast
  then show ?thesis using assms by (auto simp: evictOldest_eq held_dropKeys)
qed

lemma dropKeys_frame [simp]:
  "stats (dropKeys ks i) = stats i"
  "maxEntries (dropKeys ks i) = maxEntries i"
  "reservedTenants (dropKeys ks i) = reservedTenants i"
  "metrics (dropKeys ks i) = metrics i"
  "reportedModels (dropKeys ks i) = reportedModels i"
  "ttlResolver (dropKeys ks i) = ttlResolver i"
  "quotaResolver (dropKeys ks i) = quotaResolver i"
  "evictionResolver (dropKeys ks i) = evictionResolver i"
  "ttl (dropKeys ks i) = ttl i"
  unfolding dropKeys_def by (induction ks arbitrary: i) (auto simp: dropPrefix_eq simp del: map_map)

subsection \<open>Reports leave the entries alone\<close>

lemma emitCalls_frame [simp]:
  "prefixes (emitCalls cs i) = prefixes i"
  "stats (emitCalls cs i) = stats i"
  "reservedTenants (emitCalls cs i) = reservedTenants i"
  "reportedModels (emitCalls cs i) = reportedModels i"
  "maxEntries (emitCalls cs i) = maxEntries i"
  "totalEntries (emitCalls cs i) = totalEntries i"
  "reservedEntries (emitCalls cs i) = reservedEntries i"
  "prefixesByTenant (emitCalls cs i) = prefixesByTenant i"
  "prefixesByTenantModel (emitCalls cs i) = prefixesByTenantModel i"
  "servingByScope (emitCalls cs i) = servingByScope i"
  "replicasByModel (emitCalls cs i) = replicasByModel i"
  "nextEntry (emitCalls cs i) = nextEntry i"
  by (simp_all add: emitCalls_def split: option.splits)

lemma reportEntries_frame [simp]:
  "prefixes (reportEntries i) = prefixes i"
  "stats (reportEntries i) = stats i"
  "reservedTenants (reportEntries i) = reservedTenants i"
  "maxEntries (reportEntries i) = maxEntries i"
  "totalEntries (reportEntries i) = totalEntries i"
  "reservedEntries (reportEntries i) = reservedEntries i"
  "prefixesByTenant (reportEntries i) = prefixesByTenant i"
  "prefixesByTenantModel (reportEntries i) = prefixesByTenantModel i"
  "servingByScope (reportEntries i) = servingByScope i"
  "replicasByModel (reportEntries i) = replicasByModel i"
  "nextEntry (reportEntries i) = nextEntry i"
  by (simp_all add: reportEntries_def Let_def split: option.splits)

lemma idx_inv_emitCalls: "idx_inv i \<Longrightarrow> idx_inv (emitCalls cs i)"
  unfolding idx_inv_def
  by (rule conjI [OF prefix_inv_cong [THEN iffD2, of _ i] stats_inv_cong [THEN iffD2, of _ i]]) auto

lemma idx_inv_report: "idx_inv i \<Longrightarrow> idx_inv (reportEntries i)"
  unfolding idx_inv_def
  by (rule conjI [OF prefix_inv_cong [THEN iffD2, of _ i] stats_inv_cong [THEN iffD2, of _ i]]) auto

subsection \<open>The whole sweep\<close>

lemma expired_cong:
  "ttl j = ttl i \<Longrightarrow> ttlResolver j = ttlResolver i \<Longrightarrow> expired j now = expired i now"
  by (auto simp: expired_def ttlFor_def fun_eq_iff split: option.splits)

lemma evictExpired_spec:
  assumes "idx_inv i"
  shows "idx_inv (evictExpired i now)"
    and "held (evictExpired i now) k r =
      (case held i k r of None \<Rightarrow> None
       | Some e \<Rightarrow> if expired i now (pk_tenant k) (re_lastSeen e) then None else Some e)"
    and "map_of (stats (evictExpired i now)) sk =
      (case map_of (stats i) sk of None \<Rightarrow> None
       | Some s \<Rightarrow> if expired i now (sk_tenant sk) (se_lastSeen s) then None else Some s)"
proof -
  let ?j = "fst (sweepPrefixes i now)"
  have inv: "idx_inv ?j" using idx_inv_dropAll [OF assms] by (simp add: sweepPrefixes_eq)
  have st: "stats ?j = stats i" by (simp add: sweepPrefixes_eq)
  have ex: "expired ?j now = expired i now" by (rule expired_cong) (simp_all add: sweepPrefixes_eq)
  note s = sweepStats_spec [OF inv, of now]
  have eq: "evictExpired i now = reportEntries (emitCalls
      (map (\<lambda>(algo, n). AddIndexEvictions algo indexEvictionReasonTTL n) (snd (sweepPrefixes i now)))
      (sweepStats ?j now))"
    by (simp add: evictExpired_def case_prod_beta Let_def)
  show "idx_inv (evictExpired i now)"
    unfolding eq by (intro idx_inv_report idx_inv_emitCalls s(1))
  show "held (evictExpired i now) k r =
      (case held i k r of None \<Rightarrow> None
       | Some e \<Rightarrow> if expired i now (pk_tenant k) (re_lastSeen e) then None else Some e)"
    using held_sweepPrefixes [of i now k r] assms by (simp add: eq s(2) idx_inv_def)
  show "map_of (stats (evictExpired i now)) sk =
      (case map_of (stats i) sk of None \<Rightarrow> None
       | Some s \<Rightarrow> if expired i now (sk_tenant sk) (se_lastSeen s) then None else Some s)"
    using s(3) [of sk] unfolding st ex by (simp add: eq)
qed

end
