(* ===== verification/Gauge.thy ===== *)
theory Gauge
  imports Eviction
begin

text \<open>
  The per-model entry gauge (\<open>EntryCountsByModel\<close>, \<open>reportEntries\<close> of
  \<open>internal/index/accounting.go\<close>): after every report the gauge a sink shows is the number of
  live prefixes of the model outside the reserved tenants, models that drained included.
\<close>

subsection \<open>The entry gauge\<close>

text \<open>The value of the per-model gauge a sink shows after a sequence of calls.\<close>

fun gaugeStep :: "string \<Rightarrow> MetricCall \<Rightarrow> int \<Rightarrow> int" where
  "gaugeStep model (SetIndexEntries m n) g = (if m = model then n else g)"
| "gaugeStep model (AddTenantEvictions t reason n) g = g"
| "gaugeStep model (AddIndexEvictions a reason n) g = g"

definition gaugeValue :: "MetricCall list \<Rightarrow> string \<Rightarrow> int" where
  "gaugeValue calls model = fold (gaugeStep model) calls 0"

definition liveKeys :: "Index \<Rightarrow> string \<Rightarrow> nat" where
  "liveKeys i model =
     length (filter (\<lambda>k. pk_model k = model \<and> \<not> isReservedTenant i (pk_tenant k)) (map fst (prefixes i)))"

lemma EntryCounts_tracks: "tracks (EntryCountsByModel i) (liveKeys i)"
proof -
  let ?ks = "map pk_model (filter (\<lambda>k. \<not> isReservedTenant i (pk_tenant k)) (map fst (prefixes i)))"
  have "fold (\<lambda>(key, _) counts.
      if isReservedTenant i (pk_tenant key) then counts else ctr_inc (pk_model key) counts) m c =
    fold ctr_inc (map pk_model (filter (\<lambda>k. \<not> isReservedTenant i (pk_tenant k)) (map fst m))) c"
    for m :: "(prefixKey, (string, replicaEntry) gomap) gomap" and c
    by (induction m arbitrary: c) auto
  then have "EntryCountsByModel i = fold ctr_inc ?ks []" by (simp add: EntryCountsByModel_def)
  moreover have "count_list (map pk_model (filter (\<lambda>k. \<not> isReservedTenant i (pk_tenant k)) ks)) model =
    length (filter (\<lambda>k. pk_model k = model \<and> \<not> isReservedTenant i (pk_tenant k)) ks)" for ks model
    by (induction ks) auto
  ultimately show ?thesis
    using flat.rep_fold_inc [OF tracks_Nil, of ?ks] by (simp add: liveKeys_def [abs_def] del: map_map)
qed

text \<open>Every model with a nonzero gauge is remembered in \<open>reportedModels\<close>, so that it can be zeroed.\<close>

definition gauge_inv :: "Index \<Rightarrow> bool" where
  "gauge_inv i \<longleftrightarrow>
     (case metrics i of None \<Rightarrow> True
      | Some calls \<Rightarrow> \<forall>m. gaugeValue calls m \<noteq> 0 \<longrightarrow> map_of (reportedModels i) m \<noteq> None)"

lemma gaugeValue_append:
  "gaugeValue (calls @ map (\<lambda>(m, n). SetIndexEntries m (f m n)) xs) m =
     (if m \<in> fst ` set xs then gaugeValue (map (\<lambda>(m, n). SetIndexEntries m (f m n)) xs) m
      else gaugeValue calls m)"
proof -
  have "fold (gaugeStep m) (map (\<lambda>(m, n). SetIndexEntries m (f m n)) xs) g =
      (if m \<in> fst ` set xs then fold (gaugeStep m) (map (\<lambda>(m, n). SetIndexEntries m (f m n)) xs) 0
       else g)" for g
  proof (induction xs arbitrary: g)
    case (Cons x xs)
    obtain k n where x: "x = (k, n)" by (cases x)
    show ?case
    proof (cases "m \<in> fst ` set xs")
      case True
      then show ?thesis using Cons [of "f k n"] Cons [of g] Cons [of 0] x by simp
    next
      case False
      then show ?thesis using Cons [of "f k n"] Cons [of g] Cons [of 0] x by simp
    qed
  qed simp
  from this [of "fold (gaugeStep m) calls 0"] show ?thesis
    by (simp only: gaugeValue_def fold_append comp_def)
qed

lemma gaugeValue_set:
  assumes "gm_wf xs"
  shows "gaugeValue (map (\<lambda>(m, n). SetIndexEntries m (f m n)) xs) m =
    (case map_of xs m of None \<Rightarrow> 0 | Some n \<Rightarrow> f m n)"
  using assms
proof (induction xs rule: rev_induct)
  case Nil
  show ?case by (simp add: gaugeValue_def)
next
  case (snoc x xs)
  obtain k n where x: "x = (k, n)" by (cases x)
  have "k \<notin> fst ` set xs" "gm_wf xs" using snoc.prems x by (auto simp: gm_wf_def)
  then have "map_of xs k = None" by (simp add: map_of_eq_None_iff)
  with snoc x \<open>gm_wf xs\<close> show ?case by (auto simp: gaugeValue_def map_add_def split: option.splits)
qed

lemma gaugeValue_zeros: "gaugeValue (map (\<lambda>(m, _). SetIndexEntries m 0) xs) m = 0"
  by (induction xs rule: rev_induct) (auto simp: gaugeValue_def)

lemma reportEntries_gauge:
  assumes "gauge_inv i" and "metrics i = Some calls" and "metrics (reportEntries i) = Some calls'"
  shows "gaugeValue calls' m = int (liveKeys i m)"
proof -
  let ?c = "EntryCountsByModel i"
  let ?dr = "filter (\<lambda>(m, _). map_of ?c m = None) (reportedModels i)"
  let ?z = "map (\<lambda>(m, _). SetIndexEntries m 0) ?dr"
  note t = EntryCounts_tracks [of i]
  have wf: "gm_wf ?c" using t by (simp add: tracks_def)
  have calls': "calls' = (calls @ ?z) @ map (\<lambda>(m, n). SetIndexEntries m n) ?c"
    using assms(2,3) by (simp add: reportEntries_def Let_def)
  show ?thesis
  proof (cases "liveKeys i m = 0")
    case False
    then have "m \<in> fst ` set ?c" using tracks_mem [OF t] by simp
    moreover have "gaugeValue (map (\<lambda>(m, n). SetIndexEntries m n) ?c) m = int (liveKeys i m)"
      using gaugeValue_set [OF wf, of "\<lambda>m n. n" m] t False by (simp add: tracks_def)
    ultimately show ?thesis
      unfolding calls' gaugeValue_append [where f = "\<lambda>m n. n"] by simp
  next
    case True
    then have "m \<notin> fst ` set ?c" using tracks_mem [OF t] by simp
    then have g: "gaugeValue calls' m = gaugeValue (calls @ ?z) m"
      unfolding calls' gaugeValue_append [where f = "\<lambda>m n. n"] by simp
    have z: "gaugeValue ?z m = 0" by (rule gaugeValue_zeros)
    have "gaugeValue calls m = 0" if "m \<notin> fst ` set ?dr"
    proof (rule ccontr)
      assume "gaugeValue calls m \<noteq> 0"
      then have "map_of (reportedModels i) m = Some ()" using assms(1,2) by (simp add: gauge_inv_def)
      then have "(m, ()) \<in> set (reportedModels i)" by (rule map_of_SomeD)
      moreover have "map_of ?c m = None" using t True by (simp add: tracks_def)
      ultimately show False using that by (force simp: image_iff)
    qed
    then show ?thesis
      unfolding g gaugeValue_append [where f = "\<lambda>m n. 0"] using True z by simp
  qed
qed

lemma keys_fold_update:
  "fst ` set (fold (\<lambda>(m, _). AList.update m ()) xs acc) = fst ` set xs \<union> fst ` set acc"
  by (induction xs arbitrary: acc) (simp_all add: keys_update case_prod_beta)

lemma gauge_inv_report:
  assumes "gauge_inv i"
  shows "gauge_inv (reportEntries i)"
proof (cases "metrics i")
  case None
  then show ?thesis by (simp add: gauge_inv_def reportEntries_def)
next
  case (Some calls)
  then obtain calls' where c: "metrics (reportEntries i) = Some calls'"
    by (simp add: reportEntries_def Let_def)
  have "map_of (reportedModels (reportEntries i)) m \<noteq> None" if "liveKeys i m \<noteq> 0" for m
  proof -
    have "m \<in> fst ` set (EntryCountsByModel i)"
      using that tracks_mem [OF EntryCounts_tracks [of i]] by simp
    then have "m \<in> fst ` set (reportedModels (reportEntries i))"
      using Some by (simp add: reportEntries_def Let_def keys_fold_update)
    then show ?thesis by (simp only: mem_keys not_False_eq_True)
  qed
  then show ?thesis
    using reportEntries_gauge [OF assms Some c] c by (simp add: gauge_inv_def)
qed

text \<open>Eviction counters do not touch the gauge.\<close>

definition evictionCall :: "MetricCall \<Rightarrow> bool" where
  "evictionCall c \<longleftrightarrow> (\<forall>m n. c \<noteq> SetIndexEntries m n)"

lemma gauge_inv_emit:
  assumes "gauge_inv i" and "\<forall>c \<in> set cs. evictionCall c"
  shows "gauge_inv (emitCalls cs i)"
proof -
  have "fold (gaugeStep m) cs g = g" for m g
    using assms(2)
  proof (induction cs arbitrary: g)
    case (Cons c cs)
    then show ?case by (cases c) (auto simp: evictionCall_def)
  qed simp
  then have "gaugeValue (calls @ cs) = gaugeValue calls" for calls
    by (simp add: gaugeValue_def fun_eq_iff)
  then show ?thesis
    using assms(1) by (auto simp: gauge_inv_def emitCalls_def split: option.splits)
qed

lemma gauge_inv_cong:
  "metrics j = metrics i \<Longrightarrow> reportedModels j = reportedModels i \<Longrightarrow> gauge_inv j = gauge_inv i"
  by (cases "metrics i") (simp_all add: gauge_inv_def)

text \<open>What a sink shows is what the index holds.\<close>

definition gauge_exact :: "Index \<Rightarrow> bool" where
  "gauge_exact i \<longleftrightarrow>
     (case metrics i of None \<Rightarrow> True | Some calls \<Rightarrow> \<forall>m. gaugeValue calls m = int (liveKeys i m))"

lemma liveKeys_report: "liveKeys (reportEntries i) = liveKeys i"
  by (simp add: liveKeys_def isReservedTenant_def fun_eq_iff)

lemma gauge_exact_report: "gauge_inv i \<Longrightarrow> gauge_exact (reportEntries i)"
proof (cases "metrics i")
  case (Some calls)
  then obtain calls' where "metrics (reportEntries i) = Some calls'"
    by (simp add: reportEntries_def Let_def)
  moreover assume "gauge_inv i"
  ultimately show ?thesis using reportEntries_gauge [of i] Some by (simp add: gauge_exact_def liveKeys_report)
qed (simp add: gauge_exact_def reportEntries_def)

end
