(* ===== verification/Ingest.thy ===== *)
theory Ingest
  imports Gauge
begin

text \<open>
  \<open>internal/index/ingest.go\<close>: \<open>Ingest\<close> (a replica's update, with the quota and the cap
  enforced on the result) and \<open>ApplyEvent\<close>. An update is described by the list of single
  insertions it performs (\<open>ingestOps\<close>), so that what a key holds afterwards is read off the
  last insertion for it.
\<close>

subsection \<open>Updates\<close>

definition normalizeIngestTier :: "CacheTier \<Rightarrow> CacheTier" where
  "normalizeIngestTier t = (if t = TierUnspecified then TierT1 else t)"

text \<open>The expansion of a chain: one entry per block, with the cumulative token count.\<close>

fun ingestChain ::
  "Index \<Rightarrow> Update \<Rightarrow> string \<Rightarrow> CacheTier \<Rightarrow> gotime \<Rightarrow> int \<Rightarrow> string list \<Rightarrow> int list \<Rightarrow> Index" where
  "ingestChain i u adapter tier ts cumulative (h # hs) (c # cs) =
     (let cumulative = wrap32 (cumulative + c)
      in ingestChain
           (upsertReplicaLocked i (PrefixKey (u_Tenant u) (u_Model u) (u_HashScheme u) adapter h)
              (u_ReplicaID u) cumulative tier ts)
           u adapter tier ts cumulative hs cs)"
| "ingestChain i u adapter tier ts cumulative _ _ = i"

definition ingestPrefix :: "Update \<Rightarrow> gotime \<Rightarrow> PrefixRef \<Rightarrow> Index \<Rightarrow> Index" where
  "ingestPrefix u ts p i =
     (let tier = normalizeIngestTier (pr_Tier p);
          adapter = (if pr_Adapter p = '''' then u_Adapter u else pr_Adapter p);
          legacy = (\<lambda>i. upsertReplicaLocked i
                      (PrefixKey (u_Tenant u) (u_Model u) (u_HashScheme u) adapter (pr_PrefixHash p))
                      (u_ReplicaID u) (pr_TokenCount p) tier ts)
      in if 0 < length (pr_BlockHashes p) \<or> 0 < length (pr_BlockTokenCounts p) then
           (if length (pr_BlockHashes p) \<noteq> length (pr_BlockTokenCounts p) then i
            else
              (let i = ingestChain i u adapter tier ts 0 (pr_BlockHashes p) (pr_BlockTokenCounts p)
               in if 0 < length (pr_PrefixHash p) then legacy i else i))
         else legacy i)"

definition ingestPrefixes :: "Update \<Rightarrow> gotime \<Rightarrow> Index \<Rightarrow> Index" where
  "ingestPrefixes u ts i =
     (if u_HashScheme u \<noteq> '''' then fold (ingestPrefix u ts) (u_Prefixes u) i else i)"

definition ingestStats :: "Update \<Rightarrow> gotime \<Rightarrow> Index \<Rightarrow> Index" where
  "ingestStats u ts i =
     (case u_Stats u of
        None \<Rightarrow> i
      | Some st \<Rightarrow>
          (let st = st\<lparr>rs_ReplicaID := u_ReplicaID u, rs_HitRate := sanitizeRate (rs_HitRate st),
                       rs_Pressure := sanitizeRate (rs_Pressure st)\<rparr>
           in statsScopeAddLocked
                (i\<lparr>stats := AList.update (StatsKey (u_Tenant u) (u_Model u) (u_ReplicaID u))
                      \<lparr>se_stats = st, se_lastSeen = ts, se_statsReported = ts\<rparr> (stats i)\<rparr>)
                (ModelKey (u_Tenant u) (u_Model u)) (u_ReplicaID u)))"

definition Ingest :: "Index \<Rightarrow> gotime \<Rightarrow> Update \<Rightarrow> Index" where
  "Ingest i now u =
     (let ts = (if u_Timestamp u = 0 then now else u_Timestamp u);
          quota = tenantQuotaFor i (u_Tenant u);
          i = ingestPrefixes u ts i;
          i = ingestStats u ts i;
          (i, evictedPrefixes) =
            (case quota of None \<Rightarrow> (i, 0) | Some m \<Rightarrow> evictOldestForTenantLocked i (u_Tenant u) m);
          (i, capEvicted) = enforceCapLocked i;
          i = (if 0 < evictedPrefixes
               then emitCalls [AddTenantEvictions (u_Tenant u) tenantEvictionReasonOverEntries evictedPrefixes] i
               else i);
          i = emitCalls (map (\<lambda>(algo, n). AddIndexEvictions algo indexEvictionReasonCap n) capEvicted) i
      in reportEntries i)"

subsection \<open>Events\<close>

definition ApplyEvent :: "Index \<Rightarrow> gotime \<Rightarrow> Event \<Rightarrow> Index" where
  "ApplyEvent i now ev =
     (let ts = (if ev_Timestamp ev = 0 then now else ev_Timestamp ev);
          hash = ev_PrefixHash ev;
          sk = StatsKey (ev_Tenant ev) (ev_Model ev) (ev_ReplicaID ev);
          i = (case ev_Type ev of
                 EventReplicaUpdated \<Rightarrow>
                   (case map_of (stats i) sk of
                      None \<Rightarrow> i
                    | Some s \<Rightarrow> i\<lparr>stats := AList.update sk (s\<lparr>se_lastSeen := ts\<rparr>) (stats i)\<rparr>)
               | EventPrefixEvicted \<Rightarrow>
                   fold (\<lambda>(key, _) j.
                      if pk_tenant key \<noteq> ev_Tenant ev \<or> pk_model key \<noteq> ev_Model ev \<or>
                         pk_prefixHash key \<noteq> hash then j
                      else if ev_Adapter ev \<noteq> '''' \<and> pk_adapter key \<noteq> ev_Adapter ev then j
                      else removeReplicaLocked j key (ev_ReplicaID ev)) (prefixes i) i
               | EventAllCleared \<Rightarrow>
                   (let j = fold (\<lambda>(key, _) j.
                              if pk_tenant key \<noteq> ev_Tenant ev \<or> pk_model key \<noteq> ev_Model ev then j
                              else removeReplicaLocked j key (ev_ReplicaID ev)) (prefixes i) i
                    in statsScopeRemoveLocked (j\<lparr>stats := AList.delete sk (stats j)\<rparr>)
                         (ModelKey (ev_Tenant ev) (ev_Model ev)) (ev_ReplicaID ev))
               | EventPrefixAdded \<Rightarrow> i)
      in reportEntries i)"

subsection \<open>The insertions of an update\<close>

type_synonym ingestOp = "prefixKey \<times> int \<times> CacheTier"

fun chainOps :: "Update \<Rightarrow> string \<Rightarrow> CacheTier \<Rightarrow> int \<Rightarrow> string list \<Rightarrow> int list \<Rightarrow> ingestOp list" where
  "chainOps u adapter tier cum (h # hs) (c # cs) =
     (PrefixKey (u_Tenant u) (u_Model u) (u_HashScheme u) adapter h, wrap32 (cum + c), tier)
     # chainOps u adapter tier (wrap32 (cum + c)) hs cs"
| "chainOps u adapter tier cum _ _ = []"

definition prefixOps :: "Update \<Rightarrow> PrefixRef \<Rightarrow> ingestOp list" where
  "prefixOps u p =
     (let tier = normalizeIngestTier (pr_Tier p);
          adapter = (if pr_Adapter p = '''' then u_Adapter u else pr_Adapter p);
          legacy = (PrefixKey (u_Tenant u) (u_Model u) (u_HashScheme u) adapter (pr_PrefixHash p),
                    pr_TokenCount p, tier)
      in if pr_BlockHashes p = [] \<and> pr_BlockTokenCounts p = [] then [legacy]
         else if length (pr_BlockHashes p) \<noteq> length (pr_BlockTokenCounts p) then []
         else chainOps u adapter tier 0 (pr_BlockHashes p) (pr_BlockTokenCounts p)
              @ (if pr_PrefixHash p = [] then [] else [legacy]))"

definition ingestOps :: "Update \<Rightarrow> ingestOp list" where
  "ingestOps u = (if u_HashScheme u = [] then [] else concat (map (prefixOps u) (u_Prefixes u)))"

definition applyOps :: "string \<Rightarrow> gotime \<Rightarrow> ingestOp list \<Rightarrow> Index \<Rightarrow> Index" where
  "applyOps rid ts ops i = fold (\<lambda>(k, c, t) j. upsertReplicaLocked j k rid c t ts) ops i"

lemma applyOps_simps [simp]:
  "applyOps rid ts [] i = i"
  "applyOps rid ts ((k, c, t) # ops) i = applyOps rid ts ops (upsertReplicaLocked i k rid c t ts)"
  by (simp_all add: applyOps_def)

lemma applyOps_append: "applyOps rid ts (xs @ ys) i = applyOps rid ts ys (applyOps rid ts xs i)"
  by (simp add: applyOps_def)

lemma ingestChain_eq:
  "ingestChain i u adapter tier ts cum hs cs =
     applyOps (u_ReplicaID u) ts (chainOps u adapter tier cum hs cs) i"
  by (induction i u adapter tier ts cum hs cs rule: ingestChain.induct) (simp_all add: Let_def)

lemma ingestPrefix_eq: "ingestPrefix u ts p i = applyOps (u_ReplicaID u) ts (prefixOps u p) i"
  by (simp add: ingestPrefix_def prefixOps_def Let_def ingestChain_eq applyOps_append)

lemma ingestPrefixes_eq: "ingestPrefixes u ts i = applyOps (u_ReplicaID u) ts (ingestOps u) i"
proof -
  have "fold (ingestPrefix u ts) ps i = applyOps (u_ReplicaID u) ts (concat (map (prefixOps u) ps)) i" for ps
    by (induction ps arbitrary: i) (simp_all add: ingestPrefix_eq applyOps_append)
  then show ?thesis by (simp add: ingestPrefixes_def ingestOps_def)
qed

lemma idx_inv_applyOps: "idx_inv i \<Longrightarrow> idx_inv (applyOps rid ts ops i)"
  by (induction ops arbitrary: i) (auto simp: idx_inv_upsert split: prod.splits)

lemma applyOps_frame [simp]:
  "stats (applyOps rid ts ops i) = stats i"
  "maxEntries (applyOps rid ts ops i) = maxEntries i"
  "reservedTenants (applyOps rid ts ops i) = reservedTenants i"
  "metrics (applyOps rid ts ops i) = metrics i"
  "reportedModels (applyOps rid ts ops i) = reportedModels i"
  "ttl (applyOps rid ts ops i) = ttl i"
  "ttlResolver (applyOps rid ts ops i) = ttlResolver i"
  "quotaResolver (applyOps rid ts ops i) = quotaResolver i"
  "evictionResolver (applyOps rid ts ops i) = evictionResolver i"
  by (induction ops arbitrary: i) (auto split: prod.splits)

text \<open>What a holder's entry says, apart from its identity.\<close>

definition entryView :: "replicaEntry \<Rightarrow> int \<times> gotime \<times> CacheTier \<times> int" where
  "entryView e = (re_tokenCount e, re_lastSeen e, re_tier e, re_accessCount e)"

definition hitCount :: "replicaEntry option \<Rightarrow> int" where
  "hitCount e = (case e of None \<Rightarrow> 0 | Some e \<Rightarrow> re_accessCount e)"

lemma upserted_view:
  "entryView (upserted i k r c t ts) = (c, ts, t, hitCount (held i k r))"
  by (simp add: upserted_def entryView_def hitCount_def split: option.splits)

lemma hitCount_view: "map_option entryView e = Some (c, ts, t, n) \<Longrightarrow> hitCount e = n"
  by (cases e) (simp_all add: hitCount_def entryView_def)

text \<open>
  After an update the reporting replica's entry at a key is that of the last insertion for the
  key, with the hits it had; everything else is as before.
\<close>

lemma held_applyOps_other: "r \<noteq> rid \<Longrightarrow> held (applyOps rid ts ops i) k r = held i k r"
  by (induction ops arbitrary: i) (auto simp: held_upsert split: prod.splits)

lemma held_applyOps_notin: "k \<notin> fst ` set ops \<Longrightarrow> held (applyOps rid ts ops i) k r = held i k r"
  by (induction ops arbitrary: i) (auto simp: held_upsert split: prod.splits)

lemma held_applyOps:
  "map_of (rev ops) k = Some (c, t) \<Longrightarrow>
     map_option entryView (held (applyOps rid ts ops i) k rid) = Some (c, ts, t, hitCount (held i k rid))"
proof (induction ops arbitrary: c t rule: rev_induct)
  case (snoc x ops)
  obtain k' c' t' where x: "x = (k', c', t')" by (cases x) auto
  show ?case
  proof (cases "k' = k")
    case True
    have "hitCount (held (applyOps rid ts ops i) k rid) = hitCount (held i k rid)"
    proof (cases "map_of (rev ops) k")
      case None
      then show ?thesis by (simp add: held_applyOps_notin map_of_eq_None_iff)
    next
      case (Some y)
      then show ?thesis using hitCount_view [OF snoc.IH [of "fst y" "snd y"]] by simp
    qed
    then show ?thesis using True snoc.prems x by (simp add: applyOps_append held_upsert upserted_view)
  next
    case False
    then show ?thesis using snoc x by (simp add: applyOps_append held_upsert)
  qed
qed simp

subsection \<open>The stages of an update\<close>

definition ingestTime :: "gotime \<Rightarrow> Update \<Rightarrow> gotime" where
  "ingestTime now u = (if u_Timestamp u = 0 then now else u_Timestamp u)"

definition ingestStored :: "Index \<Rightarrow> gotime \<Rightarrow> Update \<Rightarrow> Index" where
  "ingestStored i now u = ingestStats u (ingestTime now u) (ingestPrefixes u (ingestTime now u) i)"

definition ingestQuota :: "Index \<Rightarrow> gotime \<Rightarrow> Update \<Rightarrow> Index \<times> int" where
  "ingestQuota i now u =
     (case tenantQuotaFor i (u_Tenant u) of
        None \<Rightarrow> (ingestStored i now u, 0)
      | Some m \<Rightarrow> evictOldestForTenantLocked (ingestStored i now u) (u_Tenant u) m)"

lemma Ingest_eq:
  "Ingest i now u =
     (let (j, n) = ingestQuota i now u; (j, ev) = enforceCapLocked j;
          j = (if 0 < n then emitCalls [AddTenantEvictions (u_Tenant u) tenantEvictionReasonOverEntries n] j
               else j)
      in reportEntries
           (emitCalls (map (\<lambda>(algo, n). AddIndexEvictions algo indexEvictionReasonCap n) ev) j))"
  unfolding Ingest_def ingestQuota_def ingestStored_def Let_def ingestTime_def by (rule refl)

lemma Ingest_stages:
  obtains cs where "\<forall>c \<in> set cs. evictionCall c"
    and "Ingest i now u = reportEntries (emitCalls cs (fst (enforceCapLocked (fst (ingestQuota i now u)))))"
proof -
  obtain j n where q: "ingestQuota i now u = (j, n)" by (cases "ingestQuota i now u")
  obtain j' ev where e: "enforceCapLocked j = (j', ev)" by (cases "enforceCapLocked j")
  let ?a = "if 0 < n then [AddTenantEvictions (u_Tenant u) tenantEvictionReasonOverEntries n] else []"
  let ?b = "map (\<lambda>(algo, n). AddIndexEvictions algo indexEvictionReasonCap n) ev"
  have "emitCalls xs (emitCalls ys k) = emitCalls (ys @ xs) k" for xs ys k
    by (simp add: emitCalls_def split: option.splits)
  moreover have "emitCalls [] k = k" for k by (simp add: emitCalls_def split: option.splits)
  ultimately have "Ingest i now u = reportEntries (emitCalls (?a @ ?b) (fst (enforceCapLocked (fst (ingestQuota i now u)))))"
    by (simp add: Ingest_eq q e Let_def)
  moreover have "\<forall>c \<in> set (?a @ ?b). evictionCall c" by (auto simp: evictionCall_def)
  ultimately show ?thesis using that by blast
qed

lemma ingestStats_frame [simp]:
  "prefixes (ingestStats u ts i) = prefixes i"
  "maxEntries (ingestStats u ts i) = maxEntries i"
  "reservedTenants (ingestStats u ts i) = reservedTenants i"
  "metrics (ingestStats u ts i) = metrics i"
  "reportedModels (ingestStats u ts i) = reportedModels i"
  "prefixesByTenant (ingestStats u ts i) = prefixesByTenant i"
  by (simp_all add: ingestStats_def Let_def split: option.splits)

lemma idx_inv_ingestStats: "idx_inv i \<Longrightarrow> idx_inv (ingestStats u ts i)"
  by (simp add: ingestStats_def Let_def idx_inv_stats_put split: option.splits)

lemma idx_inv_stored: "idx_inv i \<Longrightarrow> idx_inv (ingestStored i now u)"
  by (simp add: ingestStored_def ingestPrefixes_eq idx_inv_ingestStats idx_inv_applyOps)

lemma idx_inv_evictOldest: "idx_inv i \<Longrightarrow> idx_inv (fst (evictOldestForTenantLocked i t m))"
  by (simp add: idx_inv_def evictOldest_eq) (metis idx_inv_def idx_inv_dropKeys)

lemma idx_inv_quota: "idx_inv i \<Longrightarrow> idx_inv (fst (ingestQuota i now u))"
  by (simp add: ingestQuota_def idx_inv_stored idx_inv_evictOldest split: option.splits)

lemma idx_inv_cap: "idx_inv i \<Longrightarrow> idx_inv (fst (enforceCapLocked i))"
  using idx_inv_dropAll [of i] by (simp add: enforceCap_eq idx_inv_def)

lemma idx_inv_Ingest: "idx_inv i \<Longrightarrow> idx_inv (Ingest i now u)"
  by (rule Ingest_stages [of i now u])
    (simp add: idx_inv_report idx_inv_emitCalls idx_inv_cap idx_inv_quota)

subsection \<open>What an update leaves in the index\<close>

lemma enforceCap_frame [simp]:
  assumes "prefix_inv i"
  shows "maxEntries (fst (enforceCapLocked i)) = maxEntries i"
    and "reservedTenants (fst (enforceCapLocked i)) = reservedTenants i"
    and "metrics (fst (enforceCapLocked i)) = metrics i"
    and "reportedModels (fst (enforceCapLocked i)) = reportedModels i"
    and "stats (fst (enforceCapLocked i)) = stats i"
  by (simp_all add: enforceCap_eq [OF assms])

lemma ingestQuota_frame:
  assumes "idx_inv i"
  shows "maxEntries (fst (ingestQuota i now u)) = maxEntries i"
    and "reservedTenants (fst (ingestQuota i now u)) = reservedTenants i"
    and "metrics (fst (ingestQuota i now u)) = metrics i"
    and "reportedModels (fst (ingestQuota i now u)) = reportedModels i"
    and "stats (fst (ingestQuota i now u)) = stats (ingestStored i now u)"
  using idx_inv_stored [OF assms, of now u]
  by (simp_all add: ingestQuota_def ingestStored_def ingestPrefixes_eq idx_inv_def evictOldest_eq
      split: option.splits)

lemma held_cap:
  assumes "prefix_inv i"
  shows "held (fst (enforceCapLocked i)) k r =
    (if (k, r) \<in> capIdent ` set (capVictims i) then None else held i k r)"
  by (simp add: enforceCap_eq [OF assms] held_dropAll)

lemma held_cap_reserved:
  assumes "prefix_inv i" and "isReservedTenant i (pk_tenant k)"
  shows "held (fst (enforceCapLocked i)) k r = held i k r"
proof -
  have "(k, r) \<notin> capIdent ` set (capVictims i)"
    using capRefs_held(2) [OF assms(1)] capVictims_sub [of i] assms(2) by (force simp: capIdent_def)
  then show ?thesis by (simp add: held_cap [OF assms(1)])
qed

lemma held_Ingest:
  assumes "idx_inv i"
  shows "held (Ingest i now u) k r = held (fst (enforceCapLocked (fst (ingestQuota i now u)))) k r"
    and "stats (Ingest i now u) = stats (ingestStored i now u)"
proof -
  have inv: "prefix_inv (fst (ingestQuota i now u))"
    using idx_inv_quota [OF assms, of now u] by (simp add: idx_inv_def)
  obtain cs where cs: "Ingest i now u = reportEntries (emitCalls cs (fst (enforceCapLocked (fst (ingestQuota i now u)))))"
    by (rule Ingest_stages)
  show "held (Ingest i now u) k r = held (fst (enforceCapLocked (fst (ingestQuota i now u)))) k r"
    unfolding cs by simp
  show "stats (Ingest i now u) = stats (ingestStored i now u)"
    unfolding cs using enforceCap_frame(5) [OF inv] ingestQuota_frame(5) [OF assms] by simp
qed

lemma Ingest_counts:
  assumes "idx_inv i"
  shows "totalEntries (Ingest i now u) = totalEntries (fst (enforceCapLocked (fst (ingestQuota i now u))))"
    and "reservedEntries (Ingest i now u) = reservedEntries (fst (enforceCapLocked (fst (ingestQuota i now u))))"
    and "prefixesByTenant (Ingest i now u) = prefixesByTenant (fst (enforceCapLocked (fst (ingestQuota i now u))))"
  by (rule Ingest_stages [of i now u], simp)+

text \<open>The entry cap holds after every update.\<close>

lemma Ingest_cap:
  assumes "idx_inv i" and "0 < maxEntries i"
  shows "totalEntries (Ingest i now u) - reservedEntries (Ingest i now u) \<le> maxEntries i"
  using enforceCap_bound [of "fst (ingestQuota i now u)"] idx_inv_quota [OF assms(1), of now u] assms(2)
  by (simp add: Ingest_counts [OF assms(1)] ingestQuota_frame [OF assms(1)] idx_inv_def)

text \<open>Removing entries never raises a tenant's count, so the quota survives the cap.\<close>

lemma tenant_count_dropAll:
  assumes "prefix_inv i"
  shows "gm_int (prefixesByTenant (dropAll xs i)) t \<le> gm_int (prefixesByTenant i) t"
proof -
  have "{k. pk_tenant k = t \<and> (\<exists>r. held (dropAll xs i) k r \<noteq> None)} \<subseteq>
      {k. pk_tenant k = t \<and> (\<exists>r. held i k r \<noteq> None)}"
    by (auto simp: held_dropAll split: if_splits)
  then have "card {k. pk_tenant k = t \<and> (\<exists>r. held (dropAll xs i) k r \<noteq> None)} \<le>
      card {k. pk_tenant k = t \<and> (\<exists>r. held i k r \<noteq> None)}"
    by (rule card_mono [OF finite_keys])
  then show ?thesis
    by (simp only: tenant_card [OF prefix_inv_dropAll [OF assms]] tenant_card [OF assms] of_nat_le_iff)
qed

lemma Ingest_quota:
  assumes "idx_inv i" and "tenantQuotaFor i (u_Tenant u) = Some m" and "0 \<le> m"
  shows "gm_int (prefixesByTenant (Ingest i now u)) (u_Tenant u) \<le> m"
proof -
  let ?q = "fst (ingestQuota i now u)"
  have inv: "prefix_inv ?q" "prefix_inv (ingestStored i now u)"
    using idx_inv_quota [OF assms(1)] idx_inv_stored [OF assms(1)] by (simp_all add: idx_inv_def)
  have "gm_int (prefixesByTenant ?q) (u_Tenant u) \<le> m"
    using quota_bound [OF inv(2) assms(3), of "u_Tenant u"] assms(2) by (simp add: ingestQuota_def)
  moreover have "gm_int (prefixesByTenant (fst (enforceCapLocked ?q))) (u_Tenant u) \<le>
      gm_int (prefixesByTenant ?q) (u_Tenant u)"
    by (simp add: enforceCap_eq [OF inv(1)] tenant_count_dropAll [OF inv(1)])
  ultimately show ?thesis by (simp add: Ingest_counts [OF assms(1)])
qed

text \<open>An update of one tenant leaves the entries of a reserved tenant alone.\<close>

lemma scopeOf_chainOps:
  "list_all (\<lambda>op. scopeOf (fst op) = ScopeKey (u_Tenant u) (u_Model u) (u_HashScheme u))
     (chainOps u a t c hs cs)"
  by (induction u a t c hs cs rule: chainOps.induct) (simp_all add: scopeOf_def)

lemma scopeOf_ingestOps:
  "list_all (\<lambda>op. scopeOf (fst op) = ScopeKey (u_Tenant u) (u_Model u) (u_HashScheme u)) (ingestOps u)"
proof -
  have "list_all (\<lambda>op. scopeOf (fst op) = ScopeKey (u_Tenant u) (u_Model u) (u_HashScheme u)) (prefixOps u p)"
    for p by (simp add: prefixOps_def Let_def scopeOf_chainOps) (simp add: scopeOf_def)
  then show ?thesis by (simp add: ingestOps_def list_all_iff)
qed

lemma fst_ingestOps:
  "k \<in> fst ` set (ingestOps u) \<Longrightarrow> scopeOf k = ScopeKey (u_Tenant u) (u_Model u) (u_HashScheme u)"
  using scopeOf_ingestOps [of u] by (auto simp: list_all_iff)

lemma held_stored_other:
  "scopeOf k \<noteq> ScopeKey (u_Tenant u) (u_Model u) (u_HashScheme u) \<or> r \<noteq> u_ReplicaID u \<Longrightarrow>
     held (ingestStored i now u) k r = held i k r"
  unfolding ingestStored_def ingestPrefixes_eq ingestStats_frame
  using fst_ingestOps [of k u] by (metis held_applyOps_other held_applyOps_notin)

lemma held_quota_other:
  assumes "idx_inv i" and "pk_tenant k \<noteq> u_Tenant u"
  shows "held (fst (ingestQuota i now u)) k r = held i k r"
  using idx_inv_stored [OF assms(1), of now u] held_stored_other [of k u r i now] assms(2)
  by (simp add: scopeOf_def ingestQuota_def idx_inv_def held_evictOldest_other split: option.splits)

lemma Ingest_reserved:
  assumes "idx_inv i" and "isReservedTenant i (pk_tenant k)" and "pk_tenant k \<noteq> u_Tenant u"
  shows "held (Ingest i now u) k r = held i k r"
proof -
  have "isReservedTenant (fst (ingestQuota i now u)) (pk_tenant k)"
    using assms(2) by (simp add: isReservedTenant_def ingestQuota_frame [OF assms(1)])
  then show ?thesis
    using idx_inv_quota [OF assms(1), of now u]
    by (simp add: held_Ingest [OF assms(1)] idx_inv_def held_cap_reserved held_quota_other [OF assms(1,3)])
qed

text \<open>Within its quota and the cap, an update keeps everything it stores.\<close>

definition fits :: "Index \<Rightarrow> gotime \<Rightarrow> Update \<Rightarrow> bool" where
  "fits i now u \<longleftrightarrow>
     (case tenantQuotaFor i (u_Tenant u) of
        None \<Rightarrow> True
      | Some m \<Rightarrow> m < 0 \<or> gm_int (prefixesByTenant (ingestStored i now u)) (u_Tenant u) \<le> m) \<and>
     (maxEntries i \<le> 0 \<or>
      totalEntries (ingestStored i now u) - reservedEntries (ingestStored i now u) \<le> maxEntries i)"

lemma held_Ingest_fits:
  assumes "idx_inv i" and "fits i now u"
  shows "held (Ingest i now u) k r = held (ingestStored i now u) k r"
proof -
  have q: "fst (ingestQuota i now u) = ingestStored i now u"
    using assms(2) by (auto simp: fits_def ingestQuota_def evictOldestForTenantLocked_def split: option.splits)
  have "maxEntries (ingestStored i now u) = maxEntries i"
    using ingestQuota_frame(1) [OF assms(1), of now u] by (simp add: q)
  then have "fst (enforceCapLocked (ingestStored i now u)) = ingestStored i now u"
    using assms(2) by (auto simp: fits_def enforceCapLocked_def Let_def)
  then show ?thesis by (simp add: held_Ingest [OF assms(1)] q)
qed

lemma held_stored:
  "map_of (rev (ingestOps u)) k = Some (c, t) \<Longrightarrow>
     map_option entryView (held (ingestStored i now u) k (u_ReplicaID u)) =
       Some (c, ingestTime now u, t, hitCount (held i k (u_ReplicaID u)))"
  unfolding ingestStored_def ingestStats_frame ingestPrefixes_eq by (rule held_applyOps)

lemma stats_stored:
  "map_of (stats (ingestStored i now u)) sk =
     (if sk = StatsKey (u_Tenant u) (u_Model u) (u_ReplicaID u) then
        (case u_Stats u of
           None \<Rightarrow> map_of (stats i) sk
         | Some st \<Rightarrow>
             Some \<lparr>se_stats = st\<lparr>rs_ReplicaID := u_ReplicaID u, rs_HitRate := sanitizeRate (rs_HitRate st),
                                  rs_Pressure := sanitizeRate (rs_Pressure st)\<rparr>,
                   se_lastSeen = ingestTime now u, se_statsReported = ingestTime now u\<rparr>)
      else map_of (stats i) sk)"
  by (simp add: ingestStored_def ingestPrefixes_eq ingestStats_def Let_def gomap_simps split: option.splits)

subsection \<open>What an event removes\<close>

lemma fold_remove_keys:
  "held (fold (\<lambda>(key, _) j. if Q key then j else removeReplicaLocked j key rid) m i) k r =
     (if k \<in> fst ` set m \<and> \<not> Q k \<and> r = rid then None else held i k r)"
  by (induction m arbitrary: i) (auto simp: held_remove split: if_splits)

lemma fold_remove_all:
  assumes "prefix_inv i"
  shows "held (fold (\<lambda>(key, _) j. if Q key then j else removeReplicaLocked j key rid) (prefixes i) i) k r =
    (if \<not> Q k \<and> r = rid then None else held i k r)"
proof -
  have "held i k r = None" if "k \<notin> fst ` set (prefixes i)"
    using held_keys [OF assms, of k] that by (metis image_set)
  then show ?thesis unfolding fold_remove_keys by auto
qed

lemma fold_remove_inv:
  "idx_inv i \<Longrightarrow> idx_inv (fold (\<lambda>(key, _) j. if Q key then j else removeReplicaLocked j key rid) m i)"
  by (induction m arbitrary: i) (auto simp: idx_inv_remove)

lemma fold_remove_frame [simp]:
  "stats (fold (\<lambda>(key, _) j. if Q key then j else removeReplicaLocked j key rid) m i) = stats i"
  "metrics (fold (\<lambda>(key, _) j. if Q key then j else removeReplicaLocked j key rid) m i) = metrics i"
  "reportedModels (fold (\<lambda>(key, _) j. if Q key then j else removeReplicaLocked j key rid) m i) = reportedModels i"
  by (induction m arbitrary: i) auto

definition evictMatch :: "Event \<Rightarrow> prefixKey \<Rightarrow> bool" where
  "evictMatch ev k \<longleftrightarrow>
     pk_tenant k = ev_Tenant ev \<and> pk_model k = ev_Model ev \<and> pk_prefixHash k = ev_PrefixHash ev \<and>
     (ev_Adapter ev = '''' \<or> pk_adapter k = ev_Adapter ev)"

definition clearMatch :: "Event \<Rightarrow> prefixKey \<Rightarrow> bool" where
  "clearMatch ev k \<longleftrightarrow> pk_tenant k = ev_Tenant ev \<and> pk_model k = ev_Model ev"

lemma ApplyEvent_evicted:
  "ev_Type ev = EventPrefixEvicted \<Longrightarrow>
     ApplyEvent i now ev =
       reportEntries (fold (\<lambda>(key, _) j. if \<not> evictMatch ev key then j
                                        else removeReplicaLocked j key (ev_ReplicaID ev)) (prefixes i) i)"
  unfolding ApplyEvent_def Let_def
  by (simp, rule arg_cong [where f = "\<lambda>h. reportEntries (fold h _ _)"])
    (auto simp: fun_eq_iff evictMatch_def)

lemma ApplyEvent_cleared:
  "ev_Type ev = EventAllCleared \<Longrightarrow>
     ApplyEvent i now ev =
       (let j = fold (\<lambda>(key, _) j. if \<not> clearMatch ev key then j
                      else removeReplicaLocked j key (ev_ReplicaID ev)) (prefixes i) i
        in reportEntries (statsScopeRemoveLocked
             (j\<lparr>stats := AList.delete (StatsKey (ev_Tenant ev) (ev_Model ev) (ev_ReplicaID ev)) (stats j)\<rparr>)
             (ModelKey (ev_Tenant ev) (ev_Model ev)) (ev_ReplicaID ev)))"
  by (simp add: ApplyEvent_def Let_def clearMatch_def de_Morgan_conj)

lemma held_ApplyEvent:
  assumes "prefix_inv i"
  shows "held (ApplyEvent i now ev) k r =
    (case ev_Type ev of
       EventPrefixEvicted \<Rightarrow> if r = ev_ReplicaID ev \<and> evictMatch ev k then None else held i k r
     | EventAllCleared \<Rightarrow>
         if r = ev_ReplicaID ev \<and> clearMatch ev k then None else held i k r
     | _ \<Rightarrow> held i k r)"
proof (cases "ev_Type ev")
  case EventPrefixEvicted
  then show ?thesis
    by (simp add: ApplyEvent_evicted fold_remove_all [OF assms, where Q = "\<lambda>k. \<not> evictMatch ev k"])
next
  case EventAllCleared
  then show ?thesis
    by (simp add: ApplyEvent_cleared Let_def fold_remove_all [OF assms, where Q = "\<lambda>k. \<not> clearMatch ev k"])
qed (simp_all add: ApplyEvent_def Let_def split: option.splits)

lemma idx_inv_touch:
  assumes "idx_inv i" and "map_of (stats i) sk = Some s"
  shows "idx_inv (i\<lparr>stats := AList.update sk s' (stats i)\<rparr>)"
proof -
  have "stats_inv (i\<lparr>stats := AList.update sk s' (stats i)\<rparr>)"
    using assms by (auto simp: idx_inv_def stats_inv_def gomap_simps)
  moreover have "prefix_inv (i\<lparr>stats := AList.update sk s' (stats i)\<rparr>)"
    by (rule prefix_inv_cong [THEN iffD2, of _ i]) (use assms(1) in \<open>simp_all add: idx_inv_def\<close>)
  ultimately show ?thesis by (simp add: idx_inv_def)
qed

lemma idx_inv_ApplyEvent:
  assumes "idx_inv i"
  shows "idx_inv (ApplyEvent i now ev)"
proof (cases "ev_Type ev")
  case EventPrefixEvicted
  then show ?thesis
    by (simp add: ApplyEvent_evicted idx_inv_report
        fold_remove_inv [OF assms, where Q = "\<lambda>k. \<not> evictMatch ev k"])
next
  case EventAllCleared
  then show ?thesis
    unfolding ApplyEvent_cleared [OF EventAllCleared] Let_def
    by (intro idx_inv_report idx_inv_stats_del fold_remove_inv assms)
qed (use assms in \<open>auto simp: ApplyEvent_def Let_def idx_inv_report idx_inv_touch split: option.splits\<close>)

subsection \<open>The gauge after every operation\<close>

lemma gauge_Ingest:
  assumes "idx_inv i" and "gauge_inv i"
  shows "gauge_inv (Ingest i now u) \<and> gauge_exact (Ingest i now u)"
proof -
  let ?j = "fst (enforceCapLocked (fst (ingestQuota i now u)))"
  have "prefix_inv (fst (ingestQuota i now u))"
    using idx_inv_quota [OF assms(1)] by (simp add: idx_inv_def)
  then have "gauge_inv ?j"
    using assms gauge_inv_cong [of ?j i] by (simp add: ingestQuota_frame)
  then have "gauge_inv (emitCalls cs ?j)" if "\<forall>c \<in> set cs. evictionCall c" for cs
    using that by (rule gauge_inv_emit)
  then show ?thesis
    by (metis Ingest_stages gauge_exact_report gauge_inv_report)
qed

lemma gauge_ApplyEvent:
  assumes "gauge_inv i"
  shows "gauge_inv (ApplyEvent i now ev) \<and> gauge_exact (ApplyEvent i now ev)"
proof -
  have "\<exists>j. ApplyEvent i now ev = reportEntries j \<and> metrics j = metrics i \<and> reportedModels j = reportedModels i"
  proof (cases "ev_Type ev")
    case EventPrefixEvicted
    show ?thesis unfolding ApplyEvent_evicted [OF EventPrefixEvicted] by (rule exI, rule conjI [OF refl]) simp
  next
    case EventAllCleared
    show ?thesis unfolding ApplyEvent_cleared [OF EventAllCleared] Let_def by (rule exI, rule conjI [OF refl]) simp
  qed (auto simp: ApplyEvent_def Let_def split: option.splits)
  then show ?thesis
    using assms by (metis gauge_inv_cong gauge_exact_report gauge_inv_report)
qed

lemma gauge_evictExpired:
  assumes "idx_inv i" and "gauge_inv i"
  shows "gauge_inv (evictExpired i now) \<and> gauge_exact (evictExpired i now)"
proof -
  let ?j = "sweepStats (fst (sweepPrefixes i now)) now"
  let ?cs = "map (\<lambda>(algo, n). AddIndexEvictions algo indexEvictionReasonTTL n) (snd (sweepPrefixes i now))"
  have "metrics (fst (sweepPrefixes i now)) = metrics i \<and> reportedModels (fst (sweepPrefixes i now)) = reportedModels i"
    by (simp add: sweepPrefixes_eq)
  moreover have "metrics (sweepStats j now) = metrics j \<and> reportedModels (sweepStats j now) = reportedModels j" for j
  proof -
    have "metrics (fold (\<lambda>(sk, s) j. if Q sk s
             then statsScopeRemoveLocked (j\<lparr>stats := AList.delete sk (stats j)\<rparr>)
                    (ModelKey (sk_tenant sk) (sk_model sk)) (sk_replicaID sk) else j) m j') = metrics j' \<and>
        reportedModels (fold (\<lambda>(sk, s) j. if Q sk s
             then statsScopeRemoveLocked (j\<lparr>stats := AList.delete sk (stats j)\<rparr>)
                    (ModelKey (sk_tenant sk) (sk_model sk)) (sk_replicaID sk) else j) m j') = reportedModels j'"
      for Q m j' by (induction m arbitrary: j') auto
    then show ?thesis by (simp add: sweepStats_def)
  qed
  ultimately have "gauge_inv ?j" using assms(2) gauge_inv_cong [of ?j i] by simp
  then have "gauge_inv (emitCalls ?cs ?j)" by (rule gauge_inv_emit) (auto simp: evictionCall_def)
  moreover have "evictExpired i now = reportEntries (emitCalls ?cs ?j)"
    by (simp add: evictExpired_def case_prod_beta Let_def)
  ultimately show ?thesis by (simp add: gauge_exact_report gauge_inv_report)
qed

end
