(* ===== verification/Ranking.thy ===== *)
theory Ranking
  imports Index_Types
begin

text \<open>
  \<open>internal/index/ranking.go\<close>: the factors of the ranking score, in \<open>float32\<close> and
  \<open>float64\<close> arithmetic, and the two sorts. The factors stay in [0, 1] and are monotone in what
  they measure; the depth-aware factor of a chain match equals its definition by counting;
  the final order does not depend on the order the scores arrive in.
\<close>

subsection \<open>The factors\<close>

definition freshnessAt :: "gotime \<Rightarrow> gotime \<Rightarrow> duration \<Rightarrow> flt" where
  "freshnessAt now lastSeen d =
     (if d \<le> 0 then Fin 0
      else
        (let age = time_sub now lastSeen
         in if age \<le> 0 then Fin 1
            else if d \<le> age then Fin 0
            else fconv binary32
                   (fsub binary64 (Fin 1) (fdiv binary64 (fint binary64 age) (fint binary64 d)))))"

definition pressureFactorAt :: "flt \<Rightarrow> flt \<Rightarrow> flt" where
  "pressureFactorAt pressure weight =
     (let f = fsub binary32 (Fin 1) (fmul binary32 weight pressure)
      in if flt_lt f (Fin 0) then Fin 0 else if flt_lt (Fin 1) f then Fin 1 else f)"

definition distinguishingPower :: "int \<Rightarrow> int \<Rightarrow> flt" where
  "distinguishingPower matching tot =
     (if tot \<le> 1 \<or> matching < 0 then Fin 1
      else if tot \<le> matching then Fin 0
      else fsub binary64 (Fin 1) (fdiv binary64 (fint binary64 matching) (fint binary64 tot)))"

definition sloTightBiasCoefficient :: "RankerConfig \<Rightarrow> int \<Rightarrow> flt" where
  "sloTightBiasCoefficient cfg ttftMs =
     (if SLOTightTTFTMs cfg \<le> 0 \<or> flt_le (SLOTightBias cfg) (Fin 0) then Fin 0
      else if ttftMs \<le> 0 \<or> SLOTightTTFTMs cfg \<le> ttftMs then Fin 0
      else SLOTightBias cfg)"

subsection \<open>Sorting and the depth-aware factor\<close>

definition scoreLess :: "ReplicaScore \<Rightarrow> ReplicaScore \<Rightarrow> bool" where
  "scoreLess x y \<longleftrightarrow>
     (if \<not> flt_eq (sc_Score x) (sc_Score y) then flt_lt (sc_Score y) (sc_Score x)
      else sc_ReplicaID x < sc_ReplicaID y)"

definition sortScoresDescByScoreThenID :: "ReplicaScore list \<Rightarrow> ReplicaScore list" where
  "sortScoresDescByScoreThenID scores = sort_slice scoreLess scores"

definition depthLess :: "ReplicaScore \<Rightarrow> ReplicaScore \<Rightarrow> bool" where
  "depthLess x y \<longleftrightarrow>
     (if sc_MatchedTokens x \<noteq> sc_MatchedTokens y then sc_MatchedTokens y < sc_MatchedTokens x
      else sc_ReplicaID x < sc_ReplicaID y)"

text \<open>\<open>if dp != 1.0 { Score *= float32(dp) }\<close>\<close>

definition scaleScore :: "flt \<Rightarrow> ReplicaScore \<Rightarrow> ReplicaScore" where
  "scaleScore dp s =
     (if flt_eq dp (Fin 1) then s
      else s\<lparr>sc_Score := fmul binary32 (sc_Score s) (fconv binary32 dp)\<rparr>)"

text \<open>The walk over the groups of equal depth; \<open>left\<close> scores have been passed already.\<close>

function groupWalk :: "int \<Rightarrow> int \<Rightarrow> ReplicaScore list \<Rightarrow> ReplicaScore list" where
  "groupWalk tot left [] = []"
| "groupWalk tot left (s # ss) =
     (let same = (\<lambda>x. sc_MatchedTokens x = sc_MatchedTokens s);
          right = left + int (length (takeWhile same (s # ss)))
      in map (scaleScore (distinguishingPower right tot)) (takeWhile same (s # ss))
         @ groupWalk tot right (dropWhile same (s # ss)))"
  by pat_completeness auto
termination
  by (relation "measure (\<lambda>(_, _, ss). length ss)") (auto intro: le_imp_less_Suc length_dropWhile_le)

definition applyChainDistinguishingPower :: "ReplicaScore list \<Rightarrow> int \<Rightarrow> ReplicaScore list" where
  "applyChainDistinguishingPower scores totalReplicas =
     (if totalReplicas \<le> 1 \<or> scores = [] then scores
      else groupWalk totalReplicas 0 (sort_slice depthLess scores))"

subsection \<open>Bounds\<close>

text \<open>A \<open>float32\<close> in the unit interval.\<close>

definition unit32 :: "flt \<Rightarrow> bool" where
  "unit32 x \<longleftrightarrow> flt_of binary32 x \<and> flt_le (Fin 0) x \<and> flt_le x (Fin 1)"

lemma unit32_cases: "unit32 x \<Longrightarrow> \<exists>r. x = Fin r \<and> 0 \<le> r \<and> r \<le> 1 \<and> flt_of binary32 (Fin r)"
  by (cases x) (auto simp: unit32_def flt_le_def)

lemma unit32_0 [simp]: "unit32 (Fin 0)" and unit32_1 [simp]: "unit32 (Fin 1)"
  by (auto simp: unit32_def)

text \<open>\<open>1 - a / b\<close> in \<open>float64\<close> for \<open>0 \<le> a < b\<close>, both within the range of \<open>int64\<close>.\<close>

lemma fint64:
  assumes "0 \<le> n" and "n \<le> 2 ^ 63"
  obtains r where "fint binary64 n = Fin r" and "0 \<le> r" and "r \<le> 2 ^ 63" and "flt_of binary64 (Fin r)"
    and "0 < n \<longrightarrow> 1 \<le> r"
proof -
  have "flt_of binary64 (Fin (pow2 63))" by (rule f64.flt_of_pow2) (simp_all add: binary64_def)
  then have hi: "flt_of binary64 (Fin (2 ^ 63))" by (simp add: pow2_def)
  have le: "of_int n \<le> (2 ^ 63 :: rat)"
  proof -
    have "of_int n \<le> (of_int (2 ^ 63) :: rat)" using assms(2) by (simp only: of_int_le_iff)
    then show ?thesis by simp
  qed
  define lo :: rat where "lo = of_bool (0 < n)"
  have lo: "flt_of binary64 (Fin lo)" by (simp add: lo_def)
  have "lo \<le> of_int n" using assms(1) by (auto simp: lo_def)
  from f64.rnd_between [OF lo hi this le] obtain r where
    "rnd binary64 (of_int n) = Fin r" "lo \<le> r" "r \<le> 2 ^ 63" "flt_of binary64 (Fin r)" by blast
  then show ?thesis using that [of r] by (cases "0 < n") (auto simp: fint_def lo_def)
qed

definition oneMinusRatio :: "int \<Rightarrow> int \<Rightarrow> flt" where
  "oneMinusRatio a b = fsub binary64 (Fin 1) (fdiv binary64 (fint binary64 a) (fint binary64 b))"

lemma ratio64:
  assumes "0 \<le> a" and "a \<le> b" and "0 < b" and "b \<le> 2 ^ 63"
  obtains q where "fdiv binary64 (fint binary64 a) (fint binary64 b) = Fin q" and "0 \<le> q" and "q \<le> 1"
proof -
  obtain ra where ra: "fint binary64 a = Fin ra" "0 \<le> ra" using fint64 [of a] assms by auto
  obtain rb where rb: "fint binary64 b = Fin rb" "1 \<le> rb" using fint64 [of b] assms by auto
  have "ra \<le> rb"
    using f64.rnd_mono [of "of_int a" "of_int b"] assms(2) ra(1) rb(1) by (simp add: fint_def)
  then have "0 \<le> ra / rb" and "ra / rb \<le> 1" using ra(2) rb(2) by (simp_all add: divide_le_eq)
  from f64.rnd_between [OF f64.flt_of_0 f64.flt_of_1 this] show ?thesis
    using that ra rb by force
qed

lemma oneMinusRatio_unit:
  assumes "0 \<le> a" and "a \<le> b" and "0 < b" and "b \<le> 2 ^ 63"
  obtains r where "oneMinusRatio a b = Fin r" and "0 \<le> r" and "r \<le> 1"
proof -
  obtain q where q: "fdiv binary64 (fint binary64 a) (fint binary64 b) = Fin q" "0 \<le> q" "q \<le> 1"
    using ratio64 [OF assms] by blast
  then have "0 \<le> 1 - q" and "1 - q \<le> 1" by simp_all
  from f64.rnd_between [OF f64.flt_of_0 f64.flt_of_1 this] show ?thesis
    using that q(1) by (auto simp: oneMinusRatio_def fsub_def)
qed

lemma oneMinusRatio_antimono:
  assumes "0 \<le> a" and "a \<le> a'" and "a' \<le> b" and "0 < b" and "b \<le> 2 ^ 63"
  shows "flt_le (oneMinusRatio a' b) (oneMinusRatio a b)"
proof -
  obtain ra where ra: "fint binary64 a = Fin ra" using fint64 [of a] assms by auto
  obtain ra' where ra': "fint binary64 a' = Fin ra'" using fint64 [of a'] assms by auto
  obtain rb where rb: "fint binary64 b = Fin rb" "1 \<le> rb" using fint64 [of b] assms by auto
  obtain q where q: "fdiv binary64 (fint binary64 a) (fint binary64 b) = Fin q"
    by (rule ratio64 [of a b]) (use assms in auto)
  obtain q' where q': "fdiv binary64 (fint binary64 a') (fint binary64 b) = Fin q'"
    by (rule ratio64 [of a' b]) (use assms in auto)
  have "ra \<le> ra'"
    using f64.rnd_mono [of "of_int a" "of_int a'"] assms(2) ra ra' by (simp add: fint_def)
  then have "ra / rb \<le> ra' / rb" using rb(2) by (simp add: divide_right_mono)
  then have "q \<le> q'"
    using f64.rnd_mono [of "ra / rb" "ra' / rb"] q q' ra ra' rb by (simp split: if_splits)
  then show ?thesis using f64.rnd_mono [of "1 - q'" "1 - q"] by (simp add: oneMinusRatio_def q q' fsub_def)
qed

subsection \<open>Freshness\<close>

lemma freshnessAt_mid:
  "0 < d \<Longrightarrow> 0 < time_sub now l \<Longrightarrow> time_sub now l < d \<Longrightarrow>
     freshnessAt now l d = fconv binary32 (oneMinusRatio (time_sub now l) d)"
  by (simp add: freshnessAt_def oneMinusRatio_def Let_def)

lemma freshnessAt_unit:
  assumes "d \<le> 2 ^ 63"
  shows "unit32 (freshnessAt now l d)"
proof (cases "0 < d \<and> 0 < time_sub now l \<and> time_sub now l < d")
  case True
  then obtain r where r: "oneMinusRatio (time_sub now l) d = Fin r" "0 \<le> r" "r \<le> 1"
    using oneMinusRatio_unit [of "time_sub now l" d] assms by auto
  obtain s where "rnd binary32 r = Fin s" "0 \<le> s" "s \<le> 1" "flt_of binary32 (Fin s)"
    using f32.rnd_between [OF f32.flt_of_0 f32.flt_of_1 r(2,3)] by blast
  then show ?thesis using True r(1) by (simp add: freshnessAt_mid unit32_def)
qed (auto simp: freshnessAt_def Let_def)

lemma time_sub_antimono: "l \<le> l' \<Longrightarrow> time_sub now l' \<le> time_sub now l"
  by (auto simp: time_sub_def min_def max_def)

lemma freshnessAt_mono:
  assumes "l \<le> l'" and "d \<le> 2 ^ 63"
  shows "flt_le (freshnessAt now l d) (freshnessAt now l' d)"
proof -
  let ?a = "time_sub now l" and ?a' = "time_sub now l'"
  have le: "?a' \<le> ?a" by (rule time_sub_antimono) fact
  note u = freshnessAt_unit [OF assms(2), of now l] and u' = freshnessAt_unit [OF assms(2), of now l']
  consider "d \<le> 0" | "0 < d" "?a' \<le> 0" | "0 < d" "d \<le> ?a" | "0 < d" "0 < ?a'" "?a < d" by linarith
  then show ?thesis
  proof cases
    case 4
    obtain r where r: "oneMinusRatio ?a d = Fin r"
      by (rule oneMinusRatio_unit [of ?a d]) (use 4 le assms in auto)
    obtain r' where r': "oneMinusRatio ?a' d = Fin r'"
      by (rule oneMinusRatio_unit [of ?a' d]) (use 4 le assms in auto)
    have "r \<le> r'" using oneMinusRatio_antimono [of ?a' ?a d] 4 le assms r r' by simp
    then show ?thesis using f32.rnd_mono 4 le by (simp add: freshnessAt_mid r r')
  next
    case 1
    then show ?thesis by (simp add: freshnessAt_def)
  next
    case 2
    then have "freshnessAt now l' d = Fin 1" by (simp add: freshnessAt_def Let_def)
    then show ?thesis using u by (simp add: unit32_def)
  next
    case 3
    then have "freshnessAt now l d = Fin 0" by (simp add: freshnessAt_def Let_def)
    then show ?thesis using u' by (simp add: unit32_def)
  qed
qed

text \<open>Anything fresh is within its TTL.\<close>

lemma fresh_within_ttl: "flt_lt (Fin 0) (freshnessAt now l d) \<Longrightarrow> 0 < d \<and> time_sub now l < d"
  by (auto simp: freshnessAt_def Let_def split: if_splits)

subsection \<open>Pressure, SLO bias and distinguishing power\<close>

lemma pressureFactorAt_unit:
  assumes "flt_of binary32 (Fin w)" and "flt_of binary32 (Fin p)"
  shows "unit32 (pressureFactorAt (Fin p) (Fin w))"
proof -
  let ?f = "fsub binary32 (Fin 1) (fmul binary32 (Fin w) (Fin p))"
  have "?f \<noteq> NaN \<and> flt_of binary32 ?f"
    by (cases "rnd binary32 (w * p)") (auto simp: fsub_def)
  then show ?thesis
    by (cases ?f) (auto simp: pressureFactorAt_def Let_def unit32_def flt_le_def not_less)
qed

lemma pressureFactorAt_0 [simp]: "pressureFactorAt (Fin 0) (Fin w) = Fin 1"
  by (simp add: pressureFactorAt_def Let_def fsub_def)

lemma distinguishingPower_eq:
  "1 < tot \<Longrightarrow> 0 \<le> m \<Longrightarrow> m < tot \<Longrightarrow> distinguishingPower m tot = oneMinusRatio m tot"
  by (simp add: distinguishingPower_def oneMinusRatio_def)

lemma distinguishingPower_unit:
  assumes "tot \<le> 2 ^ 63"
  obtains r where "distinguishingPower m tot = Fin r" and "0 \<le> r" and "r \<le> 1"
proof (cases "1 < tot \<and> 0 \<le> m \<and> m < tot")
  case True
  then show ?thesis
    using oneMinusRatio_unit [of m tot] assms that by (auto simp: distinguishingPower_eq)
next
  case False
  then have "distinguishingPower m tot = Fin 0 \<or> distinguishingPower m tot = Fin 1"
    by (auto simp: distinguishingPower_def)
  then show ?thesis using that [of 0] that [of 1] by auto
qed

lemma distinguishingPower_antimono:
  assumes "0 \<le> m" and "m \<le> m'" and "tot \<le> 2 ^ 63"
  shows "flt_le (distinguishingPower m' tot) (distinguishingPower m tot)"
proof (cases "1 < tot \<and> m' < tot")
  case True
  then show ?thesis using assms oneMinusRatio_antimono [of m m' tot] by (simp add: distinguishingPower_eq)
next
  case False
  obtain r where "distinguishingPower m tot = Fin r" "0 \<le> r"
    using distinguishingPower_unit [OF assms(3), of m] by blast
  then show ?thesis using False assms by (auto simp: distinguishingPower_def split: if_splits)
qed

subsection \<open>The depth-aware factor by counting\<close>

definition depthCount :: "ReplicaScore list \<Rightarrow> ReplicaScore \<Rightarrow> int" where
  "depthCount scores s = int (length (filter (\<lambda>x. sc_MatchedTokens s \<le> sc_MatchedTokens x) scores))"

definition depthRank :: "ReplicaScore \<Rightarrow> int \<times> string" where
  "depthRank s = (- sc_MatchedTokens s, sc_ReplicaID s)"

interpretation depth: ranked_order depthLess depthRank
  by unfold_locales (auto simp: depthLess_def depthRank_def)

lemma scaleScore_frame [simp]:
  "sc_ReplicaID (scaleScore dp s) = sc_ReplicaID s"
  "sc_MatchedTokens (scaleScore dp s) = sc_MatchedTokens s"
  "sc_EstimatedCacheHitProb (scaleScore dp s) = sc_EstimatedCacheHitProb s"
  "sc_Tier (scaleScore dp s) = sc_Tier s"
  by (simp_all add: scaleScore_def)

lemma groupWalk_eq:
  assumes "sorted_wrt (\<lambda>x y. sc_MatchedTokens y \<le> sc_MatchedTokens x) ss"
  shows "groupWalk tot left ss = map (\<lambda>s. scaleScore (distinguishingPower (left + depthCount ss s) tot) s) ss"
  using assms
proof (induction tot left ss rule: groupWalk.induct)
  case (2 tot left s ss)
  let ?same = "\<lambda>x. sc_MatchedTokens x = sc_MatchedTokens s"
  let ?f = "\<lambda>x. scaleScore (distinguishingPower (left + depthCount (s # ss) x) tot) x"
  define T where "T = takeWhile ?same (s # ss)"
  define D where "D = dropWhile ?same (s # ss)"
  have split: "s # ss = T @ D" unfolding T_def D_def by (rule takeWhile_dropWhile_id [symmetric])
  have sortedD: "sorted_wrt (\<lambda>x y. sc_MatchedTokens y \<le> sc_MatchedTokens x) D"
    using "2.prems" unfolding split by (simp add: sorted_wrt_append)
  have T: "sc_MatchedTokens x = sc_MatchedTokens s" if "x \<in> set T" for x
    using set_takeWhileD that unfolding T_def by force
  have D: "sc_MatchedTokens x < sc_MatchedTokens s" if "x \<in> set D" for x
  proof -
    obtain d ds where ds: "D = d # ds" using \<open>x \<in> set D\<close> by (cases D) auto
    have "sc_MatchedTokens d \<noteq> sc_MatchedTokens s"
      using hd_dropWhile [of ?same "s # ss"] ds unfolding D_def by (metis list.sel(1) list.simps(3))
    moreover have "d \<in> set (s # ss)" unfolding split ds by simp
    then have "sc_MatchedTokens d \<le> sc_MatchedTokens s" using "2.prems" by auto
    moreover have "sc_MatchedTokens x \<le> sc_MatchedTokens d" using that sortedD ds by auto
    ultimately show ?thesis by linarith
  qed
  have cT: "depthCount (s # ss) x = int (length T)" if "x \<in> set T" for x
  proof -
    have "filter (\<lambda>y. sc_MatchedTokens x \<le> sc_MatchedTokens y) T = T"
      unfolding filter_id_conv using T that by auto
    moreover have "filter (\<lambda>y. sc_MatchedTokens x \<le> sc_MatchedTokens y) D = []"
      unfolding filter_empty_conv using T that D by force
    ultimately show ?thesis unfolding split depthCount_def by simp
  qed
  have cD: "depthCount (s # ss) x = int (length T) + depthCount D x" if "x \<in> set D" for x
  proof -
    have "filter (\<lambda>y. sc_MatchedTokens x \<le> sc_MatchedTokens y) T = T"
      unfolding filter_id_conv using T D [OF that] by auto
    then show ?thesis unfolding split depthCount_def by simp
  qed
  have "groupWalk tot left (s # ss) =
      map (scaleScore (distinguishingPower (left + int (length T)) tot)) T
      @ groupWalk tot (left + int (length T)) D"
    unfolding T_def D_def by (simp only: groupWalk.simps Let_def)
  also have "groupWalk tot (left + int (length T)) D = map ?f D"
    using "2.IH" [OF refl refl, folded T_def D_def, OF sortedD] cD by (simp add: add.assoc)
  also have "map (scaleScore (distinguishingPower (left + int (length T)) tot)) T = map ?f T"
    using cT by simp
  also have "map ?f T @ map ?f D = map ?f (s # ss)" by (simp only: split map_append)
  finally show ?case .
qed simp

text \<open>
  The in-place sort and group walk multiplies every score by the factor of its depth: the
  number of replicas that reached at least as deep.
\<close>

lemma applyChain_eq:
  assumes "1 < tot"
  shows "applyChainDistinguishingPower scores tot =
    map (\<lambda>s. scaleScore (distinguishingPower (depthCount scores s) tot) s) (sort_slice depthLess scores)"
proof -
  let ?ss = "sort_slice depthLess scores"
  have "sorted_wrt (\<lambda>x y. sc_MatchedTokens y \<le> sc_MatchedTokens x) ?ss"
    by (rule sorted_wrt_mono_rel [OF _ depth.sorted_rank]) (auto simp: depthRank_def less_eq_prod_def)
  moreover have "depthCount ?ss s = depthCount scores s" for s
    unfolding depthCount_def by (metis mset_filter mset_sort_slice size_mset)
  ultimately show ?thesis
    using assms groupWalk_eq [of ?ss tot 0] by (simp add: applyChainDistinguishingPower_def)
qed

lemma scaleScore_1 [simp]: "scaleScore (Fin 1) s = s"
  by (simp add: scaleScore_def)

lemma mset_applyChain:
  "mset (applyChainDistinguishingPower scores tot) =
     image_mset (\<lambda>s. scaleScore (distinguishingPower (depthCount scores s) tot) s) (mset scores)"
proof (cases "1 < tot")
  case True
  then show ?thesis by (simp add: applyChain_eq)
next
  case False
  then have "distinguishingPower m tot = Fin 1" for m by (simp add: distinguishingPower_def)
  with False show ?thesis by (simp add: applyChainDistinguishingPower_def)
qed

subsection \<open>The final order\<close>

lemma scoreLess_iff:
  "sc_Score x \<noteq> NaN \<Longrightarrow> sc_Score y \<noteq> NaN \<Longrightarrow>
     scoreLess x y \<longleftrightarrow>
       flt_lt (sc_Score y) (sc_Score x) \<or> sc_Score x = sc_Score y \<and> sc_ReplicaID x < sc_ReplicaID y"
  by (auto simp: scoreLess_def flt_eq_iff)

interpretation score: slice_order scoreLess "\<lambda>s. sc_Score s \<noteq> NaN"
proof
  fix x y z :: ReplicaScore
  assume n: "sc_Score x \<noteq> NaN" "sc_Score y \<noteq> NaN" "sc_Score z \<noteq> NaN"
  show "scoreLess x y \<Longrightarrow> scoreLess y z \<Longrightarrow> scoreLess x z"
    using n flt_lt_trans [of "sc_Score z" "sc_Score y" "sc_Score x"] by (auto simp: scoreLess_iff)
  assume xz: "scoreLess x z"
  consider "flt_lt (sc_Score y) (sc_Score x)" | "sc_Score x = sc_Score y" | "flt_lt (sc_Score x) (sc_Score y)"
    using flt_lt_total n by blast
  then show "scoreLess x y \<or> scoreLess y z"
  proof cases
    case 3
    then have "flt_lt (sc_Score z) (sc_Score y)"
      using xz n flt_lt_trans [of "sc_Score z" "sc_Score x" "sc_Score y"] by (auto simp: scoreLess_iff)
    then show ?thesis using n by (simp add: scoreLess_iff)
  qed (use xz n in \<open>auto simp: scoreLess_iff\<close>)
qed (simp add: scoreLess_iff)

lemma sortScores_perm:
  assumes "mset xs = mset ys" and "\<forall>x \<in> set xs. sc_Score x \<noteq> NaN" and "distinct (map sc_ReplicaID xs)"
  shows "sortScoresDescByScoreThenID xs = sortScoresDescByScoreThenID ys"
  unfolding sortScoresDescByScoreThenID_def
proof (rule score.sort_perm [OF assms(1,2)])
  have "inj_on sc_ReplicaID (set xs)" using assms(3) by (simp add: distinct_map)
  then show "\<forall>x \<in> set xs. \<forall>y \<in> set xs. x \<noteq> y \<longrightarrow> scoreLess x y \<or> scoreLess y x"
    using assms(2) flt_lt_total by (simp add: scoreLess_iff) (metis inj_onD linorder_neqE)
qed

text \<open>A finished list is in descending score order, ties by replica.\<close>

lemma sortScores_sorted:
  assumes "\<forall>x \<in> set xs. sc_Score x \<noteq> NaN"
  shows "sorted_wrt (\<lambda>x y. flt_le (sc_Score y) (sc_Score x)) (sortScoresDescByScoreThenID xs)"
proof -
  have "sorted_wrt (\<lambda>x y. \<not> scoreLess y x) (sort_slice scoreLess xs)"
    by (rule score.sort_sorted) (use assms in auto)
  moreover have "flt_le (sc_Score y) (sc_Score x)"
    if "x \<in> set xs" "y \<in> set xs" "\<not> scoreLess y x" for x y
    using that assms flt_lt_total [of "sc_Score x" "sc_Score y"]
    by (auto simp: scoreLess_iff flt_le_def flt_eq_iff)
  ultimately show ?thesis
    unfolding sortScoresDescByScoreThenID_def
    by (metis (mono_tags, lifting) set_sort_slice sorted_wrt_mono_rel)
qed

end
