(* ===== verification/Sha256.thy ===== *)
theory Sha256
  imports Main "HOL-Library.Word" Prelude
begin

unbundle bit_operations_syntax

text \<open>
  The digest of Go's \<open>crypto/sha256\<close>, which \<open>AffinityHint\<close> applies to its seed: SHA-256
  of FIPS 180-4 on byte strings, written with 32-bit words, and the big-endian reads of
  \<open>encoding/binary\<close>. The definitions compute.
\<close>

type_synonym u32 = "32 word"

text \<open>Big-endian bytes and back.\<close>

definition byte_val :: "char \<Rightarrow> int" where
  "byte_val c = of_char c"

fun be_val :: "string \<Rightarrow> int" where
  "be_val [] = 0"
| "be_val (c # cs) = byte_val c * 256 ^ length cs + be_val cs"

fun be_bytes :: "nat \<Rightarrow> int \<Rightarrow> string" where
  "be_bytes 0 n = []"
| "be_bytes (Suc k) n = char_of (n div 256 ^ k mod 256) # be_bytes k n"

text \<open>The functions of the standard.\<close>

definition rotr32 :: "nat \<Rightarrow> u32 \<Rightarrow> u32" where
  "rotr32 n x = drop_bit n x OR push_bit (32 - n) x"

definition choose32 :: "u32 \<Rightarrow> u32 \<Rightarrow> u32 \<Rightarrow> u32" where
  "choose32 x y z = (x AND y) XOR (NOT x AND z)"

definition major32 :: "u32 \<Rightarrow> u32 \<Rightarrow> u32 \<Rightarrow> u32" where
  "major32 x y z = (x AND y) XOR (x AND z) XOR (y AND z)"

definition big_sigma0 :: "u32 \<Rightarrow> u32" where
  "big_sigma0 x = rotr32 2 x XOR rotr32 13 x XOR rotr32 22 x"

definition big_sigma1 :: "u32 \<Rightarrow> u32" where
  "big_sigma1 x = rotr32 6 x XOR rotr32 11 x XOR rotr32 25 x"

definition small_sigma0 :: "u32 \<Rightarrow> u32" where
  "small_sigma0 x = rotr32 7 x XOR rotr32 18 x XOR drop_bit 3 x"

definition small_sigma1 :: "u32 \<Rightarrow> u32" where
  "small_sigma1 x = rotr32 17 x XOR rotr32 19 x XOR drop_bit 10 x"

text \<open>The round constants and the initial hash value.\<close>

definition sha_k :: "u32 list" where
  "sha_k =
    [1116352408, 1899447441, 3049323471, 3921009573, 961987163, 1508970993, 2453635748,
     2870763221, 3624381080, 310598401, 607225278, 1426881987, 1925078388, 2162078206,
     2614888103, 3248222580, 3835390401, 4022224774, 264347078, 604807628, 770255983,
     1249150122, 1555081692, 1996064986, 2554220882, 2821834349, 2952996808, 3210313671,
     3336571891, 3584528711, 113926993, 338241895, 666307205, 773529912, 1294757372,
     1396182291, 1695183700, 1986661051, 2177026350, 2456956037, 2730485921, 2820302411,
     3259730800, 3345764771, 3516065817, 3600352804, 4094571909, 275423344, 430227734,
     506948616, 659060556, 883997877, 958139571, 1322822218, 1537002063, 1747873779,
     1955562222, 2024104815, 2227730452, 2361852424, 2428436474, 2756734187, 3204031479,
     3329325298]"

definition sha_h0 :: "u32 list" where
  "sha_h0 =
    [1779033703, 3144134277, 1013904242, 2773480762,
     1359893119, 2600822924, 528734635, 1541459225]"

text \<open>Padding to whole 64-byte blocks, and the blocks as big-endian words.\<close>

definition sha_pad :: "string \<Rightarrow> string" where
  "sha_pad m = m @ char_of (128 :: int) #
     replicate ((119 - length m mod 64) mod 64) (char_of (0 :: int)) @ be_bytes 8 (8 * int (length m))"

fun sha_words :: "string \<Rightarrow> u32 list" where
  "sha_words (a # b # c # d # bs) = word_of_int (be_val [a, b, c, d]) # sha_words bs"
| "sha_words _ = []"

text \<open>The message schedule grows at the head: the latest word first.\<close>

fun sha_extend :: "nat \<Rightarrow> u32 list \<Rightarrow> u32 list" where
  "sha_extend 0 ws = ws"
| "sha_extend (Suc k) ws =
     sha_extend k
       ((small_sigma1 (ws ! 1) + ws ! 6 + small_sigma0 (ws ! 14) + ws ! 15) # ws)"

definition sha_schedule :: "u32 list \<Rightarrow> u32 list" where
  "sha_schedule block = rev (sha_extend 48 (rev block))"

fun sha_round :: "u32 \<times> u32 \<Rightarrow> u32 list \<Rightarrow> u32 list" where
  "sha_round (k, w) [a, b, c, d, e, f, g, h] =
     (let t1 = h + big_sigma1 e + choose32 e f g + k + w;
          t2 = big_sigma0 a + major32 a b c
      in [t1 + t2, a, b, c, d + t1, e, f, g])"
| "sha_round _ st = st"

definition sha_block :: "u32 list \<Rightarrow> u32 list \<Rightarrow> u32 list" where
  "sha_block st block =
     map2 (+) st (fold sha_round (zip sha_k (sha_schedule block)) st)"

function sha_blocks :: "u32 list \<Rightarrow> u32 list \<Rightarrow> u32 list" where
  "sha_blocks st ws =
     (if length ws < 16 then st else sha_blocks (sha_block st (take 16 ws)) (drop 16 ws))"
  by pat_completeness auto
termination by (relation "measure (\<lambda>(st, ws). length ws)") auto

declare sha_blocks.simps [simp del]

text \<open>\<open>sha256.Sum256\<close>.\<close>

definition sha256_sum :: "string \<Rightarrow> string" where
  "sha256_sum m = concat (map (\<lambda>w. be_bytes 4 (uint w)) (sha_blocks sha_h0 (sha_words (sha_pad m))))"

text \<open>\<open>binary.BigEndian.Uint64\<close> of the first eight bytes of a digest.\<close>

definition digest_u64 :: "string \<Rightarrow> int" where
  "digest_u64 d = be_val (take 8 d)"

lemma byte_val_range: "0 \<le> byte_val c" "byte_val c < 256"
proof -
  have "byte_val c = int (of_char c)" by (simp add: byte_val_def of_nat_of_char)
  moreover have "(of_char c :: nat) < 256" by simp
  ultimately show "0 \<le> byte_val c" "byte_val c < 256" by simp_all
qed

lemma be_val_range: "0 \<le> be_val cs" "be_val cs < 256 ^ length cs"
proof (induction cs)
  case (Cons c cs)
  {
    case 1
    show ?case using Cons byte_val_range(1) [of c] by simp
  next
    case 2
    have "(byte_val c + 1) * 256 ^ length cs \<le> 256 * 256 ^ length cs"
      using byte_val_range(2) [of c] by (intro mult_right_mono) auto
    then have "byte_val c * 256 ^ length cs + 256 ^ length cs \<le> 256 * 256 ^ length cs"
      by (simp only: distrib_right mult_1)
    then show ?case using Cons(2) by (simp only: be_val.simps length_Cons power_Suc)
  }
qed simp_all

lemma length_be_bytes [simp]: "length (be_bytes k n) = k"
  by (induction k) auto

lemma digest_u64_range: "0 \<le> digest_u64 d" "digest_u64 d < 2 ^ 64"
proof -
  show "0 \<le> digest_u64 d" by (simp add: digest_u64_def be_val_range)
  have "be_val (take 8 d) < 256 ^ length (take 8 d)" by (rule be_val_range)
  also have "(256 :: int) ^ length (take 8 d) \<le> 256 ^ 8" by (rule power_increasing) auto
  finally show "digest_u64 d < 2 ^ 64" by (simp add: digest_u64_def)
qed

end
