(* ===== verification/Lookups.thy ===== *)
theory Lookups
  imports Ingest Ranking Sha256
begin

text \<open>
  \<open>internal/index/lookup.go\<close> and the result methods of \<open>types.go\<close>: the exact and the chain
  lookup, the \<open>LookupRoute\<close> orchestration with its TENANT_HOT fallback and miss classifier, the
  affinity hint, and the LFU credit of a delivered result.

  A lookup reads the index under one read lock, so it is a function of one state; an
  orchestration that takes the lock several times is a function of the states it finds, and
  of the clock readings it makes.
\<close>

subsection \<open>The score of one replica\<close>

definition lookupPressure :: "Index \<Rightarrow> LookupRequest \<Rightarrow> gotime \<Rightarrow> duration \<Rightarrow> string \<Rightarrow> flt" where
  "lookupPressure i req now d rid =
     (case map_of (stats i) (StatsKey (lr_Tenant req) (lr_Model req) rid) of
        None \<Rightarrow> Fin 0
      | Some s \<Rightarrow>
          (if flt_lt (Fin 0) (freshnessAt now (se_statsReported s) d) then rs_Pressure (se_stats s)
           else Fin 0))"

definition rankedScore ::
  "Index \<Rightarrow> LookupRequest \<Rightarrow> gotime \<Rightarrow> duration \<Rightarrow> string \<Rightarrow> int \<Rightarrow> flt \<Rightarrow> CacheTier \<Rightarrow> ReplicaScore" where
  "rankedScore i req now d rid tokens fresh tier =
     (let pressureFactor = pressureFactorAt (lookupPressure i req now d rid) (PressureWeight (ranker i));
          sloBias = fadd binary32 (Fin 1)
                      (fmul binary32 fresh (sloTightBiasCoefficient (ranker i) (lr_TTFTBudgetMs req)))
      in \<lparr>sc_ReplicaID = rid,
          sc_Score = fmul binary32 (fmul binary32 (fmul binary32 (fint binary32 tokens) fresh) pressureFactor) sloBias,
          sc_MatchedTokens = tokens, sc_EstimatedCacheHitProb = fresh, sc_Tier = tier\<rparr>)"

definition totalReplicas :: "Index \<Rightarrow> LookupRequest \<Rightarrow> int" where
  "totalReplicas i req =
     int (length (gm_map (servingByScope i) (ScopeKey (lr_Tenant req) (lr_Model req) (lr_HashScheme req))))"

definition requestKey :: "LookupRequest \<Rightarrow> string \<Rightarrow> prefixKey" where
  "requestKey req h = PrefixKey (lr_Tenant req) (lr_Model req) (lr_HashScheme req) (lr_Adapter req) h"

type_synonym hits = "(string, nat list) gomap"

subsection \<open>The exact lookup\<close>

definition exactStep ::
  "Index \<Rightarrow> LookupRequest \<Rightarrow> gotime \<Rightarrow> string \<times> replicaEntry \<Rightarrow> ReplicaScore list \<times> hits \<Rightarrow>
     ReplicaScore list \<times> hits" where
  "exactStep i req now = (\<lambda>(rid, e) (scores, hits).
     (let d = ttlFor i (lr_Tenant req);
          lfu = (evictionFor i (lr_Tenant req) = EvictionLFU);
          fresh = freshnessAt now (re_lastSeen e) d
      in if flt_le fresh (Fin 0) then (scores, hits)
         else
           (scores @ [rankedScore i req now d rid (re_tokenCount e) fresh (re_tier e)],
            if lfu \<and> 0 < re_tokenCount e
            then AList.update rid ((case map_of hits rid of None \<Rightarrow> [] | Some es \<Rightarrow> es) @ [re_id e]) hits else hits)))"

definition lookupExact :: "Index \<Rightarrow> gotime \<Rightarrow> LookupRequest \<Rightarrow> ReplicaScore list \<times> hits" where
  "lookupExact i now req =
     (let replicas = gm_map (prefixes i) (requestKey req (lr_PrefixHash req));
          (scores, hits) = fold (exactStep i req now) replicas ([], []);
          scores = map (scaleScore (distinguishingPower (int (length scores)) (totalReplicas i req))) scores
      in (sortScoresDescByScoreThenID scores, hits))"

subsection \<open>The chain lookup\<close>

record running =
  run_matchedTokens :: int
  run_oldestLastSeen :: gotime
  run_tier :: CacheTier
  run_entries :: "nat list"

definition chainStart ::
  "Index \<Rightarrow> LookupRequest \<Rightarrow> gotime \<Rightarrow> string \<Rightarrow> int \<Rightarrow> (string, running) gomap" where
  "chainStart i req now h blockTokens =
     fold (\<lambda>(rid, e) current.
             if flt_le (freshnessAt now (re_lastSeen e) (ttlFor i (lr_Tenant req))) (Fin 0) then current
             else AList.update rid
                    \<lparr>run_matchedTokens = blockTokens, run_oldestLastSeen = re_lastSeen e,
                     run_tier = re_tier e,
                     run_entries = (if evictionFor i (lr_Tenant req) = EvictionLFU then [re_id e] else [])\<rparr>
                    current)
       (gm_map (prefixes i) (requestKey req h)) []"

definition extendRun :: "bool \<Rightarrow> running \<Rightarrow> replicaEntry \<Rightarrow> int \<Rightarrow> running" where
  "extendRun lfu st e blockTokens =
     \<lparr>run_matchedTokens = wrap32 (run_matchedTokens st + blockTokens),
      run_oldestLastSeen =
        (if re_lastSeen e < run_oldestLastSeen st then re_lastSeen e else run_oldestLastSeen st),
      run_tier = worstTier (run_tier st) (re_tier e),
      run_entries = (if lfu then run_entries st @ [re_id e] else run_entries st)\<rparr>"

definition chainNext ::
  "Index \<Rightarrow> LookupRequest \<Rightarrow> gotime \<Rightarrow> string \<Rightarrow> int \<Rightarrow>
     (string, running) gomap \<Rightarrow> (string, running) gomap \<Rightarrow> (string, running) gomap \<times> (string, running) gomap" where
  "chainNext i req now h blockTokens current finalized =
     fold (\<lambda>(rid, st) (next, fin).
             (case held i (requestKey req h) rid of
                None \<Rightarrow> (next, AList.update rid st fin)
              | Some e \<Rightarrow>
                  (if flt_le (freshnessAt now (re_lastSeen e) (ttlFor i (lr_Tenant req))) (Fin 0)
                   then (next, AList.update rid st fin)
                   else (AList.update rid
                           (extendRun (evictionFor i (lr_Tenant req) = EvictionLFU) st e blockTokens) next,
                         fin))))
       current ([], finalized)"

text \<open>The blocks after the first; the walk stops when no replica is still running.\<close>

fun chainWalk ::
  "Index \<Rightarrow> LookupRequest \<Rightarrow> gotime \<Rightarrow> (string \<times> int) list \<Rightarrow>
     (string, running) gomap \<Rightarrow> (string, running) gomap \<Rightarrow> (string, running) gomap \<times> (string, running) gomap" where
  "chainWalk i req now [] current finalized = (current, finalized)"
| "chainWalk i req now ((h, n) # blocks) current finalized =
     (if current = [] then (current, finalized)
      else
        (let (current, finalized) = chainNext i req now h n current finalized
         in chainWalk i req now blocks current finalized))"

definition chainRuns :: "Index \<Rightarrow> gotime \<Rightarrow> LookupRequest \<Rightarrow> (string, running) gomap" where
  "chainRuns i now req =
     (case zip (lr_BlockHashes req) (lr_BlockTokenCounts req) of
        [] \<Rightarrow> []
      | (h, n) # blocks \<Rightarrow>
          (let (current, finalized) = chainWalk i req now blocks (chainStart i req now h n) []
           in fold (\<lambda>(rid, st). AList.update rid st) current finalized))"

definition chainStep ::
  "Index \<Rightarrow> LookupRequest \<Rightarrow> gotime \<Rightarrow> string \<times> running \<Rightarrow> ReplicaScore list \<times> hits \<Rightarrow>
     ReplicaScore list \<times> hits" where
  "chainStep i req now = (\<lambda>(rid, st) (scores, hits).
     (let d = ttlFor i (lr_Tenant req);
          lfu = (evictionFor i (lr_Tenant req) = EvictionLFU);
          fresh = freshnessAt now (run_oldestLastSeen st) d
      in if run_matchedTokens st \<le> 0 then (scores, hits)
         else if flt_le fresh (Fin 0) then (scores, hits)
         else
           (scores @ [rankedScore i req now d rid (run_matchedTokens st) fresh (run_tier st)],
            if lfu \<and> 0 < length (run_entries st)
            then AList.update rid (run_entries st) hits else hits)))"

definition lookupChain :: "Index \<Rightarrow> gotime \<Rightarrow> LookupRequest \<Rightarrow> ReplicaScore list \<times> hits" where
  "lookupChain i now req =
     (let (scores, hits) = fold (chainStep i req now) (chainRuns i now req) ([], []);
          scores = applyChainDistinguishingPower scores (totalReplicas i req)
      in (sortScoresDescByScoreThenID scores, hits))"

definition lookupWithHits :: "Index \<Rightarrow> gotime \<Rightarrow> LookupRequest \<Rightarrow> ReplicaScore list \<times> hits" where
  "lookupWithHits i now req =
     (if lr_HashScheme req = '''' then ([], [])
      else if 0 < length (lr_BlockHashes req) \<or> 0 < length (lr_BlockTokenCounts req) then
        (if length (lr_BlockHashes req) \<noteq> length (lr_BlockTokenCounts req) then ([], [])
         else lookupChain i now req)
      else lookupExact i now req)"

definition Lookup :: "Index \<Rightarrow> gotime \<Rightarrow> LookupRequest \<Rightarrow> ReplicaScore list" where
  "Lookup i now req = fst (lookupWithHits i now req)"

subsection \<open>TENANT_HOT\<close>

record warmReplica =
  wr_hitRate :: flt
  wr_pressure :: flt
  wr_lastSeen :: gotime

definition warmReplicas :: "Index \<Rightarrow> gotime \<Rightarrow> LookupRequest \<Rightarrow> (string, warmReplica) gomap" where
  "warmReplicas i now req =
     fold (\<lambda>(rid, _) warm.
             (case map_of (stats i) (StatsKey (lr_Tenant req) (lr_Model req) rid) of
                None \<Rightarrow> warm
              | Some s \<Rightarrow>
                  (if TenantHotMaxAge (ranker i) \<le> time_sub now (se_statsReported s) then warm
                   else if flt_lt (rs_HitRate (se_stats s)) (TenantHotMinHitRate (ranker i)) then warm
                   else AList.update rid
                          \<lparr>wr_hitRate = rs_HitRate (se_stats s), wr_pressure = rs_Pressure (se_stats s),
                           wr_lastSeen = se_statsReported s\<rparr> warm)))
       (gm_map (replicasByModel i) (ModelKey (lr_Tenant req) (lr_Model req))) []"

definition recencyAt :: "gotime \<Rightarrow> gotime \<Rightarrow> duration \<Rightarrow> flt" where
  "recencyAt now lastSeen maxAge =
     (let age = time_sub now lastSeen
      in if age \<le> 0 then Fin 1
         else if maxAge \<le> age then Fin 0
         else fsub binary32 (Fin 1) (fdiv binary32 (fint binary32 age) (fint binary32 maxAge)))"

definition hotScore :: "Index \<Rightarrow> gotime \<Rightarrow> LookupRequest \<Rightarrow> string \<Rightarrow> warmReplica \<Rightarrow> ReplicaScore" where
  "hotScore i now req rid w =
     (let recency = recencyAt now (wr_lastSeen w) (TenantHotMaxAge (ranker i));
          pressureFactor = pressureFactorAt (wr_pressure w) (PressureWeight (ranker i));
          sloBias = fadd binary32 (Fin 1)
                      (fmul binary32 recency (sloTightBiasCoefficient (ranker i) (lr_TTFTBudgetMs req)))
      in \<lparr>sc_ReplicaID = rid,
          sc_Score = fmul binary32 (fmul binary32 (fmul binary32 (wr_hitRate w) recency) pressureFactor) sloBias,
          sc_MatchedTokens = 0, sc_EstimatedCacheHitProb = wr_hitRate w, sc_Tier = TierUnspecified\<rparr>)"

definition tenantHotCandidates :: "Index \<Rightarrow> gotime \<Rightarrow> LookupRequest \<Rightarrow> ReplicaScore list" where
  "tenantHotCandidates i now req =
     (if TenantHotMaxAge (ranker i) \<le> 0 then []
      else if lr_HashScheme req = '''' then []
      else if gm_map (replicasByModel i) (ModelKey (lr_Tenant req) (lr_Model req)) = [] then []
      else
        (let warm = warmReplicas i now req;
             serving = gm_map (servingByScope i) (ScopeKey (lr_Tenant req) (lr_Model req) (lr_HashScheme req))
         in if warm = [] then []
            else if serving = [] then []
            else sort_slice scoreLess
                   (concat (map (\<lambda>(rid, w). if gm_int serving rid = 0 then [] else [hotScore i now req rid w])
                      warm))))"

subsection \<open>Presence checks and the miss classifier\<close>

definition hasAnyForTenantLocked :: "Index \<Rightarrow> string \<Rightarrow> bool" where
  "hasAnyForTenantLocked i tenant \<longleftrightarrow> 0 < gm_int (prefixesByTenant i) tenant"

definition hasAnyForTenantModelLocked :: "Index \<Rightarrow> string \<Rightarrow> string \<Rightarrow> bool" where
  "hasAnyForTenantModelLocked i tenant model \<longleftrightarrow> 0 < gm_int (prefixesByTenantModel i) (ModelKey tenant model)"

definition hasAnyForTenantModelSchemeLocked :: "Index \<Rightarrow> string \<Rightarrow> string \<Rightarrow> string \<Rightarrow> bool" where
  "hasAnyForTenantModelSchemeLocked i tenant model hashScheme \<longleftrightarrow>
     0 < length (gm_map (servingByScope i) (ScopeKey tenant model hashScheme))"

definition classifyMiss :: "Index \<Rightarrow> LookupRequest \<Rightarrow> Strategy" where
  "classifyMiss i req =
     (if length (prefixes i) = 0 then StrategyNone
      else if \<not> hasAnyForTenantLocked i (lr_Tenant req) then StrategyUnknownTenant
      else if \<not> hasAnyForTenantModelLocked i (lr_Tenant req) (lr_Model req) then StrategyUnknownModel
      else if \<not> hasAnyForTenantModelSchemeLocked i (lr_Tenant req) (lr_Model req) (lr_HashScheme req)
      then StrategyUnknownHashScheme
      else StrategyNone)"

subsection \<open>The orchestration\<close>

text \<open>
  The prefix lookup, the TENANT_HOT fallback and the classifier each take the read lock on
  their own: they run on the states \<open>i1\<close>, \<open>i2\<close>, \<open>i3\<close>, with the clock at \<open>now1\<close>, \<open>now2\<close>.
\<close>

definition LookupRouteAt ::
  "Index \<Rightarrow> Index \<Rightarrow> Index \<Rightarrow> gotime \<Rightarrow> gotime \<Rightarrow> LookupRequest \<Rightarrow> LookupResult" where
  "LookupRouteAt i1 i2 i3 now1 now2 req =
     (if lr_Tenant req = '''' \<or> lr_Model req = '''' \<or> lr_HashScheme req = '''' then strategyOnly StrategyNone
      else if 0 < length (lr_BlockHashes req) \<or> 0 < length (lr_BlockTokenCounts req) then
        (if length (lr_BlockHashes req) \<noteq> length (lr_BlockTokenCounts req) then strategyOnly StrategyNone
         else
           (let (scores, hits) = lookupWithHits i1 now1 req
            in if 0 < length scores
               then \<lparr>res_Scores = scores, res_Strategy = StrategyPrefixMatch, res_hits = hits\<rparr>
               else strategyOnly (classifyMiss i3 req)))
      else
        (let (scores, hits) = lookupWithHits i1 now1 req
         in if 0 < length scores
            then \<lparr>res_Scores = scores, res_Strategy = StrategyPrefixMatch, res_hits = hits\<rparr>
            else
              (let hot = tenantHotCandidates i2 now2 req
               in if 0 < length hot
                  then \<lparr>res_Scores = hot, res_Strategy = StrategyTenantHot, res_hits = []\<rparr>
                  else strategyOnly (classifyMiss i3 req))))"

definition LookupRoute :: "Index \<Rightarrow> gotime \<Rightarrow> LookupRequest \<Rightarrow> LookupResult" where
  "LookupRoute i now req = LookupRouteAt i i i now now req"

subsection \<open>Affinity\<close>

definition replicasForRouting :: "Index \<Rightarrow> string \<Rightarrow> string \<Rightarrow> string \<Rightarrow> string list" where
  "replicasForRouting i tenant model hashScheme =
     (if hashScheme = '''' then []
      else
        (case map_of (servingByScope i) (ScopeKey tenant model hashScheme) of
           None \<Rightarrow> []
         | Some m \<Rightarrow> sort_slice (<) (map fst m)))"

definition AffinityHint :: "Index \<Rightarrow> string \<Rightarrow> string \<Rightarrow> string \<Rightarrow> string \<Rightarrow> string option" where
  "AffinityHint i tenant model hashScheme seed =
     (if length seed = 0 then None
      else
        (let replicas = replicasForRouting i tenant model hashScheme
         in if length replicas = 0 then None
            else Some (replicas ! nat (digest_u64 (sha256_sum seed) mod int (length replicas)))))"

subsection \<open>Crediting and pruning a result\<close>

definition bumpEntry :: "nat \<Rightarrow> Index \<Rightarrow> Index" where
  "bumpEntry n i =
     i\<lparr>prefixes := map (\<lambda>(k, rs). (k, map (\<lambda>(r, e).
         (r, if re_id e = n then e\<lparr>re_accessCount := re_accessCount e + 1\<rparr> else e)) rs)) (prefixes i)\<rparr>"

definition CreditHits :: "LookupResult \<Rightarrow> Index \<Rightarrow> Index" where
  "CreditHits r i = fold (\<lambda>(_, entries). fold bumpEntry entries) (res_hits r) i"

definition RetainReplicas :: "(string, bool) gomap \<Rightarrow> LookupResult \<Rightarrow> LookupResult" where
  "RetainReplicas keep r =
     (let kept = (\<lambda>rid. map_of keep rid = Some True)
      in if length (res_Scores r) = 0 then r
         else r\<lparr>res_Scores := filter (\<lambda>sc. kept (sc_ReplicaID sc)) (res_Scores r),
                res_hits := filter (\<lambda>(rid, _). kept rid) (res_hits r)\<rparr>)"

subsection \<open>Loops over maps\<close>

lemma map_of_fold_update:
  assumes "gm_wf m"
  shows "map_of (fold (\<lambda>(k, v) acc. if P k v then AList.update k (f k v) acc else acc) m acc) x =
    (case map_of m x of None \<Rightarrow> map_of acc x | Some v \<Rightarrow> if P x v then Some (f x v) else map_of acc x)"
  using assms
proof (induction m arbitrary: acc)
  case (Cons p m)
  obtain k v where p: "p = (k, v)" by (cases p)
  have wf: "gm_wf m" "map_of m k = None" using gm_wf_ConsD [OF Cons.prems] p by (auto simp: map_of_eq_None_iff)
  show ?case using Cons.IH [OF wf(1)] wf(2) p
    by (auto simp: gomap_simps split: option.splits)
qed simp

lemma gm_wf_fold_update:
  "gm_wf acc \<Longrightarrow> gm_wf (fold (\<lambda>(k, v) acc. if P k v then AList.update k (f k v) acc else acc) m acc)"
  by (induction m arbitrary: acc) auto

subsection \<open>What the exact lookup returns\<close>

definition freshFor :: "Index \<Rightarrow> LookupRequest \<Rightarrow> gotime \<Rightarrow> replicaEntry \<Rightarrow> bool" where
  "freshFor i req now e \<longleftrightarrow>
     \<not> flt_le (freshnessAt now (re_lastSeen e) (ttlFor i (lr_Tenant req))) (Fin 0)"

definition entryScore :: "Index \<Rightarrow> LookupRequest \<Rightarrow> gotime \<Rightarrow> string \<times> replicaEntry \<Rightarrow> ReplicaScore" where
  "entryScore i req now = (\<lambda>(rid, e).
     rankedScore i req now (ttlFor i (lr_Tenant req)) rid (re_tokenCount e)
       (freshnessAt now (re_lastSeen e) (ttlFor i (lr_Tenant req))) (re_tier e))"

lemma exactStep_scores:
  "fst (fold (exactStep i req now) rs (scores, hits)) =
     scores @ map (entryScore i req now) (filter (\<lambda>(_, e). freshFor i req now e) rs)"
  by (induction rs arbitrary: scores hits)
    (auto simp: exactStep_def Let_def freshFor_def entryScore_def)

lemma exactStep_hits:
  assumes "gm_wf rs" and "\<forall>r \<in> fst ` set rs. map_of hits r = None"
  shows "map_of (snd (fold (exactStep i req now) rs (scores, hits))) r =
    (case map_of rs r of
       None \<Rightarrow> map_of hits r
     | Some e \<Rightarrow>
         if evictionFor i (lr_Tenant req) = EvictionLFU \<and> freshFor i req now e \<and> 0 < re_tokenCount e
         then Some [re_id e] else None)"
  using assms
proof (induction rs arbitrary: scores hits)
  case (Cons p rs)
  obtain k e where p: "p = (k, e)" by (cases p)
  have wf: "gm_wf rs" "k \<notin> fst ` set rs" using gm_wf_ConsD [OF Cons.prems(1)] p by auto
  obtain scores' hits' where s: "exactStep i req now (k, e) (scores, hits) = (scores', hits')" by fastforce
  have h': "hits' = (if evictionFor i (lr_Tenant req) = EvictionLFU \<and> freshFor i req now e \<and> 0 < re_tokenCount e
      then AList.update k [re_id e] hits else hits)"
    using s Cons.prems(2) p by (auto simp: exactStep_def Let_def freshFor_def split: if_splits)
  have "\<forall>r \<in> fst ` set rs. map_of hits' r = None"
    using Cons.prems(2) wf(2) p by (auto simp: h' gomap_simps)
  note IH = Cons.IH [OF wf(1) this, of scores']
  have k: "map_of rs k = None" "map_of hits k = None" using wf(2) Cons.prems(2) p by (auto simp: map_of_eq_None_iff)
  show ?case using IH k p s by (auto simp: h' gomap_simps split: option.splits)
qed simp

lemma lookupExact_eq:
  "lookupExact i now req =
     (let scores = map (entryScore i req now)
            (filter (\<lambda>(_, e). freshFor i req now e) (gm_map (prefixes i) (requestKey req (lr_PrefixHash req))))
      in (sortScoresDescByScoreThenID
            (map (scaleScore (distinguishingPower (int (length scores)) (totalReplicas i req))) scores),
          snd (fold (exactStep i req now) (gm_map (prefixes i) (requestKey req (lr_PrefixHash req))) ([], []))))"
  by (simp add: lookupExact_def Let_def case_prod_beta exactStep_scores)

lemma entryScore_frame [simp]:
  "sc_ReplicaID (entryScore i req now x) = fst x"
  "sc_MatchedTokens (entryScore i req now x) = re_tokenCount (snd x)"
  "sc_Tier (entryScore i req now x) = re_tier (snd x)"
  "sc_EstimatedCacheHitProb (entryScore i req now x) =
     freshnessAt now (re_lastSeen (snd x)) (ttlFor i (lr_Tenant req))"
  by (simp_all add: entryScore_def rankedScore_def Let_def case_prod_beta)

lemma set_sortScores [simp]: "set (sortScoresDescByScoreThenID xs) = set xs"
  by (simp add: sortScoresDescByScoreThenID_def)

lemma lookupExact_replicas:
  assumes "prefix_inv i"
  shows "sc_ReplicaID ` set (fst (lookupExact i now req)) =
    {r. \<exists>e. held i (requestKey req (lr_PrefixHash req)) r = Some e \<and> freshFor i req now e}"
proof -
  let ?rs = "gm_map (prefixes i) (requestKey req (lr_PrefixHash req))"
  have "sc_ReplicaID ` set (fst (lookupExact i now req)) = {r. \<exists>e. (r, e) \<in> set ?rs \<and> freshFor i req now e}"
    by (auto simp: lookupExact_eq Let_def image_iff)
  then show ?thesis using map_of_gm_wf [OF prefix_inv_inner [OF assms]] by simp
qed

lemma lookupExact_score:
  assumes "prefix_inv i" and "s \<in> set (fst (lookupExact i now req))"
  obtains e where "held i (requestKey req (lr_PrefixHash req)) (sc_ReplicaID s) = Some e"
    and "freshFor i req now e" and "sc_MatchedTokens s = re_tokenCount e" and "sc_Tier s = re_tier e"
proof -
  obtain r e where "(r, e) \<in> set (gm_map (prefixes i) (requestKey req (lr_PrefixHash req)))"
    and e: "freshFor i req now e" "sc_ReplicaID s = r" "sc_MatchedTokens s = re_tokenCount e" "sc_Tier s = re_tier e"
    using assms(2) by (auto simp: lookupExact_eq Let_def)
  then have "held i (requestKey req (lr_PrefixHash req)) r = Some e"
    using map_of_gm_wf [OF prefix_inv_inner [OF assms(1)]] by simp
  with e show ?thesis using that by simp
qed

subsection \<open>The chain walk finds the longest leading runs\<close>

text \<open>The fresh entry a replica has for a block, and the reference: follow one replica alone.\<close>

definition look :: "Index \<Rightarrow> LookupRequest \<Rightarrow> gotime \<Rightarrow> string \<Rightarrow> string \<Rightarrow> replicaEntry option" where
  "look i req now rid h =
     (case held i (requestKey req h) rid of
        None \<Rightarrow> None | Some e \<Rightarrow> if freshFor i req now e then Some e else None)"

definition startRun :: "bool \<Rightarrow> replicaEntry \<Rightarrow> int \<Rightarrow> running" where
  "startRun lfu e n =
     \<lparr>run_matchedTokens = n, run_oldestLastSeen = re_lastSeen e, run_tier = re_tier e,
      run_entries = (if lfu then [re_id e] else [])\<rparr>"

fun runOn :: "bool \<Rightarrow> (string \<Rightarrow> replicaEntry option) \<Rightarrow> running \<Rightarrow> (string \<times> int) list \<Rightarrow> running" where
  "runOn lfu lk st [] = st"
| "runOn lfu lk st ((h, n) # bs) =
     (case lk h of None \<Rightarrow> st | Some e \<Rightarrow> runOn lfu lk (extendRun lfu st e n) bs)"

definition runOf :: "Index \<Rightarrow> LookupRequest \<Rightarrow> gotime \<Rightarrow> string \<Rightarrow> running option" where
  "runOf i req now rid =
     (let lfu = (evictionFor i (lr_Tenant req) = EvictionLFU)
      in case zip (lr_BlockHashes req) (lr_BlockTokenCounts req) of
           [] \<Rightarrow> None
         | (h, n) # bs \<Rightarrow>
             map_option (\<lambda>e. runOn lfu (look i req now rid) (startRun lfu e n) bs) (look i req now rid h))"

lemma chainStart_spec:
  assumes "prefix_inv i"
  shows "map_of (chainStart i req now h n) rid =
      map_option (\<lambda>e. startRun (evictionFor i (lr_Tenant req) = EvictionLFU) e n) (look i req now rid h)"
    and "gm_wf (chainStart i req now h n)"
proof -
  let ?f = "\<lambda>_ e. startRun (evictionFor i (lr_Tenant req) = EvictionLFU) e n"
  have eq: "chainStart i req now h n =
      fold (\<lambda>(k, v) acc. if freshFor i req now v then AList.update k (?f k v) acc else acc)
        (gm_map (prefixes i) (requestKey req h)) []"
    unfolding chainStart_def
    by (rule arg_cong [where f = "\<lambda>g. fold g _ _"]) (auto simp: fun_eq_iff freshFor_def startRun_def)
  show "map_of (chainStart i req now h n) rid =
      map_option (\<lambda>e. startRun (evictionFor i (lr_Tenant req) = EvictionLFU) e n) (look i req now rid h)"
    unfolding eq map_of_fold_update [OF prefix_inv_inner [OF assms]]
    by (simp add: look_def split: option.splits)
  show "gm_wf (chainStart i req now h n)" unfolding eq by (rule gm_wf_fold_update) simp
qed

lemma chainNext_fold:
  assumes "gm_wf cur"
  shows "fold (\<lambda>(rid, st) (next, fin).
             (case lk rid of
                None \<Rightarrow> (next, AList.update rid st fin)
              | Some e \<Rightarrow> (AList.update rid (g st e) next, fin))) cur (nxt, fin) =
    (fold (\<lambda>(k, st) acc. if lk k \<noteq> None then AList.update k (g st (the (lk k))) acc else acc) cur nxt,
     fold (\<lambda>(k, st) acc. if lk k = None then AList.update k st acc else acc) cur fin)"
  by (induction cur arbitrary: nxt fin) (auto split: option.splits)

lemma chainNext_spec:
  fixes i :: Index and req :: LookupRequest and now :: gotime and h :: string and n :: int
  assumes "gm_wf cur" and "gm_wf fin"
  defines "r \<equiv> chainNext i req now h n cur fin"
  shows "gm_wf (fst r)" and "gm_wf (snd r)"
    and "map_of (fst r) x =
      (case map_of cur x of None \<Rightarrow> None
       | Some st \<Rightarrow> map_option (\<lambda>e. extendRun (evictionFor i (lr_Tenant req) = EvictionLFU) st e n) (look i req now x h))"
    and "map_of (snd r) x =
      (case map_of cur x of None \<Rightarrow> map_of fin x
       | Some st \<Rightarrow> if look i req now x h = None then Some st else map_of fin x)"
proof -
  let ?lk = "\<lambda>x. look i req now x h" and ?g = "\<lambda>st e. extendRun (evictionFor i (lr_Tenant req) = EvictionLFU) st e n"
  have "r = fold (\<lambda>(rid, st) (next, fin).
             (case ?lk rid of
                None \<Rightarrow> (next, AList.update rid st fin)
              | Some e \<Rightarrow> (AList.update rid (?g st e) next, fin))) cur ([], fin)"
    unfolding r_def chainNext_def
    by (rule arg_cong [where f = "\<lambda>g. fold g _ _"])
      (auto simp: fun_eq_iff look_def freshFor_def split: option.splits)
  then have r: "r =
    (fold (\<lambda>(k, st) acc. if ?lk k \<noteq> None then AList.update k (?g st (the (?lk k))) acc else acc) cur [],
     fold (\<lambda>(k, st) acc. if ?lk k = None then AList.update k st acc else acc) cur fin)"
    by (simp only: chainNext_fold [OF assms(1)])
  show "gm_wf (fst r)" "gm_wf (snd r)" using assms(2) by (simp_all add: r gm_wf_fold_update)
  show "map_of (fst r) x =
      (case map_of cur x of None \<Rightarrow> None | Some st \<Rightarrow> map_option (?g st) (?lk x))"
    unfolding r fst_conv map_of_fold_update [OF assms(1)] by (auto split: option.splits)
  show "map_of (snd r) x =
      (case map_of cur x of None \<Rightarrow> map_of fin x | Some st \<Rightarrow> if ?lk x = None then Some st else map_of fin x)"
    unfolding r snd_conv map_of_fold_update [OF assms(1)] by simp
qed

lemma chainWalk_spec:
  fixes i :: Index and req :: LookupRequest and now :: gotime and bs :: "(string \<times> int) list"
  assumes "gm_wf cur" and "gm_wf fin" and "\<forall>x. map_of cur x = None \<or> map_of fin x = None"
  defines "r \<equiv> chainWalk i req now bs cur fin"
  shows "gm_wf (fst r) \<and> gm_wf (snd r) \<and>
    (case map_of (fst r) x of None \<Rightarrow> map_of (snd r) x | Some st \<Rightarrow> Some st) =
      (case map_of cur x of None \<Rightarrow> map_of fin x
       | Some st \<Rightarrow> Some (runOn (evictionFor i (lr_Tenant req) = EvictionLFU) (look i req now x) st bs))"
  using assms(1-3) unfolding r_def
proof (induction bs arbitrary: cur fin)
  case Nil
  then show ?case by (simp split: option.splits)
next
  case (Cons b bs)
  obtain h n where b: "b = (h, n)" by (cases b)
  show ?case
  proof (cases "cur = []")
    case True
    then show ?thesis using Cons.prems b by (simp split: option.splits)
  next
    case False
    obtain cur' fin' where c: "chainNext i req now h n cur fin = (cur', fin')" by fastforce
    note sp = chainNext_spec [OF Cons.prems(1,2), where i = i and req = req and now = now and h = h and n = n,
        unfolded c, simplified]
    have "\<forall>x. map_of cur' x = None \<or> map_of fin' x = None"
    proof
      fix x
      show "map_of cur' x = None \<or> map_of fin' x = None"
        using Cons.prems(3) [rule_format, of x] by (auto simp: sp(3,4) split: option.splits)
    qed
    note IH = Cons.IH [OF sp(1,2) this]
    have w: "chainWalk i req now (b # bs) cur fin = chainWalk i req now bs cur' fin'"
      using False by (simp add: b c)
    have "(case map_of cur' x of None \<Rightarrow> map_of fin' x
       | Some st \<Rightarrow> Some (runOn (evictionFor i (lr_Tenant req) = EvictionLFU) (look i req now x) st bs)) =
      (case map_of cur x of None \<Rightarrow> map_of fin x
       | Some st \<Rightarrow> Some (runOn (evictionFor i (lr_Tenant req) = EvictionLFU) (look i req now x) st (b # bs)))"
      using Cons.prems(3) [rule_format, of x] by (auto simp: sp(3,4) b split: option.splits)
    with IH show ?thesis unfolding w by simp
  qed
qed

lemma chainRuns_spec:
  assumes "prefix_inv i"
  shows "map_of (chainRuns i now req) rid = runOf i req now rid" and "gm_wf (chainRuns i now req)"
proof -
  have "map_of (chainRuns i now req) rid = runOf i req now rid \<and> gm_wf (chainRuns i now req)"
  proof (cases "zip (lr_BlockHashes req) (lr_BlockTokenCounts req)")
    case Nil
    show ?thesis unfolding chainRuns_def runOf_def Nil Let_def by simp
  next
    case (Cons b bs)
    obtain h n where b: "b = (h, n)" by (cases b)
    obtain cur fin where c: "chainWalk i req now bs (chainStart i req now h n) [] = (cur, fin)" by fastforce
    note st = chainStart_spec [OF assms, of req now h n]
    note w = chainWalk_spec [OF st(2), where i = i and req = req and now = now and bs = bs and x = rid and fin = "[]",
        unfolded c, simplified]
    have wfs: "gm_wf cur" "gm_wf fin" using w by simp_all
    have eq: "chainRuns i now req = fold (\<lambda>(k, v) acc. if True then AList.update k v acc else acc) cur fin"
      by (simp add: chainRuns_def Cons b c case_prod_beta')
    have "map_of (chainRuns i now req) rid = (case map_of cur rid of None \<Rightarrow> map_of fin rid | Some st \<Rightarrow> Some st)"
      unfolding eq map_of_fold_update [OF wfs(1)] by (simp split: option.splits)
    moreover have "gm_wf (chainRuns i now req)"
      unfolding eq by (rule gm_wf_fold_update [OF wfs(2)])
    ultimately show ?thesis
      using w st(1) by (auto simp: runOf_def Cons b Let_def split: option.splits)
  qed
  then show "map_of (chainRuns i now req) rid = runOf i req now rid" and "gm_wf (chainRuns i now req)" by auto
qed

text \<open>The blocks of a replica's longest leading run, and what a run says about them.\<close>

definition leadingRun :: "(string \<Rightarrow> replicaEntry option) \<Rightarrow> (string \<times> int) list \<Rightarrow> (string \<times> int) list" where
  "leadingRun lk bs = takeWhile (\<lambda>(h, _). lk h \<noteq> None) bs"

definition runTier :: "(string \<Rightarrow> replicaEntry option) \<Rightarrow> (string \<times> int) list \<Rightarrow> CacheTier \<Rightarrow> CacheTier" where
  "runTier lk bs t = fold (\<lambda>(h, _) t. worstTier t (re_tier (the (lk h)))) bs t"

lemma runOn_closed:
  assumes "is_int32 (run_matchedTokens st)"
  shows "run_matchedTokens (runOn lfu lk st bs) =
      wrap32 (run_matchedTokens st + sum_list (map snd (leadingRun lk bs))) \<and>
    run_oldestLastSeen (runOn lfu lk st bs) =
      Min (insert (run_oldestLastSeen st) ((\<lambda>(h, _). re_lastSeen (the (lk h))) ` set (leadingRun lk bs))) \<and>
    run_tier (runOn lfu lk st bs) = runTier lk (leadingRun lk bs) (run_tier st) \<and>
    run_entries (runOn lfu lk st bs) =
      run_entries st @ (if lfu then map (\<lambda>(h, _). re_id (the (lk h))) (leadingRun lk bs) else [])"
  using assms
proof (induction lfu lk st bs rule: runOn.induct)
  case (1 lfu lk st)
  then show ?case by (simp add: leadingRun_def runTier_def)
next
  case (2 lfu lk st h n bs)
  show ?case
  proof (cases "lk h")
    case None
    then show ?thesis using "2.prems" by (simp add: leadingRun_def runTier_def)
  next
    case (Some e)
    let ?st = "extendRun lfu st e n"
    have "is_int32 (run_matchedTokens ?st)" by (simp add: extendRun_def)
    note IH = "2.IH" [OF Some this]
    let ?S = "(\<lambda>(h, _). re_lastSeen (the (lk h))) ` set (leadingRun lk bs)"
    have l: "leadingRun lk ((h, n) # bs) = (h, n) # leadingRun lk bs" using Some by (simp add: leadingRun_def)
    have r: "runOn lfu lk st ((h, n) # bs) = runOn lfu lk ?st bs" using Some by simp
    have "Min (insert (run_oldestLastSeen ?st) ?S) = Min (insert (run_oldestLastSeen st) (insert (re_lastSeen e) ?S))"
    proof -
      have "run_oldestLastSeen ?st = min (run_oldestLastSeen st) (re_lastSeen e)"
        by (simp add: extendRun_def min_def)
      then show ?thesis by (cases "?S = {}") (simp_all only: Min_insert finite_imageI finite_set min.assoc
            finite_insert insert_not_empty not_False_eq_True Min_singleton finite.emptyI)
    qed
    then show ?thesis
      unfolding r l using IH Some by (simp add: extendRun_def runTier_def add.assoc)
  qed
qed

definition blocksOf :: "LookupRequest \<Rightarrow> (string \<times> int) list" where
  "blocksOf req = zip (lr_BlockHashes req) (lr_BlockTokenCounts req)"

definition leadOf :: "Index \<Rightarrow> LookupRequest \<Rightarrow> gotime \<Rightarrow> string \<Rightarrow> (string \<times> int) list" where
  "leadOf i req now rid = leadingRun (look i req now rid) (blocksOf req)"

lemma runOf_None: "runOf i req now rid = None \<longleftrightarrow> leadOf i req now rid = []"
  by (cases "blocksOf req")
    (auto simp: runOf_def leadOf_def leadingRun_def blocksOf_def [symmetric] Let_def)

lemma runOf_Some:
  assumes "runOf i req now rid = Some st" and "\<forall>n \<in> set (lr_BlockTokenCounts req). is_int32 n"
  shows "run_matchedTokens st = wrap32 (sum_list (map snd (leadOf i req now rid)))"
    and "run_oldestLastSeen st =
      Min ((\<lambda>(h, _). re_lastSeen (the (look i req now rid h))) ` set (leadOf i req now rid))"
    and "run_entries st =
      (if evictionFor i (lr_Tenant req) = EvictionLFU
       then map (\<lambda>(h, _). re_id (the (look i req now rid h))) (leadOf i req now rid) else [])"
    and "run_tier st = runTier (look i req now rid) (tl (leadOf i req now rid))
      (re_tier (the (look i req now rid (fst (hd (leadOf i req now rid))))))"
proof -
  obtain h n bs where b: "blocksOf req = (h, n) # bs"
    using assms(1) by (cases "blocksOf req") (auto simp: runOf_def blocksOf_def [symmetric] Let_def)
  then have "(h, n) \<in> set (zip (lr_BlockHashes req) (lr_BlockTokenCounts req))"
    unfolding blocksOf_def by simp
  then have n: "is_int32 n" using assms(2) by (auto dest: set_zip_rightD)
  obtain e where e: "look i req now rid h = Some e"
    and st: "st = runOn (evictionFor i (lr_Tenant req) = EvictionLFU) (look i req now rid)
               (startRun (evictionFor i (lr_Tenant req) = EvictionLFU) e n) bs"
    using assms(1) b by (auto simp: runOf_def blocksOf_def [symmetric] Let_def)
  have l: "leadOf i req now rid = (h, n) # leadingRun (look i req now rid) bs"
    using e by (simp add: leadOf_def b leadingRun_def)
  have i32: "is_int32 (run_matchedTokens (startRun lfu e n))" for lfu using n by (simp add: startRun_def)
  note c = runOn_closed [OF i32, where lk = "look i req now rid" and bs = bs]
  show "run_matchedTokens st = wrap32 (sum_list (map snd (leadOf i req now rid)))"
    and "run_oldestLastSeen st =
      Min ((\<lambda>(h, _). re_lastSeen (the (look i req now rid h))) ` set (leadOf i req now rid))"
    and "run_entries st =
      (if evictionFor i (lr_Tenant req) = EvictionLFU
       then map (\<lambda>(h, _). re_id (the (look i req now rid h))) (leadOf i req now rid) else [])"
    and "run_tier st = runTier (look i req now rid) (tl (leadOf i req now rid))
      (re_tier (the (look i req now rid (fst (hd (leadOf i req now rid))))))"
    using c by (simp_all add: st l e startRun_def)
qed

text \<open>The oldest block of a run is fresh, so the second freshness check never rejects a run.\<close>

lemma runOf_fresh:
  assumes "runOf i req now rid = Some st" and "\<forall>n \<in> set (lr_BlockTokenCounts req). is_int32 n"
  shows "\<not> flt_le (freshnessAt now (run_oldestLastSeen st) (ttlFor i (lr_Tenant req))) (Fin 0)"
proof -
  let ?L = "leadOf i req now rid" let ?f = "\<lambda>(h, _ :: int). re_lastSeen (the (look i req now rid h))"
  have "?L \<noteq> []" using assms(1) runOf_None [of i req now rid] by auto
  then have "run_oldestLastSeen st \<in> ?f ` set ?L"
    unfolding runOf_Some(2) [OF assms] by (intro Min_in) auto
  then obtain h n where hn: "(h, n) \<in> set ?L" "run_oldestLastSeen st = re_lastSeen (the (look i req now rid h))"
    by auto
  then have "look i req now rid h \<noteq> None"
    unfolding leadOf_def leadingRun_def by (auto dest: set_takeWhileD)
  then show ?thesis using hn(2) by (auto simp: look_def freshFor_def split: option.splits if_splits)
qed

end
