(* ===== verification/Lookup_Facts.thy ===== *)
theory Lookup_Facts
  imports Lookups
begin

text \<open>
  What the lookups of \<open>internal/index/lookup.go\<close> promise: which replicas a chain lookup scores
  and with what, which entries are credited, what the miss classifier and the affinity hint
  mean in terms of the entries held, and that no answer depends on the order in which the
  maps are iterated.
\<close>

subsection \<open>The chain lookup\<close>

definition runOk :: "Index \<Rightarrow> LookupRequest \<Rightarrow> gotime \<Rightarrow> running \<Rightarrow> bool" where
  "runOk i req now st \<longleftrightarrow>
     0 < run_matchedTokens st \<and>
     \<not> flt_le (freshnessAt now (run_oldestLastSeen st) (ttlFor i (lr_Tenant req))) (Fin 0)"

definition runScore :: "Index \<Rightarrow> LookupRequest \<Rightarrow> gotime \<Rightarrow> string \<times> running \<Rightarrow> ReplicaScore" where
  "runScore i req now = (\<lambda>(rid, st).
     rankedScore i req now (ttlFor i (lr_Tenant req)) rid (run_matchedTokens st)
       (freshnessAt now (run_oldestLastSeen st) (ttlFor i (lr_Tenant req))) (run_tier st))"

lemma runScore_frame [simp]:
  "sc_ReplicaID (runScore i req now x) = fst x"
  "sc_MatchedTokens (runScore i req now x) = run_matchedTokens (snd x)"
  "sc_Tier (runScore i req now x) = run_tier (snd x)"
  by (simp_all add: runScore_def rankedScore_def Let_def case_prod_beta)

lemma chainStep_scores:
  "fst (fold (chainStep i req now) rs (scores, hits)) =
     scores @ map (runScore i req now) (filter (\<lambda>(_, st). runOk i req now st) rs)"
  by (induction rs arbitrary: scores hits) (auto simp: chainStep_def Let_def runOk_def runScore_def)

lemma chainStep_hits:
  assumes "gm_wf rs"
  shows "map_of (snd (fold (chainStep i req now) rs (scores, hits))) r =
    (case map_of rs r of
       None \<Rightarrow> map_of hits r
     | Some st \<Rightarrow>
         if evictionFor i (lr_Tenant req) = EvictionLFU \<and> runOk i req now st \<and> run_entries st \<noteq> []
         then Some (run_entries st) else map_of hits r)"
  using assms
proof (induction rs arbitrary: scores hits)
  case (Cons p rs)
  obtain k st where p: "p = (k, st)" by (cases p)
  have wf: "gm_wf rs" "map_of rs k = None" using gm_wf_ConsD [OF Cons.prems] p by (auto simp: map_of_eq_None_iff)
  obtain scores' hits' where s: "chainStep i req now (k, st) (scores, hits) = (scores', hits')" by fastforce
  have h': "hits' = (if evictionFor i (lr_Tenant req) = EvictionLFU \<and> runOk i req now st \<and> run_entries st \<noteq> []
      then AList.update k (run_entries st) hits else hits)"
    using s by (auto simp: chainStep_def Let_def runOk_def split: if_splits)
  show ?case using Cons.IH [OF wf(1), of scores' hits'] wf(2) p s
    by (auto simp: h' gomap_simps split: option.splits)
qed simp

definition chainScores :: "Index \<Rightarrow> gotime \<Rightarrow> LookupRequest \<Rightarrow> ReplicaScore list" where
  "chainScores i now req =
     map (runScore i req now) (filter (\<lambda>(_, st). runOk i req now st) (chainRuns i now req))"

lemma lookupChain_eq:
  "lookupChain i now req =
     (sortScoresDescByScoreThenID (applyChainDistinguishingPower (chainScores i now req) (totalReplicas i req)),
      snd (fold (chainStep i req now) (chainRuns i now req) ([], [])))"
  by (simp add: lookupChain_def Let_def case_prod_beta chainStep_scores chainScores_def)

lemma set_lookupChain:
  "set (fst (lookupChain i now req)) =
     (\<lambda>s. scaleScore (distinguishingPower (depthCount (chainScores i now req) s) (totalReplicas i req)) s)
       ` set (chainScores i now req)"
proof -
  have "set_mset (mset (applyChainDistinguishingPower (chainScores i now req) (totalReplicas i req))) =
      (\<lambda>s. scaleScore (distinguishingPower (depthCount (chainScores i now req) s) (totalReplicas i req)) s)
        ` set (chainScores i now req)"
    unfolding mset_applyChain by simp
  then show ?thesis by (simp add: lookupChain_eq)
qed

lemma set_chainScores:
  assumes "prefix_inv i"
  shows "set (chainScores i now req) =
    {runScore i req now (rid, st) | rid st. runOf i req now rid = Some st \<and> runOk i req now st}"
proof -
  have "(rid, st) \<in> set (chainRuns i now req) \<longleftrightarrow> runOf i req now rid = Some st" for rid st
    using map_of_gm_wf [OF chainRuns_spec(2) [OF assms]] chainRuns_spec(1) [OF assms] by simp
  then show ?thesis by (auto simp: chainScores_def)
qed

text \<open>
  A replica is in the result exactly when its longest leading run has a positive token count,
  and it is scored with that count.
\<close>

definition runTokens :: "Index \<Rightarrow> LookupRequest \<Rightarrow> gotime \<Rightarrow> string \<Rightarrow> int" where
  "runTokens i req now rid = wrap32 (sum_list (map snd (leadOf i req now rid)))"

lemma lookupChain_replicas:
  assumes "prefix_inv i" and "\<forall>n \<in> set (lr_BlockTokenCounts req). is_int32 n"
  shows "sc_ReplicaID ` set (fst (lookupChain i now req)) = {rid. 0 < runTokens i req now rid}"
proof -
  have "(\<exists>st. runOf i req now rid = Some st \<and> runOk i req now st) \<longleftrightarrow> 0 < runTokens i req now rid" for rid
  proof (cases "runOf i req now rid")
    case None
    then have "leadOf i req now rid = []" by (simp add: runOf_None)
    then show ?thesis using None by (simp add: runTokens_def wrap32_def)
  next
    case (Some st)
    then show ?thesis
      using runOf_Some(1) [OF Some assms(2)] runOf_fresh [OF Some assms(2)] by (simp add: runOk_def runTokens_def)
  qed
  then show ?thesis by (force simp: set_lookupChain set_chainScores [OF assms(1)] image_iff)
qed

lemma lookupChain_score:
  assumes "prefix_inv i" and "\<forall>n \<in> set (lr_BlockTokenCounts req). is_int32 n"
    and "s \<in> set (fst (lookupChain i now req))"
  shows "sc_MatchedTokens s = runTokens i req now (sc_ReplicaID s)"
    and "leadOf i req now (sc_ReplicaID s) \<noteq> []"
    and "sc_Tier s =
      runTier (look i req now (sc_ReplicaID s)) (tl (leadOf i req now (sc_ReplicaID s)))
        (re_tier (the (look i req now (sc_ReplicaID s) (fst (hd (leadOf i req now (sc_ReplicaID s)))))))"
proof -
  obtain rid st where st: "runOf i req now rid = Some st"
    and s: "sc_ReplicaID s = rid" "sc_MatchedTokens s = run_matchedTokens st" "sc_Tier s = run_tier st"
    using assms(3) by (auto simp: set_lookupChain set_chainScores [OF assms(1)])
  show "sc_MatchedTokens s = runTokens i req now (sc_ReplicaID s)"
    by (simp add: s runOf_Some(1) [OF st assms(2)] runTokens_def)
  show "leadOf i req now (sc_ReplicaID s) \<noteq> []" using st runOf_None [of i req now rid] s by auto
  show "sc_Tier s =
      runTier (look i req now (sc_ReplicaID s)) (tl (leadOf i req now (sc_ReplicaID s)))
        (re_tier (the (look i req now (sc_ReplicaID s) (fst (hd (leadOf i req now (sc_ReplicaID s)))))))"
    by (simp add: s runOf_Some(4) [OF st assms(2)])
qed

subsection \<open>The captured hits\<close>

lemma exactStep_lru:
  "evictionFor i (lr_Tenant req) \<noteq> EvictionLFU \<Longrightarrow>
     snd (fold (exactStep i req now) rs (scores, hits)) = hits"
  by (induction rs arbitrary: scores hits) (auto simp: exactStep_def Let_def)

lemma chainStep_lru:
  "evictionFor i (lr_Tenant req) \<noteq> EvictionLFU \<Longrightarrow>
     snd (fold (chainStep i req now) rs (scores, hits)) = hits"
  by (induction rs arbitrary: scores hits) (auto simp: chainStep_def Let_def)

lemma hits_lru: "evictionFor i (lr_Tenant req) \<noteq> EvictionLFU \<Longrightarrow> snd (lookupWithHits i now req) = []"
  by (simp add: lookupWithHits_def lookupExact_eq lookupChain_eq Let_def exactStep_lru chainStep_lru)

text \<open>Only replicas of the result are credited.\<close>

lemma hits_scored:
  assumes "prefix_inv i" and "map_of (snd (lookupWithHits i now req)) r = Some es"
  shows "r \<in> sc_ReplicaID ` set (fst (lookupWithHits i now req))"
proof -
  have "lookupWithHits i now req = ([], []) \<or> lookupWithHits i now req = lookupChain i now req \<or>
      lookupWithHits i now req = lookupExact i now req"
    by (simp add: lookupWithHits_def)
  then consider "lookupWithHits i now req = ([], [])" | "lookupWithHits i now req = lookupChain i now req"
    | "lookupWithHits i now req = lookupExact i now req" by blast
  then show ?thesis
  proof cases
    case 1
    then show ?thesis using assms(2) by simp
  next
    case 2
    then obtain st where "runOf i req now r = Some st" and "runOk i req now st"
      using assms(2) chainStep_hits [OF chainRuns_spec(2) [OF assms(1)], of i req now now req "[]" "[]" r]
        chainRuns_spec(1) [OF assms(1), of now req r]
      by (auto simp: lookupChain_eq split: option.splits if_splits)
    then show ?thesis
      unfolding 2 by (force simp: set_lookupChain set_chainScores [OF assms(1)] image_iff)
  next
    case 3
    let ?rs = "gm_map (prefixes i) (requestKey req (lr_PrefixHash req))"
    obtain e where "map_of ?rs r = Some e" and "freshFor i req now e"
      using assms(2) exactStep_hits [OF prefix_inv_inner [OF assms(1)], of _ "[]" i req now "[]" r] 3
      by (auto simp: lookupExact_eq Let_def split: option.splits if_splits)
    then show ?thesis unfolding 3 lookupExact_replicas [OF assms(1)] by simp
  qed
qed

subsection \<open>Crediting\<close>

definition bumpBy :: "int \<Rightarrow> replicaEntry \<Rightarrow> replicaEntry" where
  "bumpBy n e = e\<lparr>re_accessCount := re_accessCount e + n\<rparr>"

lemma map_of_map_values: "map_of (map (\<lambda>(k, v). (k, f v)) m) x = map_option f (map_of m x)"
  by (induction m) auto

lemma held_bumpEntry:
  "held (bumpEntry n i) k r = map_option (\<lambda>e. if re_id e = n then bumpBy 1 e else e) (held i k r)"
proof -
  have "gm_map (prefixes (bumpEntry n i)) k =
      map (\<lambda>(r, e). (r, if re_id e = n then e\<lparr>re_accessCount := re_accessCount e + 1\<rparr> else e))
        (gm_map (prefixes i) k)"
    by (simp add: gm_map_def bumpEntry_def map_of_map_values split: option.splits)
  then show ?thesis by (cases "held i k r") (simp_all add: map_of_map_values bumpBy_def)
qed

lemma held_bumps:
  "held (fold bumpEntry ns i) k r = map_option (\<lambda>e. bumpBy (int (count_list ns (re_id e))) e) (held i k r)"
proof (induction ns arbitrary: i)
  case Nil
  have "(\<lambda>e. bumpBy 0 e) = (\<lambda>e. e)" by (simp add: bumpBy_def fun_eq_iff)
  then show ?case by (simp add: option.map_ident)
next
  case (Cons n ns)
  show ?case
    by (cases "held i k r") (simp_all add: Cons held_bumpEntry bumpBy_def add.assoc)
qed

definition creditedIds :: "LookupResult \<Rightarrow> nat list" where
  "creditedIds r = concat (map snd (res_hits r))"

lemma CreditHits_eq: "CreditHits r i = fold bumpEntry (creditedIds r) i"
proof -
  have "fold (\<lambda>(_, entries). fold bumpEntry entries) hs i = fold bumpEntry (concat (map snd hs)) i"
    for hs :: hits by (induction hs arbitrary: i) auto
  then show ?thesis by (simp add: CreditHits_def creditedIds_def)
qed

lemma held_CreditHits:
  "held (CreditHits res i) k r =
     map_option (\<lambda>e. bumpBy (int (count_list (creditedIds res) (re_id e))) e) (held i k r)"
  by (simp add: CreditHits_eq held_bumps)

lemma wsum_map_values:
  "(\<And>k v. w k (f v) = w k v) \<Longrightarrow> wsum w (map (\<lambda>(k, v). (k, f v)) m) = wsum w m"
  by (induction m) auto

lemma bump_weights:
  fixes n :: nat
  defines "g \<equiv> map (\<lambda>(r, e). (r, if re_id e = n then e\<lparr>re_accessCount := re_accessCount e + 1\<rparr> else e))"
  shows "w_total k (g rs) = w_total k rs" "w_reserved i k (g rs) = w_reserved i k rs"
    "w_tenant t k (g rs) = w_tenant t k rs" "w_model mk k (g rs) = w_model mk k rs"
    "w_serve sr k (g rs) = w_serve sr k rs" "w_entry m k (g rs) = w_entry m k rs"
    "gm_wf (g rs) = gm_wf rs" "g rs = [] \<longleftrightarrow> rs = []"
proof -
  have f: "map fst (g rs) = map fst rs" by (simp add: g_def comp_def case_prod_beta)
  then have s: "fst ` set (g rs) = fst ` set rs" by (metis set_map)
  show "w_total k (g rs) = w_total k rs" "w_reserved i k (g rs) = w_reserved i k rs"
    "w_tenant t k (g rs) = w_tenant t k rs" "w_model mk k (g rs) = w_model mk k rs"
    "g rs = [] \<longleftrightarrow> rs = []"
    by (simp_all add: weight_defs g_def)
  show "w_serve sr k (g rs) = w_serve sr k rs" by (simp add: w_serve_def s)
  show "gm_wf (g rs) = gm_wf rs" by (simp add: gm_wf_def f)
  show "w_entry m k (g rs) = w_entry m k rs"
    unfolding w_entry_def g_def by (rule wsum_map_values) simp
qed

lemma idx_inv_bumpEntry:
  assumes "idx_inv i"
  shows "idx_inv (bumpEntry n i)"
proof -
  let ?i = "bumpEntry n i"
  let ?g = "map (\<lambda>(r, e). (r, if re_id e = n then e\<lparr>re_accessCount := re_accessCount e + 1\<rparr> else e))"
  have p: "prefixes ?i = map (\<lambda>(k, v). (k, ?g v)) (prefixes i)" by (simp add: bumpEntry_def)
  have f: "totalEntries ?i = totalEntries i" "reservedEntries ?i = reservedEntries i"
    "prefixesByTenant ?i = prefixesByTenant i" "prefixesByTenantModel ?i = prefixesByTenantModel i"
    "servingByScope ?i = servingByScope i" "nextEntry ?i = nextEntry i"
    and res: "w_reserved ?i = w_reserved i"
    by (simp_all add: bumpEntry_def w_reserved_def fun_eq_iff isReservedTenant_def)
  have sums: "wsum w_total (prefixes ?i) = wsum w_total (prefixes i)"
    "wsum (w_reserved i) (prefixes ?i) = wsum (w_reserved i) (prefixes i)"
    "wsum (w_tenant t) (prefixes ?i) = wsum (w_tenant t) (prefixes i)"
    "wsum (w_model mk) (prefixes ?i) = wsum (w_model mk) (prefixes i)"
    "wsum (w_serve sr) (prefixes ?i) = wsum (w_serve sr) (prefixes i)"
    "wsum (w_entry m) (prefixes ?i) = wsum (w_entry m) (prefixes i)" for t mk sr m
    unfolding p by (rule wsum_map_values, rule bump_weights)+
  have "map fst (prefixes ?i) = map fst (prefixes i)" by (simp add: p comp_def case_prod_beta)
  then have "gm_wf (prefixes ?i) \<longleftrightarrow> gm_wf (prefixes i)" by (simp add: gm_wf_def)
  moreover have "(\<forall>(k, rs) \<in> set (prefixes ?i). gm_wf rs \<and> rs \<noteq> []) \<longleftrightarrow>
      (\<forall>(k, rs) \<in> set (prefixes i). gm_wf rs \<and> rs \<noteq> [])"
    unfolding p by (simp add: case_prod_beta bump_weights(7))
  ultimately have "prefix_inv ?i"
    using assms unfolding idx_inv_def prefix_inv_def by (simp only: sums f res) simp
  moreover have "stats_inv ?i"
    by (rule stats_inv_cong [THEN iffD2, of _ i]) (use assms in \<open>simp_all add: bumpEntry_def idx_inv_def\<close>)
  ultimately show ?thesis by (simp add: idx_inv_def)
qed

lemma idx_inv_CreditHits: "idx_inv i \<Longrightarrow> idx_inv (CreditHits res i)"
proof -
  have "idx_inv i \<Longrightarrow> idx_inv (fold bumpEntry ns i)" for ns
    by (induction ns arbitrary: i) (auto simp: idx_inv_bumpEntry)
  then show "idx_inv i \<Longrightarrow> ?thesis" by (simp add: CreditHits_eq)
qed

subsection \<open>Pruning\<close>

lemma RetainReplicas_lockstep:
  assumes "fst ` set (res_hits res) \<subseteq> sc_ReplicaID ` set (res_Scores res)"
  shows "fst ` set (res_hits (RetainReplicas keep res)) \<subseteq> sc_ReplicaID ` set (res_Scores (RetainReplicas keep res))"
  using assms by (force simp: RetainReplicas_def Let_def)

subsection \<open>Presence\<close>

definition keysHeld :: "Index \<Rightarrow> prefixKey set" where
  "keysHeld i = {k. \<exists>r. held i k r \<noteq> None}"

lemma keysHeld_eq: "prefix_inv i \<Longrightarrow> keysHeld i = fst ` set (prefixes i)"
  using held_keys [of i] unfolding keysHeld_def set_map by blast

lemma hasAny_iff:
  assumes "prefix_inv i"
  shows "hasAnyForTenantLocked i t \<longleftrightarrow> (\<exists>k \<in> keysHeld i. pk_tenant k = t)"
    and "hasAnyForTenantModelLocked i t m \<longleftrightarrow> (\<exists>k \<in> keysHeld i. pk_tenant k = t \<and> pk_model k = m)"
    and "hasAnyForTenantModelSchemeLocked i t m s \<longleftrightarrow>
      (\<exists>k \<in> keysHeld i. pk_tenant k = t \<and> pk_model k = m \<and> pk_hashScheme k = s)"
proof -
  show "hasAnyForTenantLocked i t \<longleftrightarrow> (\<exists>k \<in> keysHeld i. pk_tenant k = t)"
    unfolding hasAnyForTenantLocked_def tenant_count_pos [OF assms] keysHeld_eq [OF assms] ..
  show "hasAnyForTenantModelLocked i t m \<longleftrightarrow> (\<exists>k \<in> keysHeld i. pk_tenant k = t \<and> pk_model k = m)"
    unfolding hasAnyForTenantModelLocked_def model_count_pos [OF assms] keysHeld_eq [OF assms]
    by (simp add: modelOf_def)
  have "0 < length (gm_map (servingByScope i) (ScopeKey t m s)) \<longleftrightarrow>
      (\<exists>r. r \<in> fst ` set (gm_map (servingByScope i) (ScopeKey t m s)))"
    by (cases "gm_map (servingByScope i) (ScopeKey t m s)") auto
  also have "\<dots> \<longleftrightarrow> (\<exists>r k. scopeOf k = ScopeKey t m s \<and> held i k r \<noteq> None)"
    by (simp only: serving_iff [OF assms])
  finally show "hasAnyForTenantModelSchemeLocked i t m s \<longleftrightarrow>
      (\<exists>k \<in> keysHeld i. pk_tenant k = t \<and> pk_model k = m \<and> pk_hashScheme k = s)"
    unfolding hasAnyForTenantModelSchemeLocked_def keysHeld_def by (auto simp: scopeOf_def)
qed

subsection \<open>Affinity\<close>

definition servers :: "Index \<Rightarrow> string \<Rightarrow> string \<Rightarrow> string \<Rightarrow> string set" where
  "servers i t m s = {r. \<exists>k. scopeOf k = ScopeKey t m s \<and> held i k r \<noteq> None}"

lemma replicasForRouting_eq:
  "s \<noteq> '''' \<Longrightarrow> replicasForRouting i t m s = sort_slice (<) (map fst (gm_map (servingByScope i) (ScopeKey t m s)))"
  by (simp add: replicasForRouting_def gm_map_def split: option.splits)

lemma replicasForRouting_spec:
  assumes "prefix_inv i" and "s \<noteq> ''''"
  shows "set (replicasForRouting i t m s) = servers i t m s" and "distinct (replicasForRouting i t m s)"
    and "sorted (replicasForRouting i t m s)"
proof -
  let ?m = "gm_map (servingByScope i) (ScopeKey t m s)"
  show "set (replicasForRouting i t m s) = servers i t m s"
    unfolding replicasForRouting_eq [OF assms(2)] set_sort_slice set_map servers_def
    using serving_iff [OF assms(1), of _ "ScopeKey t m s"] by blast
  have "distinct (map (\<lambda>x. x) (sort_slice (<) (map fst ?m)))"
    unfolding distinct_sort_slice_map using gm_wf_serving [OF assms(1)] by (simp add: gm_wf_def)
  then show "distinct (replicasForRouting i t m s)" by (simp add: replicasForRouting_eq [OF assms(2)])
  show "sorted (replicasForRouting i t m s)"
    unfolding replicasForRouting_eq [OF assms(2)] by (rule string_sort.sorted_rank)
qed

lemma replicasForRouting_unique:
  assumes "prefix_inv i" and "s \<noteq> ''''"
  shows "replicasForRouting i t m s = sorted_list_of_set (servers i t m s)"
  using replicasForRouting_spec [OF assms, of t m]
  by (metis sorted_list_of_set.idem_if_sorted_distinct)

lemma AffinityHint_eq:
  assumes "prefix_inv i"
  shows "AffinityHint i t m s seed =
    (let rs = sorted_list_of_set (servers i t m s)
     in if seed = [] \<or> s = [] \<or> rs = [] then None
        else Some (rs ! nat (digest_u64 (sha256_sum seed) mod int (length rs))))"
  using replicasForRouting_unique [OF assms, of s t m]
  by (cases "s = []") (auto simp: AffinityHint_def Let_def replicasForRouting_def)

lemma AffinityHint_serves:
  assumes "prefix_inv i" and "AffinityHint i t m s seed = Some r"
  shows "\<exists>k e. pk_tenant k = t \<and> pk_model k = m \<and> pk_hashScheme k = s \<and> held i k r = Some e"
proof -
  let ?rs = "replicasForRouting i t m s" and ?d = "digest_u64 (sha256_sum seed)"
  have s: "s \<noteq> ''''" and ne: "?rs \<noteq> []" and r: "r = ?rs ! nat (?d mod int (length ?rs))"
    using assms(2) by (auto simp: AffinityHint_def Let_def replicasForRouting_def split: if_splits)
  have "0 < int (length ?rs)" using ne by simp
  then have "nat (?d mod int (length ?rs)) < length ?rs"
    using pos_mod_bound [of "int (length ?rs)" ?d] pos_mod_sign [of "int (length ?rs)" ?d]
    by (simp add: nat_less_iff)
  then have "r \<in> set ?rs" unfolding r by (rule nth_mem)
  then show ?thesis
    unfolding replicasForRouting_spec(1) [OF assms(1) s] by (auto simp: servers_def scopeOf_def)
qed

end
