(* ===== verification/Index_Machine.thy ===== *)
theory Index_Machine
  imports Lookup_Facts
begin

text \<open>
  The index as a state machine: it starts from \<open>New\<close> with any options and moves by the
  operations that write (\<open>Ingest\<close>, \<open>ApplyEvent\<close>, the TTL sweep and the LFU credit of a
  delivered result), in any order, with any arguments and clock readings. Lookups read and
  do not move it. The invariants of every reachable state are proved by rule induction.
\<close>

subsection \<open>Steps and reachable states\<close>

inductive isOption :: "Option \<Rightarrow> bool" where
  "isOption (WithTTL d)"
| "isOption (WithSweepInterval d)"
| "isOption (WithMaxEntries n)"
| "isOption WithMetrics"
| "isOption (WithRanker cfg)"
| "isOption (WithTTLResolver r)"
| "isOption (WithTenantQuotaResolver q)"
| "isOption (WithEvictionResolver r')"
| "isOption (WithReservedTenants ts)"

inductive index_step :: "Index \<Rightarrow> Index \<Rightarrow> bool" where
  ingest: "index_step i (Ingest i now u)"
| event: "index_step i (ApplyEvent i now ev)"
| sweep: "index_step i (evictExpired i now)"
| credit: "index_step i (CreditHits res i)"

inductive reachable :: "Index \<Rightarrow> bool" where
  start: "list_all isOption opts \<Longrightarrow> reachable (New opts)"
| step: "reachable i \<Longrightarrow> index_step i j \<Longrightarrow> reachable j"

inductive_cases index_stepE: "index_step i j"

subsection \<open>The start state\<close>

definition blank :: "Index \<Rightarrow> bool" where
  "blank i \<longleftrightarrow>
     prefixes i = [] \<and> stats i = [] \<and> totalEntries i = 0 \<and> reservedEntries i = 0 \<and>
     prefixesByTenant i = [] \<and> prefixesByTenantModel i = [] \<and> servingByScope i = [] \<and>
     replicasByModel i = [] \<and> metrics i \<in> {None, Some []}"

lemmas option_defs =
  WithTTL_def WithSweepInterval_def WithMaxEntries_def WithMetrics_def WithRanker_def
  WithTTLResolver_def WithTenantQuotaResolver_def WithEvictionResolver_def WithReservedTenants_def

lemma blank_option: "isOption opt \<Longrightarrow> blank i \<Longrightarrow> blank (opt i)"
  by (induction rule: isOption.induct) (auto simp: blank_def option_defs)

lemma blank_options: "list_all isOption opts \<Longrightarrow> blank i \<Longrightarrow> blank (fold (\<lambda>opt i. opt i) opts i)"
  by (induction opts arbitrary: i) (auto simp: blank_option)

lemma blank_New: "list_all isOption opts \<Longrightarrow> blank (New opts)"
proof -
  assume "list_all isOption opts"
  moreover have "blank emptyIndex" by (simp add: blank_def emptyIndex_def)
  ultimately have "blank (fold (\<lambda>opt i. opt i) opts emptyIndex)" by (rule blank_options)
  then show ?thesis by (simp add: New_def Let_def blank_def)
qed

lemma blank_inv: "blank i \<Longrightarrow> idx_inv i \<and> gauge_inv i \<and> gauge_exact i"
  by (auto simp: blank_def idx_inv_empty gauge_inv_def gauge_exact_def gaugeValue_def liveKeys_def)

subsection \<open>Crediting moves only the hit counts\<close>

lemma bumpEntry_frame [simp]:
  "metrics (bumpEntry n i) = metrics i" "reportedModels (bumpEntry n i) = reportedModels i"
  "totalEntries (bumpEntry n i) = totalEntries i" "reservedEntries (bumpEntry n i) = reservedEntries i"
  "maxEntries (bumpEntry n i) = maxEntries i" "reservedTenants (bumpEntry n i) = reservedTenants i"
  "stats (bumpEntry n i) = stats i"
  by (simp_all add: bumpEntry_def)

lemma liveKeys_bumpEntry: "liveKeys (bumpEntry n i) = liveKeys i"
proof -
  have "map fst (prefixes (bumpEntry n i)) = map fst (prefixes i)"
    by (simp add: bumpEntry_def comp_def case_prod_beta)
  then show ?thesis by (simp add: liveKeys_def isReservedTenant_def fun_eq_iff)
qed

lemma bumps_frame:
  "metrics (fold bumpEntry ns i) = metrics i \<and> reportedModels (fold bumpEntry ns i) = reportedModels i \<and>
   totalEntries (fold bumpEntry ns i) = totalEntries i \<and> reservedEntries (fold bumpEntry ns i) = reservedEntries i \<and>
   maxEntries (fold bumpEntry ns i) = maxEntries i \<and> liveKeys (fold bumpEntry ns i) = liveKeys i"
  by (induction ns arbitrary: i) (simp_all add: liveKeys_bumpEntry)

lemma CreditHits_frame [simp]:
  "metrics (CreditHits res i) = metrics i" "reportedModels (CreditHits res i) = reportedModels i"
  "totalEntries (CreditHits res i) = totalEntries i" "reservedEntries (CreditHits res i) = reservedEntries i"
  "maxEntries (CreditHits res i) = maxEntries i" "liveKeys (CreditHits res i) = liveKeys i"
  by (simp_all add: CreditHits_eq bumps_frame)

subsection \<open>Every reachable state is consistent\<close>

lemma gauge_credit:
  "gauge_inv i \<Longrightarrow> gauge_inv (CreditHits res i)" "gauge_exact i \<Longrightarrow> gauge_exact (CreditHits res i)"
  using gauge_inv_cong [of "CreditHits res i" i] by (simp_all add: gauge_exact_def split: option.splits)

lemma reachable_inv:
  assumes "reachable i"
  shows "idx_inv i \<and> gauge_inv i \<and> gauge_exact i"
  using assms
proof (induction rule: reachable.induct)
  case (start opts)
  then show ?case by (intro blank_inv blank_New)
next
  case (step i j)
  from step.hyps(2) show ?case
    by (rule index_stepE)
      (use step.IH in \<open>auto simp: idx_inv_Ingest gauge_Ingest idx_inv_ApplyEvent gauge_ApplyEvent
        evictExpired_spec(1) gauge_evictExpired idx_inv_CreditHits gauge_credit\<close>)
qed

lemmas reachable_idx_inv = reachable_inv [THEN conjunct1]

lemma reachable_prefix_inv: "reachable i \<Longrightarrow> prefix_inv i"
  using reachable_idx_inv [of i] by (simp add: idx_inv_def)

subsection \<open>The cap in every reachable state\<close>

definition effectiveTotal :: "Index \<Rightarrow> int" where
  "effectiveTotal i = totalEntries i - reservedEntries i"

lemma effective_remove: "effectiveTotal (removeReplicaLocked i k r) \<le> effectiveTotal i"
  by (cases "held i k r") (simp_all add: effectiveTotal_def remove_absent remove_counters)

lemma effective_dropAll: "effectiveTotal (dropAll xs i) \<le> effectiveTotal i"
proof (induction xs arbitrary: i)
  case (Cons x xs)
  obtain k r where "x = (k, r)" by (cases x)
  then show ?case using Cons [of "removeReplicaLocked i k r"] effective_remove [of i k r] by simp
qed simp

lemma effective_fold_remove:
  "effectiveTotal (fold (\<lambda>(key, _) j. if Q key then j else removeReplicaLocked j key rid) m i) \<le> effectiveTotal i \<and>
   maxEntries (fold (\<lambda>(key, _) j. if Q key then j else removeReplicaLocked j key rid) m i) = maxEntries i"
proof (induction m arbitrary: i)
  case (Cons x m)
  show ?case
    using Cons [of i] Cons [of "removeReplicaLocked i (fst x) rid"] effective_remove [of i "fst x" rid]
    by (cases x) simp
qed simp

lemma effective_event: "effectiveTotal (ApplyEvent i now ev) \<le> effectiveTotal i \<and> maxEntries (ApplyEvent i now ev) = maxEntries i"
proof (cases "ev_Type ev")
  case EventPrefixEvicted
  then show ?thesis
    using effective_fold_remove [where Q = "\<lambda>k. \<not> evictMatch ev k" and i = i and m = "prefixes i"]
    by (simp add: ApplyEvent_evicted effectiveTotal_def)
next
  case EventAllCleared
  then show ?thesis
    using effective_fold_remove [where Q = "\<lambda>k. \<not> clearMatch ev k" and i = i and m = "prefixes i"]
    by (simp add: ApplyEvent_cleared effectiveTotal_def Let_def)
qed (auto simp: ApplyEvent_def Let_def effectiveTotal_def split: option.splits)

lemma effective_sweepStats:
  "effectiveTotal (sweepStats i now) = effectiveTotal i \<and> maxEntries (sweepStats i now) = maxEntries i"
proof -
  have "effectiveTotal (fold (\<lambda>(sk, s) j. if Q sk s
             then statsScopeRemoveLocked (j\<lparr>stats := AList.delete sk (stats j)\<rparr>)
                    (ModelKey (sk_tenant sk) (sk_model sk)) (sk_replicaID sk) else j) m j) = effectiveTotal j \<and>
      maxEntries (fold (\<lambda>(sk, s) j. if Q sk s
             then statsScopeRemoveLocked (j\<lparr>stats := AList.delete sk (stats j)\<rparr>)
                    (ModelKey (sk_tenant sk) (sk_model sk)) (sk_replicaID sk) else j) m j) = maxEntries j"
    for Q m j by (induction m arbitrary: j) (auto simp: effectiveTotal_def)
  then show ?thesis by (simp add: sweepStats_def)
qed

lemma effective_sweep:
  "effectiveTotal (evictExpired i now) \<le> effectiveTotal i \<and> maxEntries (evictExpired i now) = maxEntries i"
proof -
  have "evictExpired i now = reportEntries (emitCalls
      (map (\<lambda>(algo, n). AddIndexEvictions algo indexEvictionReasonTTL n) (snd (sweepPrefixes i now)))
      (sweepStats (fst (sweepPrefixes i now)) now))"
    by (simp add: evictExpired_def case_prod_beta Let_def)
  then have "effectiveTotal (evictExpired i now) = effectiveTotal (sweepStats (fst (sweepPrefixes i now)) now)"
    and "maxEntries (evictExpired i now) = maxEntries (sweepStats (fst (sweepPrefixes i now)) now)"
    by (simp_all add: effectiveTotal_def)
  then show ?thesis
    using effective_dropAll by (simp add: effective_sweepStats sweepPrefixes_eq)
qed

lemma maxEntries_Ingest:
  assumes "idx_inv i"
  shows "maxEntries (Ingest i now u) = maxEntries i"
proof -
  have inv: "prefix_inv (fst (ingestQuota i now u))"
    using idx_inv_quota [OF assms] by (simp add: idx_inv_def)
  obtain cs where cs: "Ingest i now u = reportEntries (emitCalls cs (fst (enforceCapLocked (fst (ingestQuota i now u)))))"
    by (rule Ingest_stages)
  show ?thesis unfolding cs using enforceCap_frame(1) [OF inv] ingestQuota_frame(1) [OF assms] by simp
qed

lemma reachable_cap:
  assumes "reachable i"
  shows "0 < maxEntries i \<longrightarrow> effectiveTotal i \<le> maxEntries i"
  using assms
proof (induction rule: reachable.induct)
  case (start opts)
  then show ?case using blank_New [OF start] by (simp add: effectiveTotal_def blank_def)
next
  case (step i j)
  have inv: "idx_inv i" by (rule reachable_idx_inv) fact
  from step.hyps(2) show ?case
  proof (rule index_stepE)
    fix now u
    assume "j = Ingest i now u"
    then show ?thesis using Ingest_cap [OF inv, of now u] maxEntries_Ingest [OF inv, of now u]
      by (simp add: effectiveTotal_def)
  next
    fix now ev
    assume "j = ApplyEvent i now ev"
    then show ?thesis using effective_event [of i now ev] step.IH by auto
  next
    fix now
    assume "j = evictExpired i now"
    then show ?thesis using effective_sweep [of i now] step.IH by auto
  next
    fix res
    assume "j = CreditHits res i"
    then show ?thesis using step.IH by (simp add: effectiveTotal_def)
  qed
qed

subsection \<open>The counters as cardinalities\<close>

lemma wsum_keys:
  assumes "gm_wf m"
  shows "wsum (\<lambda>k v. of_bool (P k v)) m = card {k. \<exists>v. map_of m k = Some v \<and> P k v}"
proof -
  have "wsum (\<lambda>k v. of_bool (P k v)) n = length (filter (\<lambda>(k, v). P k v) n)" for n
    by (induction n) auto
  moreover have "distinct (map fst (filter (\<lambda>(k, v). P k v) m))"
    using assms by (simp add: gm_wf_def distinct_map_filter)
  then have "length (filter (\<lambda>(k, v). P k v) m) = card (set (map fst (filter (\<lambda>(k, v). P k v) m)))"
    by (simp only: distinct_card length_map)
  moreover have "set (map fst (filter (\<lambda>(k, v). P k v) m)) = {k. \<exists>v. map_of m k = Some v \<and> P k v}"
    using map_of_gm_wf [OF assms] by force
  ultimately show ?thesis by simp
qed

lemma wsum_held_keys:
  assumes "prefix_inv i"
  shows "wsum (\<lambda>k rs. of_bool (P k)) (prefixes i) = card {k \<in> keysHeld i. P k}"
proof -
  have "{k. \<exists>v. map_of (prefixes i) k = Some v \<and> P k} = {k \<in> keysHeld i. P k}"
    by (auto simp: keysHeld_eq [OF assms] mem_keys)
  then show ?thesis using wsum_keys [OF prefix_inv_wf [OF assms], of "\<lambda>k _. P k"] by simp
qed

lemma wsum_entries:
  assumes "prefix_inv i"
  shows "wsum (\<lambda>k rs. if P k then length rs else 0) (prefixes i) = card {(k, r). P k \<and> held i k r \<noteq> None}"
proof -
  let ?xs = "filter (\<lambda>(k, r, e). P k) (entriesOf i)" let ?p = "\<lambda>(k, r, e :: replicaEntry). (k, r)"
  have "wsum (\<lambda>k rs. if P k then length rs else 0) m =
      length (filter (\<lambda>(k, r, e). P k) (concat (map (\<lambda>(k, rs). map (\<lambda>(r, e). (k, r, e)) rs) m)))"
    for m :: "(prefixKey, (string, replicaEntry) gomap) gomap"
    by (induction m) (auto simp: filter_map comp_def case_prod_beta)
  moreover have "distinct (map ?p ?xs)" by (rule distinct_map_filter [OF distinct_entriesOf [OF assms]])
  then have "length ?xs = card (set (map ?p ?xs))" by (simp only: distinct_card length_map)
  moreover have "set (map ?p ?xs) = {(k, r). P k \<and> held i k r \<noteq> None}"
    using set_entriesOf [OF assms] by force
  ultimately show ?thesis by (simp add: entriesOf_def)
qed

lemma prefix_inv_counts:
  assumes "prefix_inv i"
  shows "totalEntries i = int (card {(k, r). held i k r \<noteq> None})"
    and "reservedEntries i = int (card {(k, r). isReservedTenant i (pk_tenant k) \<and> held i k r \<noteq> None})"
    and "gm_int (prefixesByTenant i) t = int (card {k \<in> keysHeld i. pk_tenant k = t})"
    and "gm_int (prefixesByTenantModel i) (ModelKey t m) = int (card {k \<in> keysHeld i. modelOf k = ModelKey t m})"
    and "gm_int (gm_map (servingByScope i) s) r = int (card {k. scopeOf k = s \<and> held i k r \<noteq> None})"
proof -
  have "w_total = (\<lambda>k rs. if True then length rs else 0)" "w_reserved i = (\<lambda>k rs. if isReservedTenant i (pk_tenant k) then length rs else 0)"
    by (simp_all add: weight_defs fun_eq_iff)
  then show "totalEntries i = int (card {(k, r). held i k r \<noteq> None})"
    and "reservedEntries i = int (card {(k, r). isReservedTenant i (pk_tenant k) \<and> held i k r \<noteq> None})"
    using assms wsum_entries [OF assms, of "\<lambda>_. True"] wsum_entries [OF assms, of "\<lambda>k. isReservedTenant i (pk_tenant k)"]
    by (simp_all add: prefix_inv_def)
  have "tracks (prefixesByTenant i) (\<lambda>t. wsum (w_tenant t) (prefixes i))"
    and "tracks (prefixesByTenantModel i) (\<lambda>mk. wsum (w_model mk) (prefixes i))"
    and sv: "serves (servingByScope i) (\<lambda>sr. wsum (w_serve sr) (prefixes i))"
    using assms by (simp_all add: prefix_inv_def)
  then show "gm_int (prefixesByTenant i) t = int (card {k \<in> keysHeld i. pk_tenant k = t})"
    and "gm_int (prefixesByTenantModel i) (ModelKey t m) = int (card {k \<in> keysHeld i. modelOf k = ModelKey t m})"
    using wsum_held_keys [OF assms, of "\<lambda>k. pk_tenant k = t"] wsum_held_keys [OF assms, of "\<lambda>k. modelOf k = ModelKey t m"]
    by (simp_all add: tracks_gm_int w_tenant_def [abs_def] w_model_def [abs_def])
  have "{k. \<exists>rs. map_of (prefixes i) k = Some rs \<and> scopeOf k = s \<and> r \<in> fst ` set rs} =
      {k. scopeOf k = s \<and> held i k r \<noteq> None}"
    unfolding held_iff by blast
  then show "gm_int (gm_map (servingByScope i) s) r = int (card {k. scopeOf k = s \<and> held i k r \<noteq> None})"
    using wsum_keys [OF prefix_inv_wf [OF assms], of "\<lambda>k rs. scopeOf k = s \<and> r \<in> fst ` set rs"]
      tracks_gm_int [OF serves_tracks [OF sv], of s r]
    by (simp add: w_serve_def [abs_def])
qed

end
