(* ===== verification/Examples.thy ===== *)
theory Examples
  imports Index_Machine
begin

text \<open>
  Small concrete states and requests at which the theorems of the development are instantiated,
  with their reachability and the values the instances need.
\<close>

definition exRef :: "string \<Rightarrow> int \<Rightarrow> PrefixRef" where
  "exRef h n =
     \<lparr>pr_PrefixHash = h, pr_TokenCount = n, pr_BlockHashes = [], pr_BlockTokenCounts = [],
      pr_Tier = TierUnspecified, pr_Adapter = ''''\<rparr>"

definition exUpdate :: "string \<Rightarrow> string \<Rightarrow> PrefixRef list \<Rightarrow> Update" where
  "exUpdate t r ps =
     \<lparr>u_ReplicaID = r, u_Model = ''m'', u_Tenant = t, u_HashScheme = ''s'', u_Adapter = '''',
      u_Timestamp = 0, u_Prefixes = ps, u_Stats = None\<rparr>"

definition exStart :: Index where
  "exStart = New [WithMaxEntries 2, WithMetrics, WithTenantQuotaResolver (\<lambda>_. Some 2), WithReservedTenants [''p'']]"

definition exIndex :: Index where
  "exIndex = Ingest exStart 5 (exUpdate ''t'' ''r'' [exRef ''a'' 10, exRef ''b'' 20])"

definition exKey :: "string \<Rightarrow> prefixKey" where
  "exKey h = PrefixKey ''t'' ''m'' ''s'' '''' h"

definition exReq :: "string list \<Rightarrow> int list \<Rightarrow> string \<Rightarrow> LookupRequest" where
  "exReq hs ns h =
     \<lparr>lr_Model = ''m'', lr_Tenant = ''t'', lr_HashScheme = ''s'', lr_Adapter = '''', lr_PrefixHash = h,
      lr_TokenCount = 0, lr_BlockHashes = hs, lr_BlockTokenCounts = ns, lr_TTFTBudgetMs = 0,
      lr_TBTBudgetMs = 0\<rparr>"

lemma reachable_exStart: "reachable exStart"
  unfolding exStart_def by (rule reachable.start) (simp add: isOption.intros)

lemma reachable_exIndex: "reachable exIndex"
  unfolding exIndex_def by (rule reachable.step [OF reachable_exStart index_step.ingest])

text \<open>The entries of the example index, computed once.\<close>

definition exEntry :: "nat \<Rightarrow> int \<Rightarrow> replicaEntry" where
  "exEntry n c = \<lparr>re_id = n, re_tokenCount = c, re_lastSeen = 5, re_tier = TierT1, re_accessCount = 0\<rparr>"

definition exView where
  "exView i =
     (prefixes i, ttl i, maxEntries i, reservedTenants i, Option.is_none (ttlResolver i), Option.is_none (evictionResolver i))"

lemma exIndex_view:
  "exView exIndex =
     ([(exKey ''a'', [(''r'', exEntry 0 10)]), (exKey ''b'', [(''r'', exEntry 1 20)])], 1800000000000, 2, [''p''], True, True)"
  by code_simp

lemma exIndex_prefixes:
  "prefixes exIndex = [(exKey ''a'', [(''r'', exEntry 0 10)]), (exKey ''b'', [(''r'', exEntry 1 20)])]"
  using exIndex_view by (simp add: exView_def)

lemma exIndex_config:
  "ttl exIndex = 1800000000000" "ttlResolver exIndex = None" "evictionResolver exIndex = None" "maxEntries exIndex = 2"
  "reservedTenants exIndex = [''p'']"
  using exIndex_view by (simp_all add: exView_def Option.is_none_def)

lemma exIndex_held:
  "held exIndex k r =
     (if r = ''r'' then (if k = exKey ''a'' then Some (exEntry 0 10) else if k = exKey ''b'' then Some (exEntry 1 20) else None)
      else None)"
  by (simp add: exIndex_prefixes gm_map_def exKey_def)

lemma exIndex_keys: "keysHeld exIndex = {exKey ''a'', exKey ''b''}"
  by (auto simp: keysHeld_def exIndex_held)

lemma exIndex_fresh: "freshnessAt 5 5 (ttlFor exIndex t) = Fin 1"
  by (simp add: ttlFor_def exIndex_config freshnessAt_def time_sub_def minDuration_def maxDuration_def)

end
