(* ===== verification/Index_Spec.thy ===== *)
theory Index_Spec
  imports Index_Machine
begin

text \<open>
  What the index promises, without counters, maps of maps or eviction order: a partial function
  from a prefix key and a replica to the four observable fields of the entry. The steps of the
  abstract store are the state changes of \<open>internal/index\<close>; the simulation at the end shows
  that every run of the detailed index is a run of the abstract store.
\<close>

type_synonym view = "int \<times> gotime \<times> CacheTier \<times> int"
type_synonym store = "prefixKey \<Rightarrow> string \<Rightarrow> view option"

text \<open>The configuration of a store: entry cap, reserved tenants, TTL and quota of a tenant.\<close>

record specConfig =
  sp_cap :: int
  sp_reserved :: "string \<Rightarrow> bool"
  sp_ttl :: "string \<Rightarrow> duration"
  sp_quota :: "string \<Rightarrow> int option"

definition viewHits :: "view option \<Rightarrow> int" where
  "viewHits v = (case v of None \<Rightarrow> 0 | Some (_, _, _, n) \<Rightarrow> n)"

text \<open>A report writes its entries; the last mention of a key counts, and hit counts survive.\<close>

definition specPut :: "string \<Rightarrow> gotime \<Rightarrow> ingestOp list \<Rightarrow> store \<Rightarrow> store" where
  "specPut rid ts ops s k r =
     (if r \<noteq> rid then s k r
      else (case map_of (rev ops) k of
              None \<Rightarrow> s k r
            | Some (c, t) \<Rightarrow> Some (c, ts, t, viewHits (s k r))))"

definition specDrop :: "string \<Rightarrow> (prefixKey \<Rightarrow> bool) \<Rightarrow> store \<Rightarrow> store" where
  "specDrop rid P s k r = (if r = rid \<and> P k then None else s k r)"

definition specSweep :: "specConfig \<Rightarrow> gotime \<Rightarrow> store \<Rightarrow> store" where
  "specSweep cfg now s k r =
     (case s k r of
        None \<Rightarrow> None
      | Some (c, ts, t, n) \<Rightarrow>
          if 0 < sp_ttl cfg (pk_tenant k) \<and> sp_ttl cfg (pk_tenant k) \<le> time_sub now ts then None
          else Some (c, ts, t, n))"

definition specCredit :: "(prefixKey \<Rightarrow> string \<Rightarrow> nat) \<Rightarrow> store \<Rightarrow> store" where
  "specCredit f s k r = map_option (\<lambda>(c, ts, t, n). (c, ts, t, n + int (f k r))) (s k r)"

definition capUsed :: "specConfig \<Rightarrow> store \<Rightarrow> nat" where
  "capUsed cfg s = card {(k, r). \<not> sp_reserved cfg (pk_tenant k) \<and> s k r \<noteq> None}"

definition quotaUsed :: "string \<Rightarrow> store \<Rightarrow> nat" where
  "quotaUsed t s = card {k. pk_tenant k = t \<and> (\<exists>r. s k r \<noteq> None)}"

definition inBounds :: "specConfig \<Rightarrow> string \<Rightarrow> store \<Rightarrow> bool" where
  "inBounds cfg t s \<longleftrightarrow>
     (0 < sp_cap cfg \<longrightarrow> int (capUsed cfg s) \<le> sp_cap cfg) \<and>
     (\<forall>m. sp_quota cfg t = Some m \<and> 0 \<le> m \<longrightarrow> int (quotaUsed t s) \<le> m)"

text \<open>
  A report of tenant \<open>t\<close> writes, then may drop entries until both bounds hold: nothing is dropped
  when they already do, and an entry of another reserved tenant never is.
\<close>

inductive specStep :: "specConfig \<Rightarrow> store \<Rightarrow> store \<Rightarrow> bool" for cfg where
  report: "s1 = specPut rid ts ops s \<Longrightarrow> \<forall>op \<in> set ops. pk_tenant (fst op) = t \<Longrightarrow>
     \<forall>k r. s' k r \<in> {None, s1 k r} \<Longrightarrow>
     \<forall>k r. sp_reserved cfg (pk_tenant k) \<and> pk_tenant k \<noteq> t \<longrightarrow> s' k r = s1 k r \<Longrightarrow>
     inBounds cfg t s' \<Longrightarrow> inBounds cfg t s1 \<longrightarrow> s' = s1 \<Longrightarrow> specStep cfg s s'"
| drop: "specStep cfg s (specDrop rid P s)"
| sweep: "specStep cfg s (specSweep cfg now s)"
| credit: "specStep cfg s (specCredit f s)"

inductive specReach :: "specConfig \<Rightarrow> store \<Rightarrow> bool" for cfg where
  start: "specReach cfg (\<lambda>_ _. None)"
| step: "specReach cfg s \<Longrightarrow> specStep cfg s s' \<Longrightarrow> specReach cfg s'"

subsection \<open>The abstraction\<close>

definition storeOf :: "Index \<Rightarrow> store" where
  "storeOf i k r = map_option entryView (held i k r)"

definition configOf :: "Index \<Rightarrow> specConfig" where
  "configOf i = \<lparr>sp_cap = maxEntries i, sp_reserved = isReservedTenant i, sp_ttl = ttlFor i,
                 sp_quota = tenantQuotaFor i\<rparr>"

lemma storeOf_None [simp]: "storeOf i k r = None \<longleftrightarrow> held i k r = None"
  by (simp add: storeOf_def)

lemma viewHits_storeOf: "viewHits (storeOf i k r) = hitCount (held i k r)"
  by (cases "held i k r") (simp_all add: storeOf_def viewHits_def hitCount_def entryView_def)

lemma configOf_cong:
  "ttl j = ttl i \<Longrightarrow> ttlResolver j = ttlResolver i \<Longrightarrow> quotaResolver j = quotaResolver i \<Longrightarrow>
   maxEntries j = maxEntries i \<Longrightarrow> reservedTenants j = reservedTenants i \<Longrightarrow> configOf j = configOf i"
  by (simp add: configOf_def ttlFor_def tenantQuotaFor_def isReservedTenant_def fun_eq_iff split: option.splits)

lemma storeOf_stored:
  "storeOf (ingestStored i now u) = specPut (u_ReplicaID u) (ingestTime now u) (ingestOps u) (storeOf i)"
proof (intro ext)
  fix k r
  show "storeOf (ingestStored i now u) k r =
      specPut (u_ReplicaID u) (ingestTime now u) (ingestOps u) (storeOf i) k r"
  proof (cases "r = u_ReplicaID u")
    case False
    then show ?thesis by (simp add: storeOf_def specPut_def held_stored_other)
  next
    case True
    show ?thesis
    proof (cases "map_of (rev (ingestOps u)) k")
      case None
      then have "k \<notin> fst ` set (ingestOps u)" by (simp add: map_of_eq_None_iff)
      then have "held (ingestStored i now u) k r = held i k r"
        using held_applyOps_notin by (simp add: ingestStored_def ingestPrefixes_eq)
      then show ?thesis using None True by (simp add: storeOf_def specPut_def)
    next
      case (Some ct)
      then show ?thesis using True held_stored [of u k "fst ct" "snd ct" i now]
        by (simp add: storeOf_def specPut_def viewHits_storeOf [unfolded storeOf_def] case_prod_beta)
    qed
  qed
qed

subsection \<open>Bounds\<close>

lemma finite_held: "prefix_inv i \<Longrightarrow> finite {(k, r). held i k r \<noteq> None}"
proof -
  assume "prefix_inv i"
  then have "{(k, r). held i k r \<noteq> None} = (\<lambda>(k, r, e). (k, r)) ` set (entriesOf i)"
    using set_entriesOf by (force simp: image_iff)
  then show ?thesis by simp
qed

lemma capUsed_storeOf:
  assumes "prefix_inv i"
  shows "int (capUsed (configOf i) (storeOf i)) = totalEntries i - reservedEntries i"
proof -
  let ?A = "{(k, r). held i k r \<noteq> None}" and ?R = "{(k, r). isReservedTenant i (pk_tenant k) \<and> held i k r \<noteq> None}"
  have "{(k, r). \<not> isReservedTenant i (pk_tenant k) \<and> held i k r \<noteq> None} = ?A - ?R" by auto
  moreover have "finite ?A" "?R \<subseteq> ?A" using finite_held [OF assms] by auto
  ultimately have "card {(k, r). \<not> isReservedTenant i (pk_tenant k) \<and> held i k r \<noteq> None} = card ?A - card ?R"
    and "card ?R \<le> card ?A"
    by (simp_all add: card_Diff_subset finite_subset card_mono)
  then show ?thesis using prefix_inv_counts(1,2) [OF assms] by (simp add: capUsed_def configOf_def)
qed

lemma quotaUsed_storeOf: "prefix_inv i \<Longrightarrow> int (quotaUsed t (storeOf i)) = gm_int (prefixesByTenant i) t"
  by (simp add: quotaUsed_def tenant_card)

lemma inBounds_storeOf:
  assumes "prefix_inv i"
  shows "inBounds (configOf i) t (storeOf i) \<longleftrightarrow>
    (0 < maxEntries i \<longrightarrow> totalEntries i - reservedEntries i \<le> maxEntries i) \<and>
    (\<forall>m. tenantQuotaFor i t = Some m \<and> 0 \<le> m \<longrightarrow> gm_int (prefixesByTenant i) t \<le> m)"
  using capUsed_storeOf [OF assms] quotaUsed_storeOf [OF assms] by (simp add: inBounds_def configOf_def)

subsection \<open>The configuration never changes\<close>

lemma frame_emit [simp]:
  "ttl (emitCalls cs i) = ttl i" "ttlResolver (emitCalls cs i) = ttlResolver i"
  "quotaResolver (emitCalls cs i) = quotaResolver i"
  by (simp_all add: emitCalls_def split: option.splits)

lemma frame_report [simp]:
  "ttl (reportEntries i) = ttl i" "ttlResolver (reportEntries i) = ttlResolver i"
  "quotaResolver (reportEntries i) = quotaResolver i"
  by (simp_all add: reportEntries_def Let_def split: option.splits)

lemma configOf_report [simp]: "configOf (emitCalls cs i) = configOf i" "configOf (reportEntries i) = configOf i"
  by (rule configOf_cong; simp)+

lemma configOf_dropAll [simp]: "configOf (dropAll xs i) = configOf i"
  by (rule configOf_cong) simp_all

lemma configOf_dropKeys [simp]: "configOf (dropKeys ks i) = configOf i"
  by (rule configOf_cong) simp_all

lemma configOf_stored [simp]: "configOf (ingestStored i now u) = configOf i"
  by (rule configOf_cong)
    (simp_all add: ingestStored_def ingestPrefixes_eq ingestStats_def Let_def statsScopeAddLocked_def split: option.splits)

lemma configOf_quota:
  assumes "idx_inv i"
  shows "configOf (fst (ingestQuota i now u)) = configOf i"
proof -
  have "prefix_inv (ingestStored i now u)" using idx_inv_stored [OF assms] by (simp add: idx_inv_def)
  then show ?thesis by (simp add: ingestQuota_def evictOldest_eq split: option.splits)
qed

lemma configOf_Ingest:
  assumes "idx_inv i"
  shows "configOf (Ingest i now u) = configOf i"
proof -
  obtain cs where "Ingest i now u = reportEntries (emitCalls cs (fst (enforceCapLocked (fst (ingestQuota i now u)))))"
    by (rule Ingest_stages)
  moreover have "prefix_inv (fst (ingestQuota i now u))" using idx_inv_quota [OF assms] by (simp add: idx_inv_def)
  ultimately show ?thesis using configOf_quota [OF assms] by (simp add: enforceCap_eq)
qed

lemma configOf_remove [simp]: "configOf (removeReplicaLocked i k r) = configOf i"
  using configOf_dropAll [of "[(k, r)]" i] by simp

lemma configOf_fold_remove [simp]:
  "configOf (fold (\<lambda>(key, _) j. if Q key then j else removeReplicaLocked j key rid) m i) = configOf i"
  by (induction m arbitrary: i) auto

lemma frame_statsScope [simp]: "configOf (statsScopeRemoveLocked i mk r) = configOf i"
  by (rule configOf_cong) (simp_all add: statsScopeRemoveLocked_def Let_def split: option.splits)

lemma configOf_stats [simp]: "configOf (i\<lparr>stats := s\<rparr>) = configOf i"
  by (rule configOf_cong) simp_all

lemma configOf_ApplyEvent: "configOf (ApplyEvent i now ev) = configOf i"
proof (cases "ev_Type ev \<in> {EventPrefixEvicted, EventAllCleared}")
  case True
  then show ?thesis by (auto simp: ApplyEvent_evicted ApplyEvent_cleared Let_def)
next
  case False
  then show ?thesis by (cases "ev_Type ev") (simp_all add: ApplyEvent_def Let_def split: option.splits)
qed

lemma configOf_sweep: "configOf (evictExpired i now) = configOf i"
proof -
  have "configOf (sweepStats j now) = configOf j" for j
  proof -
    have "configOf (fold (\<lambda>(sk, s) j. if Q sk s
             then statsScopeRemoveLocked (j\<lparr>stats := AList.delete sk (stats j)\<rparr>)
                    (ModelKey (sk_tenant sk) (sk_model sk)) (sk_replicaID sk) else j) m j) = configOf j"
      for Q and m :: "(statsKey, statEntry) gomap" and j
      by (induction m arbitrary: j) auto
    then show ?thesis by (simp add: sweepStats_def)
  qed
  then show ?thesis by (simp add: evictExpired_def sweepPrefixes_eq Let_def)
qed

lemma configOf_bump: "configOf (bumpEntry n i) = configOf i"
  by (rule configOf_cong) (simp_all add: bumpEntry_def)

lemma configOf_credit: "configOf (CreditHits res i) = configOf i"
proof -
  have "configOf (fold bumpEntry ns i) = configOf i" for ns
    by (induction ns arbitrary: i) (simp_all add: configOf_bump)
  then show ?thesis by (simp add: CreditHits_eq)
qed

subsection \<open>The simulation\<close>

lemma Ingest_drops:
  assumes "idx_inv i"
  shows "held (Ingest i now u) k r \<in> {None, held (ingestStored i now u) k r}"
    and "isReservedTenant i (pk_tenant k) \<Longrightarrow> pk_tenant k \<noteq> u_Tenant u \<Longrightarrow>
      held (Ingest i now u) k r = held (ingestStored i now u) k r"
proof -
  have inv: "prefix_inv (ingestStored i now u)" "prefix_inv (fst (ingestQuota i now u))"
    using idx_inv_stored [OF assms] idx_inv_quota [OF assms] by (simp_all add: idx_inv_def)
  have "held (fst (ingestQuota i now u)) k r \<in> {None, held (ingestStored i now u) k r}"
    by (simp add: ingestQuota_def evictOldest_eq [OF inv(1)] held_dropKeys split: option.splits)
  then show "held (Ingest i now u) k r \<in> {None, held (ingestStored i now u) k r}"
    by (auto simp: held_Ingest(1) [OF assms] held_cap [OF inv(2)])
  assume a: "isReservedTenant i (pk_tenant k)" "pk_tenant k \<noteq> u_Tenant u"
  then have "scopeOf k \<noteq> ScopeKey (u_Tenant u) (u_Model u) (u_HashScheme u)" by (auto simp: scopeOf_def)
  then show "held (Ingest i now u) k r = held (ingestStored i now u) k r"
    using Ingest_reserved [OF assms a] by (simp add: held_stored_other)
qed

lemma Ingest_inBounds:
  assumes "idx_inv i"
  shows "inBounds (configOf i) (u_Tenant u) (storeOf (Ingest i now u))"
proof -
  have "prefix_inv (Ingest i now u)" using idx_inv_Ingest [OF assms] by (simp add: idx_inv_def)
  moreover have "maxEntries (Ingest i now u) = maxEntries i"
      "tenantQuotaFor (Ingest i now u) (u_Tenant u) = tenantQuotaFor i (u_Tenant u)"
    using configOf_Ingest [OF assms, of now u] by (auto simp: configOf_def fun_eq_iff)
  ultimately show ?thesis
    using inBounds_storeOf [of "Ingest i now u" "u_Tenant u"] Ingest_cap [OF assms] Ingest_quota [OF assms]
    by (simp add: configOf_Ingest [OF assms])
qed

lemma inBounds_fits:
  assumes "idx_inv i" and "inBounds (configOf i) (u_Tenant u) (storeOf (ingestStored i now u))"
  shows "fits i now u"
proof -
  have inv: "prefix_inv (ingestStored i now u)" using idx_inv_stored [OF assms(1)] by (simp add: idx_inv_def)
  have "maxEntries (ingestStored i now u) = maxEntries i"
      "tenantQuotaFor (ingestStored i now u) (u_Tenant u) = tenantQuotaFor i (u_Tenant u)"
    using configOf_stored [of i now u] by (auto simp: configOf_def fun_eq_iff)
  then show ?thesis using assms(2) inBounds_storeOf [OF inv, of "u_Tenant u"]
    by (auto simp: fits_def not_le split: option.splits)
qed

lemma Ingest_simulates:
  assumes "idx_inv i"
  shows "specStep (configOf i) (storeOf i) (storeOf (Ingest i now u))"
proof (rule specStep.report)
  show "specPut (u_ReplicaID u) (ingestTime now u) (ingestOps u) (storeOf i) =
      specPut (u_ReplicaID u) (ingestTime now u) (ingestOps u) (storeOf i)" ..
  show "\<forall>op \<in> set (ingestOps u). pk_tenant (fst op) = u_Tenant u"
    using scopeOf_ingestOps [of u] by (auto simp: list_all_iff scopeOf_def)
  show "\<forall>k r. storeOf (Ingest i now u) k r \<in>
      {None, specPut (u_ReplicaID u) (ingestTime now u) (ingestOps u) (storeOf i) k r}"
    unfolding storeOf_stored [symmetric]
  proof (intro allI)
    fix k r
    show "storeOf (Ingest i now u) k r \<in> {None, storeOf (ingestStored i now u) k r}"
      using Ingest_drops(1) [OF assms, of now u k r] by (auto simp: storeOf_def)
  qed
  show "\<forall>k r. sp_reserved (configOf i) (pk_tenant k) \<and> pk_tenant k \<noteq> u_Tenant u \<longrightarrow>
      storeOf (Ingest i now u) k r = specPut (u_ReplicaID u) (ingestTime now u) (ingestOps u) (storeOf i) k r"
    using Ingest_drops(2) [OF assms, of _ u now] unfolding storeOf_stored [symmetric] by (auto simp: storeOf_def configOf_def)
  show "inBounds (configOf i) (u_Tenant u) (storeOf (Ingest i now u))" by (rule Ingest_inBounds [OF assms])
  show "inBounds (configOf i) (u_Tenant u) (specPut (u_ReplicaID u) (ingestTime now u) (ingestOps u) (storeOf i)) \<longrightarrow>
      storeOf (Ingest i now u) = specPut (u_ReplicaID u) (ingestTime now u) (ingestOps u) (storeOf i)"
    unfolding storeOf_stored [symmetric]
    using inBounds_fits [OF assms] held_Ingest_fits [OF assms] by (auto simp: storeOf_def fun_eq_iff)
qed

lemma event_simulates:
  assumes "prefix_inv i"
  shows "specStep (configOf i) (storeOf i) (storeOf (ApplyEvent i now ev))"
proof -
  define P where "P = (case ev_Type ev of EventPrefixEvicted \<Rightarrow> evictMatch ev | EventAllCleared \<Rightarrow> clearMatch ev
    | _ \<Rightarrow> (\<lambda>_. False))"
  have "storeOf (ApplyEvent i now ev) = specDrop (ev_ReplicaID ev) P (storeOf i)"
    by (cases "ev_Type ev") (simp_all add: fun_eq_iff storeOf_def specDrop_def P_def held_ApplyEvent [OF assms])
  then show ?thesis by (simp add: specStep.drop)
qed

lemma sweep_simulates:
  assumes "idx_inv i"
  shows "specStep (configOf i) (storeOf i) (storeOf (evictExpired i now))"
proof -
  have "storeOf (evictExpired i now) = specSweep (configOf i) now (storeOf i)"
    by (auto simp: fun_eq_iff storeOf_def specSweep_def evictExpired_spec(2) [OF assms] expired_def configOf_def
        entryView_def split: option.splits)
  then show ?thesis by (simp add: specStep.sweep)
qed

lemma credit_simulates: "specStep (configOf i) (storeOf i) (storeOf (CreditHits res i))"
proof -
  have "storeOf (CreditHits res i) =
      specCredit (\<lambda>k r. count_list (creditedIds res) (re_id (the (held i k r)))) (storeOf i)"
    by (auto simp: fun_eq_iff storeOf_def specCredit_def held_CreditHits entryView_def bumpBy_def option.map_comp
        split: option.splits intro!: option.map_cong)
  then show ?thesis by (simp add: specStep.credit)
qed

lemma step_simulates:
  assumes "idx_inv i" and "index_step i j"
  shows "configOf j = configOf i \<and> specStep (configOf i) (storeOf i) (storeOf j)"
  using assms(2)
proof (cases rule: index_step.cases)
  case (ingest now u)
  then show ?thesis using Ingest_simulates [OF assms(1)] configOf_Ingest [OF assms(1)] by simp
next
  case (event now ev)
  then show ?thesis using event_simulates [of i] assms(1) configOf_ApplyEvent by (simp add: idx_inv_def)
next
  case (sweep now)
  then show ?thesis using sweep_simulates [OF assms(1)] configOf_sweep by simp
next
  case (credit res)
  then show ?thesis using credit_simulates configOf_credit by simp
qed

lemma reachable_simulates: "reachable i \<Longrightarrow> specReach (configOf i) (storeOf i)"
proof (induction rule: reachable.induct)
  case (start opts)
  then have "prefixes (New opts) = []" using blank_New by (simp add: blank_def)
  then have "storeOf (New opts) = (\<lambda>_ _. None)" by (simp add: fun_eq_iff gm_map_def)
  then show ?case using specReach.start [of "configOf (New opts)"] by simp
next
  case (step i j)
  then have "configOf j = configOf i" "specStep (configOf i) (storeOf i) (storeOf j)"
    using step_simulates [OF reachable_idx_inv] by blast+
  then show ?case using step.IH specReach.step by metis
qed

end
