(* ===== verification/Snapshots.thy ===== *)
theory Snapshots
  imports Index_Machine
begin

text \<open>
  \<open>internal/index/snapshot.go\<close>: the namespace view, the prefix-count aggregate and the
  cluster-wide snapshot. The aggregate is exact and partitions the total by tenant; the rows of
  a snapshot are the (tenant, replica) pairs and the tenants the index knows, each once, with
  no reserved tenant among them.
\<close>

subsection \<open>The namespace view\<close>

definition CacheState :: "Index \<Rightarrow> string \<Rightarrow> string \<Rightarrow> ReplicaStats list \<times> int" where
  "CacheState i tenant model =
     (let totalPrefixes =
            fold (\<lambda>(key, _) n. if pk_tenant key = tenant \<and> pk_model key = model then n + 1 else n) (prefixes i) 0;
          replicas =
            fold (\<lambda>(sk, s) rs. if sk_tenant sk = tenant \<and> sk_model sk = model then rs @ [se_stats s] else rs)
              (stats i) []
      in (sort_slice (\<lambda>a b. rs_ReplicaID a < rs_ReplicaID b) replicas, totalPrefixes))"

subsection \<open>The aggregate\<close>

record Aggregate =
  PerTenant :: "(string, int) gomap"
  Total :: int

definition aggregateLocked :: "Index \<Rightarrow> Aggregate" where
  "aggregateLocked i =
     fold (\<lambda>(key, _) agg.
             if isReservedTenant i (pk_tenant key) then agg
             else \<lparr>PerTenant = ctr_inc (pk_tenant key) (PerTenant agg), Total = Total agg + 1\<rparr>)
       (prefixes i) \<lparr>PerTenant = [], Total = 0\<rparr>"

subsection \<open>The snapshot\<close>

record ReplicaSnapshot =
  rsn_ReplicaID :: string
  rsn_Tenant :: string
  rsn_CacheMemoryBytes :: int
  rsn_HitRate :: flt
  rsn_Pressure :: flt
  rsn_LastUpdate :: gotime
  rsn_PrefixCount :: int
  rsn_LastEventAt :: gotime
  rsn_StatsReported :: bool
  rsn_T2HitTokens :: int
  rsn_T2QueryTokens :: int

record TenantSnapshot =
  tsn_TenantID :: string
  tsn_IndexEntries :: int
  tsn_HitRate :: flt
  tsn_HitRateReported :: bool
  tsn_MemoryUsed :: int

record Snapshot =
  snap_Replicas :: "ReplicaSnapshot list"
  snap_Tenants :: "TenantSnapshot list"
  snap_TotalPrefixes :: int
  snap_HotPrefixes :: int

type_synonym tenantReplica = "string \<times> string"

definition latestByReplica :: "Index \<Rightarrow> (tenantReplica, statEntry) gomap" where
  "latestByReplica i =
     fold (\<lambda>(sk, s) latest.
             if isReservedTenant i (sk_tenant sk) then latest
             else
               (let tr = (sk_tenant sk, sk_replicaID sk)
                in case map_of latest tr of
                     None \<Rightarrow> AList.update tr s latest
                   | Some cur \<Rightarrow> if se_lastSeen cur < se_lastSeen s then AList.update tr s latest else latest))
       (stats i) []"

definition prefixAggStep :: "string \<Rightarrow> string \<times> replicaEntry \<Rightarrow>
    (tenantReplica, int \<times> gotime) gomap \<Rightarrow> (tenantReplica, int \<times> gotime) gomap" where
  "prefixAggStep tenant = (\<lambda>(rid, e) m.
     (let tr = (tenant, rid);
          (n, lastEventAt) = (case map_of m tr of None \<Rightarrow> (0, 0) | Some a \<Rightarrow> a)
      in AList.update tr
           (n + 1, if lastEventAt < re_lastSeen e then re_lastSeen e else lastEventAt) m))"

definition prefixByReplica :: "Index \<Rightarrow> (tenantReplica, int \<times> gotime) gomap" where
  "prefixByReplica i =
     fold (\<lambda>(key, replicas) m.
             if isReservedTenant i (pk_tenant key) then m
             else fold (prefixAggStep (pk_tenant key)) replicas m)
       (prefixes i) []"

definition replicaRow ::
  "(tenantReplica, statEntry) gomap \<Rightarrow> (tenantReplica, int \<times> gotime) gomap \<Rightarrow> tenantReplica \<Rightarrow> ReplicaSnapshot" where
  "replicaRow latest byReplica = (\<lambda>(tenant, replica).
     (let r = \<lparr>rsn_ReplicaID = replica, rsn_Tenant = tenant, rsn_CacheMemoryBytes = 0,
               rsn_HitRate = Fin 0, rsn_Pressure = Fin 0, rsn_LastUpdate = 0, rsn_PrefixCount = 0,
               rsn_LastEventAt = 0, rsn_StatsReported = False, rsn_T2HitTokens = 0, rsn_T2QueryTokens = 0\<rparr>;
          r = (case map_of latest (tenant, replica) of
                 None \<Rightarrow> r
               | Some s \<Rightarrow>
                   r\<lparr>rsn_CacheMemoryBytes := rs_CacheMemoryBytes (se_stats s), rsn_HitRate := rs_HitRate (se_stats s),
                     rsn_Pressure := rs_Pressure (se_stats s), rsn_T2HitTokens := rs_T2HitTokens (se_stats s),
                     rsn_T2QueryTokens := rs_T2QueryTokens (se_stats s), rsn_LastUpdate := se_lastSeen s,
                     rsn_StatsReported := True\<rparr>)
      in case map_of byReplica (tenant, replica) of
           None \<Rightarrow> r
         | Some (n, lastEventAt) \<Rightarrow> r\<lparr>rsn_PrefixCount := n, rsn_LastEventAt := lastEventAt\<rparr>))"

definition seenKeys :: "('k, 'a) gomap \<Rightarrow> ('k, 'b) gomap \<Rightarrow> ('k, unit) gomap" where
  "seenKeys a b =
     fold (\<lambda>(k, _). AList.update k ()) b (fold (\<lambda>(k, _). AList.update k ()) a [])"

definition hitSums :: "(tenantReplica, statEntry) gomap \<Rightarrow> (string, flt \<times> int) gomap" where
  "hitSums latest =
     fold (\<lambda>((tenant, _), s) m.
             (let (sumHit, n) = (case map_of m tenant of None \<Rightarrow> (Fin 0, 0) | Some a \<Rightarrow> a)
              in AList.update tenant
                   (fadd binary64 sumHit (fconv binary64 (rs_HitRate (se_stats s))), n + 1) m))
       latest []"

definition tenantRow :: "Aggregate \<Rightarrow> (string, flt \<times> int) gomap \<Rightarrow> string \<Rightarrow> TenantSnapshot" where
  "tenantRow agg hs t =
     (let (hit, reported) =
            (case map_of hs t of
               None \<Rightarrow> (Fin 0, False)
             | Some (sumHit, n) \<Rightarrow>
                 if 0 < n then (fconv binary32 (fdiv binary64 sumHit (fint binary64 n)), True)
                 else (Fin 0, False))
      in \<lparr>tsn_TenantID = t, tsn_IndexEntries = gm_int (PerTenant agg) t, tsn_HitRate = hit,
          tsn_HitRateReported = reported, tsn_MemoryUsed = 0\<rparr>)"

text \<open>\<open>emit\<close>: a tenant already emitted is skipped.\<close>

definition emitTenant ::
  "Aggregate \<Rightarrow> (string, flt \<times> int) gomap \<Rightarrow> string \<Rightarrow>
     (string, unit) gomap \<times> TenantSnapshot list \<Rightarrow> (string, unit) gomap \<times> TenantSnapshot list" where
  "emitTenant agg hs t = (\<lambda>(seen, rows).
     if map_of seen t \<noteq> None then (seen, rows)
     else (AList.update t () seen, rows @ [tenantRow agg hs t]))"

definition replicaRowLess :: "ReplicaSnapshot \<Rightarrow> ReplicaSnapshot \<Rightarrow> bool" where
  "replicaRowLess a b \<longleftrightarrow>
     (if rsn_Tenant a \<noteq> rsn_Tenant b then rsn_Tenant a < rsn_Tenant b
      else rsn_ReplicaID a < rsn_ReplicaID b)"

definition SnapshotOf :: "Index \<Rightarrow> Snapshot" where
  "SnapshotOf i =
     (let latest = latestByReplica i;
          byReplica = prefixByReplica i;
          agg = aggregateLocked i;
          seen = seenKeys latest byReplica;
          replicas = map (\<lambda>(tr, _). replicaRow latest byReplica tr) seen;
          hs = hitSums latest;
          (_, tenants) =
            fold (\<lambda>(t, _). emitTenant agg hs t) (PerTenant agg)
              (fold (\<lambda>(t, _). emitTenant agg hs t) hs ([], []))
      in \<lparr>snap_Replicas = sort_slice replicaRowLess replicas,
          snap_Tenants = sort_slice (\<lambda>a b. tsn_TenantID a < tsn_TenantID b) tenants,
          snap_TotalPrefixes = Total agg, snap_HotPrefixes = 0\<rparr>)"

subsection \<open>The aggregate is exact\<close>

definition visible :: "Index \<Rightarrow> prefixKey list" where
  "visible i = filter (\<lambda>k. \<not> isReservedTenant i (pk_tenant k)) (map fst (prefixes i))"

lemma aggregate_eq:
  "aggregateLocked i = \<lparr>PerTenant = fold ctr_inc (map pk_tenant (visible i)) [], Total = int (length (visible i))\<rparr>"
proof -
  have "fold (\<lambda>(key, _) agg.
             if isReservedTenant i (pk_tenant key) then agg
             else \<lparr>PerTenant = ctr_inc (pk_tenant key) (PerTenant agg), Total = Total agg + 1\<rparr>) m
          \<lparr>PerTenant = p, Total = n\<rparr> =
      \<lparr>PerTenant = fold ctr_inc (map pk_tenant (filter (\<lambda>k. \<not> isReservedTenant i (pk_tenant k)) (map fst m))) p,
       Total = n + int (length (filter (\<lambda>k. \<not> isReservedTenant i (pk_tenant k)) (map fst m)))\<rparr>"
    for m :: "(prefixKey, (string, replicaEntry) gomap) gomap" and p n
    by (induction m arbitrary: p n) (auto simp: algebra_simps)
  then show ?thesis by (simp add: aggregateLocked_def visible_def)
qed

lemma PerTenant_tracks:
  "tracks (PerTenant (aggregateLocked i)) (\<lambda>t. count_list (map pk_tenant (visible i)) t)"
  using flat.rep_fold_inc [OF tracks_Nil, of "map pk_tenant (visible i)"] by (simp add: aggregate_eq)

lemma sum_counts:
  assumes "tracks m (\<lambda>t. count_list xs t)"
  shows "sum_list (map snd m) = int (length xs)"
proof -
  have wf: "distinct (map fst m)" using assms by (simp add: tracks_def gm_wf_def)
  have keys: "set (map fst m) = set xs"
    unfolding set_map set_eq_iff tracks_mem [OF assms] by (metis count_list_0_iff neq0_conv)
  have "map snd m = map (\<lambda>t. int (count_list xs t)) (map fst m)"
    unfolding map_map comp_def
  proof (rule map_cong [OF refl])
    fix x
    assume "x \<in> set m"
    then have "map_of m (fst x) = Some (snd x)" using wf by simp
    then show "snd x = int (count_list xs (fst x))" using assms by (simp add: tracks_def split: if_splits)
  qed
  then have "sum_list (map snd m) = (\<Sum>t\<in>set xs. int (count_list xs t))"
    using sum_list_distinct_conv_sum_set [OF wf, of "\<lambda>t. int (count_list xs t)"] by (simp only: keys)
  also have "\<dots> = int (\<Sum>t\<in>set xs. count_list xs t)" by simp
  also have "(\<Sum>t\<in>set xs. count_list xs t) = length xs" by (rule sum_count_set) simp_all
  finally show ?thesis .
qed

lemma aggregate_partition: "sum_list (map snd (PerTenant (aggregateLocked i))) = Total (aggregateLocked i)"
  using sum_counts [OF PerTenant_tracks] by (simp add: aggregate_eq)

lemma set_visible:
  "prefix_inv i \<Longrightarrow> set (visible i) = {k \<in> keysHeld i. \<not> isReservedTenant i (pk_tenant k)}"
  by (auto simp: visible_def keysHeld_eq)

lemma distinct_visible: "prefix_inv i \<Longrightarrow> distinct (visible i)"
  unfolding visible_def by (rule distinct_filter) (simp add: prefix_inv_def gm_wf_def)

lemma aggregate_total:
  assumes "prefix_inv i"
  shows "Total (aggregateLocked i) = int (card {k \<in> keysHeld i. \<not> isReservedTenant i (pk_tenant k)})"
  using distinct_card [OF distinct_visible [OF assms]] by (simp add: aggregate_eq set_visible [OF assms])

lemma aggregate_tenant:
  assumes "prefix_inv i"
  shows "gm_int (PerTenant (aggregateLocked i)) t =
    (if isReservedTenant i t then 0 else gm_int (prefixesByTenant i) t)"
proof -
  have "gm_int (PerTenant (aggregateLocked i)) t = int (count_list (map pk_tenant (visible i)) t)"
    by (rule tracks_gm_int [OF PerTenant_tracks])
  also have "count_list (map pk_tenant (visible i)) t = length (filter (\<lambda>k. pk_tenant k = t) (visible i))"
    by (simp add: count_list_eq_length_filter filter_map comp_def eq_commute [of t])
  also have "\<dots> = card {k \<in> set (visible i). pk_tenant k = t}"
    using distinct_card [OF distinct_filter [OF distinct_visible [OF assms]], of "\<lambda>k. pk_tenant k = t"] by simp
  also have "{k \<in> set (visible i). pk_tenant k = t} = (if isReservedTenant i t then {} else {k \<in> keysHeld i. pk_tenant k = t})"
    by (auto simp: set_visible [OF assms])
  finally show ?thesis by (simp add: prefix_inv_counts(3) [OF assms])
qed

subsection \<open>Rows of the snapshot\<close>

lemma emit_fold:
  assumes "distinct (map tsn_TenantID rows)" and "map tsn_TenantID rows = map fst seen"
    and "\<forall>r \<in> set rows. r = tenantRow agg hs (tsn_TenantID r)"
  shows "\<exists>seen' rows'. fold (\<lambda>(t, _). emitTenant agg hs t) m (seen, rows) = (seen', rows') \<and>
    distinct (map tsn_TenantID rows') \<and> map tsn_TenantID rows' = map fst seen' \<and>
    (\<forall>r \<in> set rows'. r = tenantRow agg hs (tsn_TenantID r)) \<and>
    tsn_TenantID ` set rows' = tsn_TenantID ` set rows \<union> fst ` set m"
  using assms
proof (induction m arbitrary: seen rows)
  case (Cons x m)
  obtain t v where x: "x = (t, v)" by (cases x)
  have id: "tsn_TenantID (tenantRow agg hs t) = t" by (simp add: tenantRow_def Let_def case_prod_beta)
  show ?case
  proof (cases "map_of seen t = None")
    case False
    then have "t \<in> fst ` set seen" by (simp only: mem_keys not_False_eq_True)
    then have "t \<in> tsn_TenantID ` set rows" using Cons.prems(2) by (metis set_map)
    moreover have "emitTenant agg hs t (seen, rows) = (seen, rows)" using False by (simp add: emitTenant_def)
    ultimately show ?thesis using Cons.IH [OF Cons.prems] x by auto
  next
    case True
    then have nt: "t \<notin> fst ` set seen" by (simp add: map_of_eq_None_iff)
    then have "t \<notin> tsn_TenantID ` set rows" using Cons.prems(2) by (metis set_map)
    moreover have "emitTenant agg hs t (seen, rows) = (seen @ [(t, ())], rows @ [tenantRow agg hs t])"
      using True nt by (simp add: emitTenant_def update_notin)
    ultimately show ?thesis
      using Cons.IH [of "rows @ [tenantRow agg hs t]" "seen @ [(t, ())]"] Cons.prems x id nt by auto
  qed
qed auto

lemma snapshot_tenants:
  obtains rows where "snap_Tenants (SnapshotOf i) = sort_slice (\<lambda>a b. tsn_TenantID a < tsn_TenantID b) rows"
    and "distinct (map tsn_TenantID rows)"
    and "\<forall>r \<in> set rows. r = tenantRow (aggregateLocked i) (hitSums (latestByReplica i)) (tsn_TenantID r)"
    and "tsn_TenantID ` set rows = fst ` set (hitSums (latestByReplica i)) \<union> fst ` set (PerTenant (aggregateLocked i))"
proof -
  let ?agg = "aggregateLocked i" and ?hs = "hitSums (latestByReplica i)"
  obtain seen rows where 1: "fold (\<lambda>(t, _). emitTenant ?agg ?hs t) ?hs ([], []) = (seen, rows)"
    "distinct (map tsn_TenantID rows)" "map tsn_TenantID rows = map fst seen"
    "\<forall>r \<in> set rows. r = tenantRow ?agg ?hs (tsn_TenantID r)" "tsn_TenantID ` set rows = fst ` set ?hs"
    using emit_fold [of "[]" "[]" ?agg ?hs ?hs] by auto
  obtain seen' rows' where 2: "fold (\<lambda>(t, _). emitTenant ?agg ?hs t) (PerTenant ?agg) (seen, rows) = (seen', rows')"
    "distinct (map tsn_TenantID rows')" "\<forall>r \<in> set rows'. r = tenantRow ?agg ?hs (tsn_TenantID r)"
    "tsn_TenantID ` set rows' = fst ` set ?hs \<union> fst ` set (PerTenant ?agg)"
    using emit_fold [OF 1(2,3,4), of "PerTenant ?agg"] 1(5) by auto
  show ?thesis
    by (rule that [OF _ 2(2,3,4)]) (simp add: SnapshotOf_def Let_def 1(1) 2(1))
qed

text \<open>The tenant rows add up to the total the snapshot reports.\<close>

lemma snapshot_total:
  "sum_list (map tsn_IndexEntries (snap_Tenants (SnapshotOf i))) = snap_TotalPrefixes (SnapshotOf i)"
proof -
  let ?agg = "aggregateLocked i" and ?hs = "hitSums (latestByReplica i)"
  let ?f = "gm_int (PerTenant ?agg)"
  obtain rows where rows: "snap_Tenants (SnapshotOf i) = sort_slice (\<lambda>a b. tsn_TenantID a < tsn_TenantID b) rows"
    "distinct (map tsn_TenantID rows)" "\<forall>r \<in> set rows. r = tenantRow ?agg ?hs (tsn_TenantID r)"
    "tsn_TenantID ` set rows = fst ` set ?hs \<union> fst ` set (PerTenant ?agg)"
    by (rule snapshot_tenants)
  have ie: "tsn_IndexEntries (tenantRow ?agg ?hs t) = ?f t" for t
    by (simp add: tenantRow_def Let_def case_prod_beta)
  have "sum_list (map tsn_IndexEntries (snap_Tenants (SnapshotOf i))) = sum_list (map tsn_IndexEntries rows)"
  proof -
    have "mset (map tsn_IndexEntries (snap_Tenants (SnapshotOf i))) = mset (map tsn_IndexEntries rows)"
      by (simp add: rows(1))
    then show ?thesis by (simp only: sum_mset_sum_list [symmetric])
  qed
  also have "map tsn_IndexEntries rows = map ?f (map tsn_TenantID rows)"
    unfolding map_map comp_def
  proof (rule map_cong [OF refl])
    fix r
    assume "r \<in> set rows"
    then have "tsn_IndexEntries r = tsn_IndexEntries (tenantRow ?agg ?hs (tsn_TenantID r))"
      by (rule arg_cong [OF rows(3) [rule_format]])
    then show "tsn_IndexEntries r = ?f (tsn_TenantID r)" by (simp only: ie)
  qed
  also have "sum_list \<dots> = (\<Sum>t \<in> set (map tsn_TenantID rows). ?f t)"
    by (rule sum_list_distinct_conv_sum_set [OF rows(2)])
  also have "\<dots> = (\<Sum>t \<in> fst ` set (PerTenant ?agg). ?f t)"
  proof (rule sum.mono_neutral_right)
    show "fst ` set (PerTenant ?agg) \<subseteq> set (map tsn_TenantID rows)" using rows(4) by auto
    show "\<forall>t \<in> set (map tsn_TenantID rows) - fst ` set (PerTenant ?agg). ?f t = 0"
      by (auto simp: gm_int_def map_of_eq_None_iff [THEN iffD2])
  qed simp
  also have "\<dots> = sum_list (map snd (PerTenant ?agg))"
  proof -
    have wf: "distinct (map fst (PerTenant ?agg))" using PerTenant_tracks [of i] by (simp add: tracks_def gm_wf_def)
    have "map snd (PerTenant ?agg) = map ?f (map fst (PerTenant ?agg))"
      unfolding map_map comp_def
    proof (rule map_cong [OF refl])
      fix x
      assume "x \<in> set (PerTenant ?agg)"
      then have "map_of (PerTenant ?agg) (fst x) = Some (snd x)" using wf by simp
      then show "snd x = ?f (fst x)" by (simp add: gm_int_def)
    qed
    then show ?thesis using sum_list_distinct_conv_sum_set [OF wf, of ?f] by (simp only: set_map)
  qed
  also have "\<dots> = Total ?agg" by (rule aggregate_partition)
  finally show ?thesis by (simp add: SnapshotOf_def Let_def case_prod_beta)
qed

text \<open>Reserved tenants appear in no row.\<close>

lemma latest_unreserved:
  "fst ` set (latestByReplica i) \<subseteq> {(t, r). \<not> isReservedTenant i t}"
proof -
  have "fst ` set (fold (\<lambda>(sk, s) latest.
             if isReservedTenant i (sk_tenant sk) then latest
             else
               (let tr = (sk_tenant sk, sk_replicaID sk)
                in case map_of latest tr of
                     None \<Rightarrow> AList.update tr s latest
                   | Some cur \<Rightarrow> if se_lastSeen cur < se_lastSeen s then AList.update tr s latest else latest)) m acc)
      \<subseteq> fst ` set acc \<union> {(t, r). \<not> isReservedTenant i t}" for m acc
  proof (induction m arbitrary: acc)
    case (Cons x m)
    obtain sk s where x: "x = (sk, s)" by (cases x)
    let ?g = "\<lambda>(sk, s) latest.
             if isReservedTenant i (sk_tenant sk) then latest
             else
               (let tr = (sk_tenant sk, sk_replicaID sk)
                in case map_of latest tr of
                     None \<Rightarrow> AList.update tr s latest
                   | Some cur \<Rightarrow> if se_lastSeen cur < se_lastSeen s then AList.update tr s latest else latest)"
    have "fst ` set (?g (sk, s) acc) \<subseteq> fst ` set acc \<union> {(t, r). \<not> isReservedTenant i t}"
      by (simp add: Let_def keys_update split: option.splits)
    then show ?case using Cons [of "?g (sk, s) acc"] x by (simp only: fold_simps) blast
  qed simp
  from this [of "stats i" "[]"] show ?thesis by (simp add: latestByReplica_def)
qed

text \<open>The prefix count of a row is the number of prefixes of the tenant the replica holds.\<close>

definition rowStep :: "tenantReplica \<times> gotime \<Rightarrow> (tenantReplica, int \<times> gotime) gomap \<Rightarrow> (tenantReplica, int \<times> gotime) gomap" where
  "rowStep = (\<lambda>(tr, ls) m.
     (let (n, last) = (case map_of m tr of None \<Rightarrow> (0, 0) | Some a \<Rightarrow> a)
      in AList.update tr (n + 1, if last < ls then ls else last) m))"

lemma rowStep_count:
  "(case map_of (fold rowStep xs m) tr of None \<Rightarrow> 0 | Some a \<Rightarrow> fst a) =
     (case map_of m tr of None \<Rightarrow> 0 | Some a \<Rightarrow> fst a) + int (length (filter (\<lambda>x. fst x = tr) xs))"
proof (induction xs arbitrary: m)
  case (Cons x xs)
  obtain k ls where x: "x = (k, ls)" by (cases x)
  have "(case map_of (rowStep x m) tr of None \<Rightarrow> 0 | Some a \<Rightarrow> fst a) =
      (case map_of m tr of None \<Rightarrow> 0 | Some a \<Rightarrow> fst a) + of_bool (k = tr)"
    by (auto simp: x rowStep_def Let_def gomap_simps case_prod_beta split: option.splits)
  then show ?case using Cons [of "rowStep x m"] x by simp
qed simp

lemma prefixByReplica_eq:
  "prefixByReplica i =
     fold rowStep (map (\<lambda>(k, r, e). ((pk_tenant k, r), re_lastSeen e))
       (filter (\<lambda>(k, r, e). \<not> isReservedTenant i (pk_tenant k)) (entriesOf i))) []"
proof -
  have step: "fold (prefixAggStep t) rs m = fold rowStep (map (\<lambda>(r, e). ((t, r), re_lastSeen e)) rs) m" for t rs m
    by (induction rs arbitrary: m) (auto simp: prefixAggStep_def rowStep_def Let_def)
  have "fold (\<lambda>(key, replicas) m.
             if isReservedTenant i (pk_tenant key) then m
             else fold (prefixAggStep (pk_tenant key)) replicas m) ps acc =
      fold rowStep (map (\<lambda>(k, r, e). ((pk_tenant k, r), re_lastSeen e))
       (filter (\<lambda>(k, r, e). \<not> isReservedTenant i (pk_tenant k))
         (concat (map (\<lambda>(k, rs). map (\<lambda>(r, e). (k, r, e)) rs) ps)))) acc" for ps acc
    by (induction ps arbitrary: acc) (auto simp: step filter_map comp_def case_prod_beta')
  then show ?thesis by (simp add: prefixByReplica_def entriesOf_def)
qed

lemma prefixByReplica_count:
  assumes "prefix_inv i" and "\<not> isReservedTenant i t"
  shows "(case map_of (prefixByReplica i) (t, r) of None \<Rightarrow> 0 | Some a \<Rightarrow> fst a) =
    int (card {k. pk_tenant k = t \<and> held i k r \<noteq> None})"
proof -
  let ?xs = "filter (\<lambda>(k, r', e). pk_tenant k = t \<and> r' = r) (entriesOf i)" let ?p = "\<lambda>(k, r, e :: replicaEntry). (k, r)"
  have sel: "filter (\<lambda>x. fst x = (t, r)) (map (\<lambda>(k, r, e). ((pk_tenant k, r), re_lastSeen e))
       (filter (\<lambda>(k, r, e). \<not> isReservedTenant i (pk_tenant k)) ys)) =
      map (\<lambda>(k, r, e). ((pk_tenant k, r), re_lastSeen e)) (filter (\<lambda>(k, r', e). pk_tenant k = t \<and> r' = r) ys)"
    for ys :: "(prefixKey \<times> string \<times> replicaEntry) list"
    using assms(2) by (induction ys) auto
  have "(case map_of (prefixByReplica i) (t, r) of None \<Rightarrow> 0 | Some a \<Rightarrow> fst a) =
      int (length (filter (\<lambda>x. fst x = (t, r)) (map (\<lambda>(k, r, e). ((pk_tenant k, r), re_lastSeen e))
       (filter (\<lambda>(k, r, e). \<not> isReservedTenant i (pk_tenant k)) (entriesOf i)))))"
    unfolding prefixByReplica_eq rowStep_count by simp
  also have "\<dots> = int (length ?xs)" by (simp only: sel length_map)
  also have "length ?xs = card (set (map ?p ?xs))"
    using distinct_card [OF distinct_map_filter [OF distinct_entriesOf [OF assms(1)]],
        of "\<lambda>(k, r', e). pk_tenant k = t \<and> r' = r"] by (simp only: length_map)
  also have "set (map ?p ?xs) = (\<lambda>k. (k, r)) ` {k. pk_tenant k = t \<and> held i k r \<noteq> None}"
    using set_entriesOf [OF assms(1)] by force
  also have "card \<dots> = card {k. pk_tenant k = t \<and> held i k r \<noteq> None}"
    by (rule card_image) (simp add: inj_on_def)
  finally show ?thesis .
qed

subsection \<open>The rows\<close>

lemma keys_seenKeys: "fst ` set (seenKeys a b) = fst ` set a \<union> fst ` set b"
  by (simp add: seenKeys_def keys_fold_update Un_commute)

lemma replicaRow_key [simp]:
  "rsn_Tenant (replicaRow l b tr) = fst tr" "rsn_ReplicaID (replicaRow l b tr) = snd tr"
  "rsn_StatsReported (replicaRow l b tr) \<longleftrightarrow> map_of l tr \<noteq> None"
  "rsn_PrefixCount (replicaRow l b tr) = (case map_of b tr of None \<Rightarrow> 0 | Some a \<Rightarrow> fst a)"
  by (auto simp: replicaRow_def Let_def case_prod_beta split: option.splits)

lemma snapshot_rows:
  "set (snap_Replicas (SnapshotOf i)) =
     replicaRow (latestByReplica i) (prefixByReplica i) `
       (fst ` set (latestByReplica i) \<union> fst ` set (prefixByReplica i))"
proof -
  have "set (snap_Replicas (SnapshotOf i)) =
      replicaRow (latestByReplica i) (prefixByReplica i) ` (fst ` set (seenKeys (latestByReplica i) (prefixByReplica i)))"
    by (simp add: SnapshotOf_def Let_def case_prod_beta image_image)
  then show ?thesis by (simp only: keys_seenKeys)
qed

lemma keys_prefixByReplica:
  assumes "prefix_inv i"
  shows "fst ` set (prefixByReplica i) \<subseteq> {(t, r). \<not> isReservedTenant i t \<and> (\<exists>k. pk_tenant k = t \<and> held i k r \<noteq> None)}"
proof -
  have "fst ` set (fold rowStep xs m) = fst ` set xs \<union> fst ` set m" for xs m
    by (induction xs arbitrary: m) (auto simp: rowStep_def Let_def case_prod_beta keys_update)
  then have "fst ` set (prefixByReplica i) =
      (\<lambda>(k, r, e). (pk_tenant k, r)) ` set (filter (\<lambda>(k, r, e). \<not> isReservedTenant i (pk_tenant k)) (entriesOf i))"
    by (simp add: prefixByReplica_eq image_image case_prod_beta)
  then show ?thesis using set_entriesOf [OF assms] by auto
qed

end
