(* ===== verification/Identity.thy ===== *)
theory Identity
  imports Index_Machine
begin

text \<open>
  Entry pointers over time. A lookup captures pointers to the entries it matched and the
  handler credits them later, when other operations may have removed or replaced them. In the
  model a pointer is the identity drawn from the allocation counter. The lemmas follow an
  identity through any sequence of steps of the index: an entry of a later state whose identity
  was already drawn in an earlier state sits at the same key and replica in both.
\<close>

definition keepsIds :: "Index \<Rightarrow> Index \<Rightarrow> bool" where
  "keepsIds i j \<longleftrightarrow>
     nextEntry i \<le> nextEntry j \<and>
     (\<forall>k r e. held j k r = Some e \<longrightarrow> re_id e < nextEntry i \<longrightarrow>
        (\<exists>e'. held i k r = Some e' \<and> re_id e' = re_id e))"

lemma keepsIds_refl [simp]: "keepsIds i i"
  by (simp add: keepsIds_def)

lemma keepsIds_trans:
  assumes "keepsIds i j" and "keepsIds j k"
  shows "keepsIds i k"
  unfolding keepsIds_def
proof (intro conjI allI impI)
  show "nextEntry i \<le> nextEntry k" using assms by (simp add: keepsIds_def)
  fix key r e
  assume h: "held k key r = Some e" "re_id e < nextEntry i"
  have "re_id e < nextEntry j" using h(2) assms(1) by (simp add: keepsIds_def)
  then obtain e' where e': "held j key r = Some e'" "re_id e' = re_id e"
    using h(1) assms(2) unfolding keepsIds_def by blast
  moreover have "re_id e' < nextEntry i" using h(2) e'(2) by simp
  ultimately obtain e'' where "held i key r = Some e''" "re_id e'' = re_id e'"
    using assms(1) unfolding keepsIds_def by blast
  then show "\<exists>e'. held i key r = Some e' \<and> re_id e' = re_id e" using e'(2) by simp
qed

lemma keepsIds_sub:
  "nextEntry j = nextEntry i \<Longrightarrow> (\<And>k r e. held j k r = Some e \<Longrightarrow> held i k r = Some e) \<Longrightarrow> keepsIds i j"
  by (simp add: keepsIds_def)

lemma keepsIds_upsert: "keepsIds i (upsertReplicaLocked i key r c t ts)"
  by (auto simp: keepsIds_def held_upsert upserted_def upsert_counters split: option.splits)

lemma keepsIds_applyOps: "keepsIds i (applyOps rid ts ops i)"
proof (induction ops arbitrary: i)
  case (Cons op ops)
  then show ?case
    by (cases op) (auto intro: keepsIds_trans [OF keepsIds_upsert])
qed simp

lemma nextEntry_stats [simp]: "nextEntry (ingestStats u ts i) = nextEntry i"
  by (auto simp: ingestStats_def Let_def split: option.splits)

lemma nextEntry_dropKeys [simp]: "nextEntry (dropKeys ks i) = nextEntry i"
  unfolding dropKeys_def by (induction ks arbitrary: i) (auto simp: dropPrefix_eq simp del: map_map)

lemma keepsIds_stored: "keepsIds i (ingestStored i now u)"
proof -
  have "keepsIds (ingestPrefixes u ts i) (ingestStats u ts (ingestPrefixes u ts i))" for ts
    by (rule keepsIds_sub) simp_all
  moreover have "keepsIds i (ingestPrefixes u ts i)" for ts
    unfolding ingestPrefixes_eq by (rule keepsIds_applyOps)
  ultimately show ?thesis unfolding ingestStored_def by (blast intro: keepsIds_trans)
qed

lemma keepsIds_dropKeys: "keepsIds i (dropKeys ks i)"
  by (rule keepsIds_sub) (simp_all add: held_dropKeys split: if_splits)

lemma keepsIds_dropAll: "keepsIds i (dropAll xs i)"
  by (rule keepsIds_sub) (simp_all add: held_dropAll split: if_splits)

lemma keepsIds_Ingest:
  assumes "idx_inv i"
  shows "keepsIds i (Ingest i now u)"
proof -
  have stored: "prefix_inv (ingestStored i now u)"
    using idx_inv_stored [OF assms, of now u] by (simp add: idx_inv_def)
  have "keepsIds (ingestStored i now u) (fst (ingestQuota i now u))"
    by (auto simp: ingestQuota_def evictOldest_eq [OF stored] intro: keepsIds_dropKeys split: option.splits)
  with keepsIds_stored have q: "keepsIds i (fst (ingestQuota i now u))" by (rule keepsIds_trans)
  have inv: "prefix_inv (fst (ingestQuota i now u))"
    using idx_inv_quota [OF assms, of now u] by (simp add: idx_inv_def)
  have c: "keepsIds i (fst (enforceCapLocked (fst (ingestQuota i now u))))"
    by (rule keepsIds_trans [OF q]) (simp add: enforceCap_eq [OF inv] keepsIds_dropAll)
  obtain cs where "Ingest i now u = reportEntries (emitCalls cs (fst (enforceCapLocked (fst (ingestQuota i now u)))))"
    by (rule Ingest_stages)
  then show ?thesis using c by (simp add: keepsIds_def)
qed

lemma nextEntry_fold_remove [simp]:
  "nextEntry (fold (\<lambda>(key, _) j. if Q key then j else removeReplicaLocked j key rid) m i) = nextEntry i"
  by (induction m arbitrary: i) auto

lemma nextEntry_ApplyEvent: "nextEntry (ApplyEvent i now ev) = nextEntry i"
proof (cases "ev_Type ev")
  case EventPrefixEvicted
  then show ?thesis by (simp add: ApplyEvent_evicted nextEntry_fold_remove [where Q = "\<lambda>k. \<not> evictMatch ev k"])
next
  case EventAllCleared
  then show ?thesis
    by (simp add: ApplyEvent_cleared Let_def nextEntry_fold_remove [where Q = "\<lambda>k. \<not> clearMatch ev k"])
qed (simp_all add: ApplyEvent_def Let_def split: option.splits)

lemma nextEntry_sweepStats: "nextEntry (sweepStats i now) = nextEntry i"
proof -
  have "nextEntry (fold (\<lambda>(sk, s) j. if expired i now (sk_tenant sk) (se_lastSeen s)
      then statsScopeRemoveLocked (j\<lparr>stats := AList.delete sk (stats j)\<rparr>) (ModelKey (sk_tenant sk) (sk_model sk))
             (sk_replicaID sk)
      else j) m j) = nextEntry j" for m j
    by (induction m arbitrary: j) auto
  then show ?thesis by (simp add: sweepStats_def)
qed

lemma keepsIds_step:
  assumes "idx_inv i" and "index_step i j"
  shows "keepsIds i j"
proof -
  have inv: "prefix_inv i" using assms(1) by (simp add: idx_inv_def)
  from assms(2) show ?thesis
  proof (rule index_stepE)
    fix now u assume "j = Ingest i now u"
    then show ?thesis using keepsIds_Ingest [OF assms(1)] by simp
  next
    fix now ev assume "j = ApplyEvent i now ev"
    then show ?thesis using held_ApplyEvent [OF inv]
      by (intro keepsIds_sub) (auto simp: nextEntry_ApplyEvent split: EventType.splits if_splits)
  next
    fix now assume j: "j = evictExpired i now"
    have "nextEntry j = nextEntry i"
      by (simp add: j evictExpired_def case_prod_beta Let_def nextEntry_sweepStats sweepPrefixes_eq)
    then show ?thesis
      by (rule keepsIds_sub) (auto simp: j evictExpired_spec(2) [OF assms(1)] split: option.splits if_splits)
  next
    fix res assume j: "j = CreditHits res i"
    have "nextEntry (fold bumpEntry ns i) = nextEntry i" for ns i
      by (induction ns arbitrary: i) (auto simp: bumpEntry_def)
    then have "nextEntry (CreditHits res i) = nextEntry i" by (simp add: CreditHits_eq)
    then show ?thesis by (auto simp: j keepsIds_def held_CreditHits bumpBy_def)
  qed
qed

subsection \<open>Identities are unique\<close>

lemma wsum_two:
  assumes "(k, v) \<in> set m" and "(k', v') \<in> set m" and "(k, v) \<noteq> (k', v')"
  shows "w k v + w k' v' \<le> wsum w m"
  using assms
proof (induction m)
  case (Cons p m)
  have one: "(x, y) \<in> set m \<Longrightarrow> w x y \<le> wsum w m" for x y m
    by (induction m) auto
  obtain a b where p: "p = (a, b)" by (cases p)
  show ?case using Cons p one [of k v m] one [of k' v' m] by fastforce
qed simp

lemma wsum_one: "(k, v) \<in> set m \<Longrightarrow> w k v \<le> wsum w m"
  by (induction m) auto

lemma held_id_unique:
  assumes "prefix_inv i" and "held i k r = Some e" and "held i k' r' = Some e'" and "re_id e = re_id e'"
  shows "k = k'" and "r = r'"
proof -
  define n where "n = re_id e"
  have le: "wsum (w_entry n) (prefixes i) \<le> 1"
  proof -
    have "wsum (w_entry n) (prefixes i) \<le> of_bool (n < nextEntry i)" using assms(1) unfolding prefix_inv_def by blast
    also have "\<dots> \<le> 1" by simp
    finally show ?thesis .
  qed
  have mem: "\<exists>rs. (k, rs) \<in> set (prefixes i) \<and> (r, e) \<in> set rs" if h: "held i k r = Some e" for k r e
  proof -
    obtain rs where "map_of (prefixes i) k = Some rs" "map_of rs r = Some e"
      using h by (auto simp: gm_map_def split: option.splits)
    then show ?thesis by (auto dest: map_of_SomeD)
  qed
  obtain rs where rs: "(k, rs) \<in> set (prefixes i)" "(r, e) \<in> set rs" using mem [OF assms(2)] by blast
  obtain rs' where rs': "(k', rs') \<in> set (prefixes i)" "(r', e') \<in> set rs'" using mem [OF assms(3)] by blast
  let ?w = "\<lambda>(r :: string) e. of_bool (re_id e = n) :: nat"
  have w: "1 \<le> w_entry n k rs" "1 \<le> w_entry n k' rs'"
    using wsum_one [OF rs(2), of ?w] wsum_one [OF rs'(2), of ?w] assms(4) by (simp_all add: w_entry_def n_def)
  show "k = k'"
    using wsum_two [OF rs(1) rs'(1), of "w_entry n"] w le by fastforce
  then have "rs = rs'" using rs(1) rs'(1) assms(1) by (auto simp: prefix_inv_def gm_wf_def dest: eq_key_imp_eq_value)
  have "wsum ?w rs \<le> 1" using wsum_one [OF rs(1), of "w_entry n"] le by (simp add: w_entry_def)
  then show "r = r'"
    using wsum_two [OF rs(2) rs'(2) [folded \<open>rs = rs'\<close>], of ?w] assms(4) by (fastforce simp: n_def)
qed

lemma held_id_bound:
  assumes "prefix_inv i" and "held i k r = Some e"
  shows "re_id e < nextEntry i"
proof -
  obtain rs where rs: "(k, rs) \<in> set (prefixes i)" "(r, e) \<in> set rs"
    using assms(2) by (auto simp: gm_map_def split: option.splits dest!: map_of_SomeD)
  have "1 \<le> w_entry (re_id e) k rs"
    using wsum_one [OF rs(2), of "\<lambda>(r :: string) x. of_bool (re_id x = re_id e)"] by (simp add: w_entry_def)
  also have "\<dots> \<le> wsum (w_entry (re_id e)) (prefixes i)" by (rule wsum_one [OF rs(1)])
  also have "\<dots> \<le> of_bool (re_id e < nextEntry i)" using assms(1) unfolding prefix_inv_def by blast
  finally show ?thesis by (cases "re_id e < nextEntry i") simp_all
qed

subsection \<open>Later states\<close>

inductive later :: "Index \<Rightarrow> Index \<Rightarrow> bool" where
  same: "later i i"
| more: "later i j \<Longrightarrow> index_step j k \<Longrightarrow> later i k"

lemma later_spec:
  assumes "later i j" and "reachable i"
  shows "reachable j \<and> keepsIds i j"
  using assms
proof (induction rule: later.induct)
  case (more i j k)
  then have "reachable j" "keepsIds i j" by simp_all
  moreover have "keepsIds j k" using more.hyps(2) reachable_idx_inv [OF \<open>reachable j\<close>] by (rule keepsIds_step [rotated])
  ultimately show ?case using more.hyps(2) by (blast intro: reachable.step keepsIds_trans)
qed simp

end
