(* ===== verification/Index_Properties.thy ===== *)
theory Index_Properties
  imports Examples Index_Spec Snapshots Identity
begin

text \<open>
  The theorems about the index alone: its refinement of the abstract store, writing, removal,
  eviction, lookup, ranking, affinity and the snapshot. Each is followed by an instance at a
  concrete state.
\<close>

subsection \<open>Refinement and writing\<close>



text \<open>
  C5. An update that fits under the quota and the cap is stored exactly: each key it mentions holds, for
  its replica, the token count and tier of the last mention, the time of the update and the hit
  count it already had; every other entry is unchanged.
\<close>

theorem ingest_stores_exactly:
  assumes "reachable i" and "fits i now u"
  shows "map_option entryView (held (Ingest i now u) k r) =
    (case if r = u_ReplicaID u then map_of (rev (ingestOps u)) k else None of
       None \<Rightarrow> map_option entryView (held i k r)
     | Some (c, t) \<Rightarrow> Some (c, ingestTime now u, t, hitCount (held i k r)))"
proof -
  have "map_option entryView (held (Ingest i now u) k r) = storeOf (ingestStored i now u) k r"
    by (simp add: storeOf_def held_Ingest_fits [OF reachable_idx_inv [OF assms(1)] assms(2)])
  then show ?thesis
    by (simp add: storeOf_stored specPut_def viewHits_storeOf split: option.split)
      (simp add: storeOf_def)
qed

theorem ingest_stores_exactly_witness:
  "map_option entryView (held exIndex (exKey ''b'') ''r'') = Some (20, 5, TierT1, 0) \<and>
   map_option entryView (held exIndex (exKey ''c'') ''r'') = None"
proof -
  let ?u = "exUpdate ''t'' ''r'' [exRef ''a'' 10, exRef ''b'' 20]"
  have "fits exStart 5 ?u" by code_simp
  note f = ingest_stores_exactly [OF reachable_exStart this, folded exIndex_def, of _ "''r''"]
  have "map_of (rev (ingestOps ?u)) (exKey ''b'') = Some (20, TierT1)" "map_of (rev (ingestOps ?u)) (exKey ''c'') = None"
    "u_ReplicaID ?u = ''r''" "ingestTime 5 ?u = 5"
    "held exStart (exKey ''b'') ''r'' = None" "held exStart (exKey ''c'') ''r'' = None" by code_simp+
  then show ?thesis using f [of "exKey ''b''"] f [of "exKey ''c''"] by (simp add: hitCount_def)
qed



subsection \<open>Eviction\<close>

lemma cap_victim_ref:
  assumes "prefix_inv i" and "held i k r = Some e" and "held (fst (enforceCapLocked i)) k r = None"
  shows "capRefOf i (k, r, e) \<in> set (capVictims i)"
proof -
  have "(k, r) \<in> capIdent ` set (capVictims i)" using held_cap [OF assms(1), of k r] assms(2,3) by (auto split: if_splits)
  then obtain v where v: "v \<in> set (capVictims i)" "capIdent v = (k, r)" by auto
  then have "v \<in> set (capRefs i)" using capVictims_sub by blast
  then obtain e' where "v = capRefOf i (k, r, e')" "(k, r, e') \<in> set (entriesOf i)"
    using v(2) by (auto simp: capRefs_eq capIdent_capRefOf)
  then show ?thesis using v(1) set_entriesOf [OF assms(1)] assms(2) by auto
qed

lemma cap_kept_ref:
  assumes "prefix_inv i" and "held i k r = Some e" and "held (fst (enforceCapLocked i)) k r \<noteq> None"
    and "\<not> isReservedTenant i (pk_tenant k)"
  shows "capRefOf i (k, r, e) \<in> set (capRefs i) - set (capVictims i)"
proof -
  have "(k, r, e) \<in> set (entriesOf i)" using set_entriesOf [OF assms(1)] assms(2) by blast
  then have "capRefOf i (k, r, e) \<in> set (capRefs i)" using assms(4) by (auto simp: capRefs_eq)
  moreover have "(k, r) \<notin> capIdent ` set (capVictims i)" using held_cap [OF assms(1), of k r] assms(3) by (auto split: if_splits)
  ultimately show ?thesis using capIdent_capRefOf [of i "(k, r, e)"] by (force simp: image_iff)
qed

text \<open>
  C7. The cap removes exactly the excess, and removes first what its order puts first: an entry that
  went ranks no higher (hit count for an LFU tenant, then age, then key) than any unreserved
  entry that stayed.
\<close>

theorem cap_evicts_lowest_ranked:
  assumes "idx_inv i" and "0 < maxEntries i"
  defines "j \<equiv> fst (enforceCapLocked i)"
  shows "totalEntries j - reservedEntries j = min (maxEntries i) (totalEntries i - reservedEntries i) \<and>
    (held i k r = Some e \<and> held j k r = None \<and> held i k' r' = Some e' \<and> held j k' r' \<noteq> None \<and>
      \<not> isReservedTenant i (pk_tenant k') \<longrightarrow> capRank (capRefOf i (k, r, e)) \<le> capRank (capRefOf i (k', r', e')))"
proof -
  have inv: "prefix_inv i" using assms(1) by (simp add: idx_inv_def)
  show ?thesis
    using enforceCap_exact [OF inv assms(2)] cap_victim_ref [OF inv] cap_kept_ref [OF inv, of k' r' e'] capVictims_first
    unfolding j_def by blast
qed

definition exFull :: Index where
  "exFull = ingestStored exIndex 6 (exUpdate ''u'' ''q'' [exRef ''c'' 10])"

lemma idx_inv_exFull: "idx_inv exFull"
  unfolding exFull_def by (rule idx_inv_stored [OF reachable_idx_inv [OF reachable_exIndex]])

theorem cap_evicts_lowest_ranked_witness:
  "held (fst (enforceCapLocked exFull)) (exKey ''a'') ''r'' = None \<and>
   capRank (capRefOf exFull (exKey ''a'', ''r'', the (held exFull (exKey ''a'') ''r''))) \<le>
   capRank (capRefOf exFull (exKey ''b'', ''r'', the (held exFull (exKey ''b'') ''r'')))"
proof -
  have "0 < maxEntries exFull" by code_simp
  note t = cap_evicts_lowest_ranked [OF idx_inv_exFull this]
  have "held exFull (exKey ''a'') ''r'' = Some (the (held exFull (exKey ''a'') ''r''))"
    "held exFull (exKey ''b'') ''r'' = Some (the (held exFull (exKey ''b'') ''r''))"
    "held (fst (enforceCapLocked exFull)) (exKey ''a'') ''r'' = None"
    "held (fst (enforceCapLocked exFull)) (exKey ''b'') ''r'' \<noteq> None"
    "\<not> isReservedTenant exFull (pk_tenant (exKey ''b''))" by code_simp+
  then show ?thesis using t [THEN conjunct2, rule_format] by blast
qed

text \<open>
  C8. The choice of the cap does not depend on the order in which the maps are walked: two states with
  the same entries and configuration lose the same entries and report the same counts.
\<close>

theorem cap_ignores_map_order:
  assumes "idx_inv i" and "idx_inv j" and "same_entries i j"
  shows "held (fst (enforceCapLocked i)) k r = held (fst (enforceCapLocked j)) k r \<and>
    snd (enforceCapLocked i) = snd (enforceCapLocked j)"
proof -
  have inv: "prefix_inv i" "prefix_inv j" using assms(1,2) by (simp_all add: idx_inv_def)
  show ?thesis
    using capVictims_perm [OF inv assms(3)] assms(3)
    by (simp add: enforceCap_eq inv held_dropAll same_entries_def)
qed

text \<open>Two states with the same two entries, whose maps list them in opposite orders.\<close>

definition exOrder :: "string \<Rightarrow> Index" where
  "exOrder h =
     removeReplicaLocked
       (fold (\<lambda>(g, r) i. upsertReplicaLocked i (exKey g) r 10 TierT1 5) [(h, ''x''), (''a'', ''r''), (''b'', ''r'')]
         (New [WithMaxEntries 1]))
       (exKey h) ''x''"

lemma idx_inv_exOrder: "idx_inv (exOrder h)"
  unfolding exOrder_def
  by (simp add: idx_inv_remove idx_inv_upsert blank_inv [OF blank_New] isOption.intros)

theorem cap_ignores_map_order_witness:
  "map fst (prefixes (exOrder ''a'')) \<noteq> map fst (prefixes (exOrder ''b'')) \<and>
   held (fst (enforceCapLocked (exOrder ''a''))) (exKey ''a'') ''r'' =
   held (fst (enforceCapLocked (exOrder ''b''))) (exKey ''a'') ''r''"
proof -
  have keys: "map fst (prefixes (exOrder ''a'')) = [exKey ''a'', exKey ''b'']"
    "map fst (prefixes (exOrder ''b'')) = [exKey ''b'', exKey ''a'']" by code_simp+
  have both: "list_all (\<lambda>k. gm_map (prefixes (exOrder ''a'')) k = gm_map (prefixes (exOrder ''b'')) k)
      [exKey ''a'', exKey ''b'']" by code_simp
  have none: "gm_map (prefixes (exOrder h)) k = []" if "k \<notin> set (map fst (prefixes (exOrder h)))" for h k
  proof -
    have "map_of (prefixes (exOrder h)) k = None" using that by (simp add: map_of_eq_None_iff)
    then show ?thesis by (simp add: gm_map_def)
  qed
  have "gm_map (prefixes (exOrder ''a'')) k = gm_map (prefixes (exOrder ''b'')) k" for k
  proof (cases "k \<in> {exKey ''a'', exKey ''b''}")
    case True
    then show ?thesis using both by auto
  next
    case False
    then have "k \<notin> set (map fst (prefixes (exOrder ''a'')))" "k \<notin> set (map fst (prefixes (exOrder ''b'')))"
      unfolding keys by auto
    then show ?thesis using none by metis
  qed
  moreover have "maxEntries (exOrder ''a'') = maxEntries (exOrder ''b'')"
    "reservedTenants (exOrder ''a'') = reservedTenants (exOrder ''b'')"
    "evictionResolver (exOrder ''a'') = None" "evictionResolver (exOrder ''b'') = None" by code_simp+
  ultimately have "same_entries (exOrder ''a'') (exOrder ''b'')" by (simp add: same_entries_def)
  then show ?thesis
    using cap_ignores_map_order [OF idx_inv_exOrder idx_inv_exOrder, of "''a''" "''b''" "exKey ''a''" "''r''"] keys
    by (simp add: exKey_def)
qed

text \<open>
  C9. The quota removes whole prefixes of the tenant, exactly as many as exceed it, those least
  recently seen by any replica first; it leaves every other tenant alone.
\<close>

theorem quota_evicts_oldest:
  fixes i :: Index and t :: string and m :: int
  assumes "idx_inv i" and "0 \<le> m"
  defines "j \<equiv> fst (evictOldestForTenantLocked i t m)"
  shows "gm_int (prefixesByTenant j) t = min m (gm_int (prefixesByTenant i) t) \<and>
    (pk_tenant k \<noteq> t \<longrightarrow> held j k r = held i k r) \<and>
    (pk_tenant k = t \<and> k \<in> keysHeld i - keysHeld j \<and> pk_tenant k' = t \<and> k' \<in> keysHeld j \<longrightarrow>
      newestSeen (gm_map (prefixes i) k) \<le> newestSeen (gm_map (prefixes i) k'))"
proof -
  have inv: "prefix_inv i" using assms(1) by (simp add: idx_inv_def)
  have ref: "\<lparr>qr_key = k, qr_age = newestSeen (gm_map (prefixes i) k)\<rparr> \<in> set (quotaRefs i t)"
    if h: "k \<in> keysHeld i" "pk_tenant k = t" for k
  proof -
    obtain rs where "map_of (prefixes i) k = Some rs" using h(1) by (auto simp: keysHeld_def gm_map_def split: option.splits)
    then show ?thesis using h(2) by (force simp: quotaRefs_eq gm_map_def dest: map_of_SomeD)
  qed
  have held_j: "held j k r = (if k \<in> qr_key ` set (quotaVictims i t m) then None else held i k r)" for k r
    by (simp add: j_def evictOldest_eq [OF inv] held_dropKeys)
  have "newestSeen (gm_map (prefixes i) k) \<le> newestSeen (gm_map (prefixes i) k')"
    if k: "pk_tenant k = t" "k \<in> keysHeld i - keysHeld j" and k': "pk_tenant k' = t" "k' \<in> keysHeld j"
  proof -
    have "k \<in> qr_key ` set (quotaVictims i t m)" using k(2) held_j by (auto simp: keysHeld_def split: if_splits)
    then obtain v where v: "v \<in> set (quotaVictims i t m)" "qr_key v = k" by auto
    have "v = \<lparr>qr_key = k, qr_age = newestSeen (gm_map (prefixes i) k)\<rparr>"
      using quotaVictims_sub v ref [of k] k distinct_quotaRefs [OF inv, of t]
      by (metis (no_types, lifting) DiffD1 distinct_map inj_onD quotaRef.select_convs(1) subsetD)
    moreover have k'_in: "k' \<in> keysHeld i" "k' \<notin> qr_key ` set (quotaVictims i t m)"
      using k'(2) held_j by (auto simp: keysHeld_def split: if_splits)
    moreover have "\<lparr>qr_key = k', qr_age = newestSeen (gm_map (prefixes i) k')\<rparr> \<notin> set (quotaVictims i t m)"
      using k'_in(2) by force
    ultimately show ?thesis using quotaVictims_oldest [OF v(1) ref [OF k'_in(1) k'(1)]]
      by (auto simp: quotaRank_def less_eq_prod_def)
  qed
  then show ?thesis
    using quota_bound [OF inv assms(2)] held_evictOldest_other [OF inv] by (auto simp: j_def)
qed

definition exQuota :: Index where
  "exQuota = ingestStored exIndex 6 (exUpdate ''t'' ''q'' [exRef ''b'' 20, exRef ''c'' 30])"

theorem quota_evicts_oldest_witness:
  "held (fst (evictOldestForTenantLocked exQuota ''t'' 2)) (exKey ''a'') ''r'' = None \<and>
   newestSeen (gm_map (prefixes exQuota) (exKey ''a'')) \<le> newestSeen (gm_map (prefixes exQuota) (exKey ''b''))"
proof -
  let ?j = "fst (evictOldestForTenantLocked exQuota ''t'' 2)"
  have inv: "idx_inv exQuota"
    unfolding exQuota_def by (rule idx_inv_stored [OF reachable_idx_inv [OF reachable_exIndex]])
  have gone: "gm_map (prefixes ?j) (exKey ''a'') = []"
    and "held exQuota (exKey ''a'') ''r'' \<noteq> None" "held ?j (exKey ''b'') ''r'' \<noteq> None" by code_simp+
  then have "exKey ''a'' \<in> keysHeld exQuota - keysHeld ?j" "exKey ''b'' \<in> keysHeld ?j"
    by (auto simp: keysHeld_def)
  moreover have "pk_tenant (exKey h) = ''t''" for h by (simp add: exKey_def)
  ultimately show ?thesis
    using quota_evicts_oldest [OF inv, of 2 "''t''" "exKey ''a''" "''r''" "exKey ''b''"] gone by simp
qed

text \<open>
  C10. The sweep removes exactly what has expired under its tenant's TTL, prefix entries and replica
  statistics alike, and changes nothing it keeps.
\<close>

theorem sweep_removes_exactly_expired:
  assumes "reachable i"
  shows "held (evictExpired i now) k r =
      (case held i k r of None \<Rightarrow> None
       | Some e \<Rightarrow> if expired i now (pk_tenant k) (re_lastSeen e) then None else Some e) \<and>
    map_of (stats (evictExpired i now)) sk =
      (case map_of (stats i) sk of None \<Rightarrow> None
       | Some s \<Rightarrow> if expired i now (sk_tenant sk) (se_lastSeen s) then None else Some s)"
  using evictExpired_spec(2,3) [OF reachable_idx_inv [OF assms]] by blast

theorem sweep_removes_exactly_expired_witness:
  "held (evictExpired exIndex (10 ^ 15)) (exKey ''a'') ''r'' = None \<and>
   held (evictExpired exIndex 6) (exKey ''a'') ''r'' = held exIndex (exKey ''a'') ''r''"
proof -
  have "expired exIndex (10 ^ 15) t 5" "\<not> expired exIndex 6 t 5" for t
    by (simp_all add: expired_def ttlFor_def exIndex_config time_sub_def minDuration_def maxDuration_def)
  then show ?thesis
    using sweep_removes_exactly_expired [OF reachable_exIndex, of "10 ^ 15" "exKey ''a''" "''r''"]
      sweep_removes_exactly_expired [OF reachable_exIndex, of 6 "exKey ''a''" "''r''"]
    by (simp add: exIndex_held exEntry_def)
qed

text \<open>
  C11. An event removes exactly the entries it names and no others: an eviction those of its replica,
  tenant, model and hash (in its adapter partition, or in all of them when the event names none), a clear
  those of its replica, tenant and model; the other events remove nothing.
\<close>

theorem events_remove_exactly:
  assumes "reachable i"
  shows "held (ApplyEvent i now ev) k r =
    (if r = ev_ReplicaID ev \<and> pk_tenant k = ev_Tenant ev \<and> pk_model k = ev_Model ev \<and>
        (ev_Type ev = EventAllCleared \<or>
         ev_Type ev = EventPrefixEvicted \<and> pk_prefixHash k = ev_PrefixHash ev \<and>
         (ev_Adapter ev = '''' \<or> pk_adapter k = ev_Adapter ev))
     then None else held i k r)"
  using held_ApplyEvent [OF reachable_prefix_inv [OF assms]]
  by (cases "ev_Type ev") (auto simp: evictMatch_def clearMatch_def)

definition exEvict :: "string \<Rightarrow> Event" where
  "exEvict h = \<lparr>ev_Type = EventPrefixEvicted, ev_ReplicaID = ''r'', ev_Model = ''m'', ev_Tenant = ''t'',
                ev_PrefixHash = h, ev_Adapter = '''', ev_Timestamp = 6\<rparr>"

theorem events_remove_exactly_witness:
  "held (ApplyEvent exIndex 6 (exEvict ''a'')) (exKey ''a'') ''r'' = None \<and>
   held (ApplyEvent exIndex 6 (exEvict ''a'')) (exKey ''b'') ''r'' = held exIndex (exKey ''b'') ''r''"
  using events_remove_exactly [OF reachable_exIndex, of 6 "exEvict ''a''"] by (simp add: exEvict_def exKey_def)

text \<open>
  C12. Reserved tenants are isolated from the traffic of the others: an update of a different tenant
  changes no entry of a reserved tenant, however full the index is.
\<close>

theorem reserved_tenants_isolated:
  assumes "reachable i" and "isReservedTenant i (pk_tenant k)" and "pk_tenant k \<noteq> u_Tenant u"
  shows "held (Ingest i now u) k r = held i k r"
  by (rule Ingest_reserved [OF reachable_idx_inv [OF assms(1)] assms(2,3)])

theorem reserved_tenants_isolated_witness:
  "held (Ingest (Ingest exIndex 6 (exUpdate ''p'' ''q'' [exRef ''z'' 1])) 7
      (exUpdate ''u'' ''q'' [exRef ''c'' 10, exRef ''d'' 10, exRef ''e'' 10])) (PrefixKey ''p'' ''m'' ''s'' '''' ''z'') ''q''
   = held (Ingest exIndex 6 (exUpdate ''p'' ''q'' [exRef ''z'' 1])) (PrefixKey ''p'' ''m'' ''s'' '''' ''z'') ''q''"
proof -
  let ?i = "Ingest exIndex 6 (exUpdate ''p'' ''q'' [exRef ''z'' 1])"
  have "reachable ?i" by (rule reachable.step [OF reachable_exIndex index_step.ingest])
  moreover have "isReservedTenant ?i (pk_tenant (PrefixKey ''p'' ''m'' ''s'' '''' ''z''))" by code_simp
  ultimately show ?thesis
    by (rule reserved_tenants_isolated) (simp add: exUpdate_def)
qed

end
