(* ===== verification/Policy.thy ===== *)
theory Policy
  imports Index_Machine
begin

text \<open>
  \<open>internal/controlplaneapi/policy.go\<close> and \<open>internal/server/policy.go\<close>: the resolved policies
  and tenant quotas the controller pushes, the store that holds them, its resolvers (which the
  index and the lookup handler call), and the \<open>/policy\<close> handler with its version gate and the
  normalisation of older bodies. Decoding the JSON body is the standard library's: the handler
  takes the decoder's outcome. The write lock makes a replacement one step.
\<close>

subsection \<open>The wire types\<close>

definition PolicyPropagationVersion :: int where "PolicyPropagationVersion = 7"
definition PolicyMinimumAcceptedVersion :: int where "PolicyMinimumAcceptedVersion = 3"
definition DefaultMinimumMatchedTokens :: int where "DefaultMinimumMatchedTokens = 64"
definition DefaultRoutingFloorScore :: flt where "DefaultRoutingFloorScore = rnd binary32 (1 / 10)"
definition DefaultEnableChainMatching :: bool where "DefaultEnableChainMatching = True"
definition DefaultRequireChain :: bool where "DefaultRequireChain = False"
definition DefaultEnableTenantHot :: bool where "DefaultEnableTenantHot = True"
definition DefaultAffinityRoutingEnabled :: bool where "DefaultAffinityRoutingEnabled = True"
definition ProbeTenantID :: string where "ProbeTenantID = ''inferencecache.io/probe''"

record ResolvedLookupStrategy =
  ls_EnableChainMatching :: "bool option"
  ls_RequireChain :: "bool option"
  ls_EnableTenantHot :: "bool option"

record ResolvedPolicy =
  rp_Namespace :: string
  rp_EvictionTTL :: duration
  rp_MinimumPrefixTokens :: int
  rp_MinimumMatchedTokens :: int
  rp_RoutingFloorScore :: "flt option"
  rp_LookupTimeoutMs :: int
  rp_AffinityRouting :: "bool option"
  rp_Eviction :: string
  rp_Strategy :: "ResolvedLookupStrategy option"

record ResolvedTenant =
  rt_TenantID :: string
  rt_MaxIndexEntries :: int
  rt_IsolationMode :: string

record PolicySnapshot =
  ps_Version :: int
  ps_Policies :: "ResolvedPolicy list"
  ps_Tenants :: "ResolvedTenant list"

subsection \<open>The store\<close>

record PolicyStore =
  policies :: "(string, ResolvedPolicy) gomap"
  tenants :: "(string, ResolvedTenant) gomap"

definition NewPolicyStore :: PolicyStore where
  "NewPolicyStore = \<lparr>policies = [], tenants = []\<rparr>"

definition ReplaceSnapshot :: "ResolvedPolicy list \<Rightarrow> ResolvedTenant list \<Rightarrow> PolicyStore \<Rightarrow> PolicyStore" where
  "ReplaceSnapshot ps ts s =
     s\<lparr>policies :=
         fold (\<lambda>p m. if rp_Namespace p = '''' then m else AList.update (rp_Namespace p) p m) ps [],
       tenants :=
         fold (\<lambda>t m.
           if rt_TenantID t = '''' then m
           else
             (let t = (if rt_MaxIndexEntries t < 0 then t\<lparr>rt_MaxIndexEntries := 0\<rparr> else t)
              in AList.update (rt_TenantID t) t m)) ts []\<rparr>"

definition Replace :: "ResolvedPolicy list \<Rightarrow> PolicyStore \<Rightarrow> PolicyStore" where
  "Replace ps s = ReplaceSnapshot ps [] s"

definition policyLookup :: "PolicyStore \<Rightarrow> string \<Rightarrow> ResolvedPolicy option" where
  "policyLookup s namespace = map_of (policies s) namespace"

definition policySnapshot :: "PolicyStore \<Rightarrow> ResolvedPolicy list" where
  "policySnapshot s = sort_slice (\<lambda>a b. rp_Namespace a < rp_Namespace b) (map snd (policies s))"

definition TenantQuotas :: "PolicyStore \<Rightarrow> ResolvedTenant list" where
  "TenantQuotas s = sort_slice (\<lambda>a b. rt_TenantID a < rt_TenantID b) (map snd (tenants s))"

subsection \<open>The resolvers\<close>

definition policyTTL :: "PolicyStore \<Rightarrow> string \<Rightarrow> duration" where
  "policyTTL s tenant = (case policyLookup s tenant of None \<Rightarrow> 0 | Some p \<Rightarrow> rp_EvictionTTL p)"

definition policyEviction :: "PolicyStore \<Rightarrow> string \<Rightarrow> string" where
  "policyEviction s tenant = (case policyLookup s tenant of None \<Rightarrow> '''' | Some p \<Rightarrow> rp_Eviction p)"

definition MinimumPrefixTokens :: "PolicyStore \<Rightarrow> string \<Rightarrow> int" where
  "MinimumPrefixTokens s tenant =
     (case policyLookup s tenant of None \<Rightarrow> 0 | Some p \<Rightarrow> rp_MinimumPrefixTokens p)"

definition MinimumMatchedTokens :: "PolicyStore \<Rightarrow> string \<Rightarrow> int" where
  "MinimumMatchedTokens s tenant =
     (case policyLookup s tenant of
        None \<Rightarrow> DefaultMinimumMatchedTokens
      | Some p \<Rightarrow> if rp_MinimumMatchedTokens p < 0 then 0 else rp_MinimumMatchedTokens p)"

definition RoutingFloorScore :: "PolicyStore \<Rightarrow> string \<Rightarrow> flt" where
  "RoutingFloorScore s tenant =
     (case policyLookup s tenant of
        None \<Rightarrow> DefaultRoutingFloorScore
      | Some p \<Rightarrow>
          (case rp_RoutingFloorScore p of
             None \<Rightarrow> DefaultRoutingFloorScore
           | Some v \<Rightarrow> if flt_lt v (Fin 0) then Fin 0 else v))"

definition AffinityRoutingEnabled :: "PolicyStore \<Rightarrow> string \<Rightarrow> bool" where
  "AffinityRoutingEnabled s namespace =
     (case policyLookup s namespace of
        None \<Rightarrow> DefaultAffinityRoutingEnabled
      | Some p \<Rightarrow>
          (case rp_AffinityRouting p of None \<Rightarrow> DefaultAffinityRoutingEnabled | Some v \<Rightarrow> v))"

text \<open>\<open>time.Duration(p.LookupTimeoutMs) * time.Millisecond\<close>: an \<open>int32\<close> times \<open>10^6\<close> fits an \<open>int64\<close>.\<close>

definition LookupTimeout :: "PolicyStore \<Rightarrow> string \<Rightarrow> duration" where
  "LookupTimeout s tenant =
     (case policyLookup s tenant of
        None \<Rightarrow> 0
      | Some p \<Rightarrow> if 0 < rp_LookupTimeoutMs p then wrap64 (rp_LookupTimeoutMs p * 10 ^ 6) else 0)"

definition strategyField ::
  "PolicyStore \<Rightarrow> string \<Rightarrow> (ResolvedLookupStrategy \<Rightarrow> bool option) \<Rightarrow> bool \<Rightarrow> bool" where
  "strategyField s tenant f d =
     (case policyLookup s tenant of
        None \<Rightarrow> d
      | Some p \<Rightarrow>
          (case rp_Strategy p of
             None \<Rightarrow> d
           | Some st \<Rightarrow> (case f st of None \<Rightarrow> d | Some v \<Rightarrow> v)))"

definition ChainMatchingEnabled :: "PolicyStore \<Rightarrow> string \<Rightarrow> bool" where
  "ChainMatchingEnabled s tenant = strategyField s tenant ls_EnableChainMatching DefaultEnableChainMatching"

definition ChainRequired :: "PolicyStore \<Rightarrow> string \<Rightarrow> bool" where
  "ChainRequired s tenant = strategyField s tenant ls_RequireChain DefaultRequireChain"

definition TenantHotEnabled :: "PolicyStore \<Rightarrow> string \<Rightarrow> bool" where
  "TenantHotEnabled s tenant = strategyField s tenant ls_EnableTenantHot DefaultEnableTenantHot"

definition TenantQuota :: "PolicyStore \<Rightarrow> string \<Rightarrow> int option" where
  "TenantQuota s tenant =
     (if tenant = ProbeTenantID then None else map_option rt_MaxIndexEntries (map_of (tenants s) tenant))"

subsection \<open>The handler\<close>

definition applyResolvedLookupStrategyDefaults :: "ResolvedPolicy \<Rightarrow> ResolvedPolicy" where
  "applyResolvedLookupStrategyDefaults p =
     (let st = (case rp_Strategy p of
                  None \<Rightarrow> \<lparr>ls_EnableChainMatching = None, ls_RequireChain = None, ls_EnableTenantHot = None\<rparr>
                | Some st \<Rightarrow> st);
          st = (if ls_EnableChainMatching st = None
                then st\<lparr>ls_EnableChainMatching := Some DefaultEnableChainMatching\<rparr> else st);
          st = (if ls_RequireChain st = None then st\<lparr>ls_RequireChain := Some DefaultRequireChain\<rparr> else st);
          st = (if ls_EnableTenantHot st = None
                then st\<lparr>ls_EnableTenantHot := Some DefaultEnableTenantHot\<rparr> else st)
      in p\<lparr>rp_Strategy := Some st\<rparr>)"

definition mapPolicies :: "(ResolvedPolicy \<Rightarrow> ResolvedPolicy) \<Rightarrow> PolicySnapshot \<Rightarrow> PolicySnapshot" where
  "mapPolicies f snap = snap\<lparr>ps_Policies := map f (ps_Policies snap)\<rparr>"

definition normalizePolicySnapshotForVersion :: "PolicySnapshot \<Rightarrow> PolicySnapshot" where
  "normalizePolicySnapshotForVersion snap =
     (let v = ps_Version snap
      in if PolicyPropagationVersion \<le> v then snap
         else
           (let snap =
                  (if v < 4
                   then mapPolicies (\<lambda>p. if rp_MinimumMatchedTokens p = 0
                          then p\<lparr>rp_MinimumMatchedTokens := DefaultMinimumMatchedTokens\<rparr> else p) snap
                   else snap);
                snap =
                  (if v < 5
                   then mapPolicies (\<lambda>p. if rp_RoutingFloorScore p = None
                          then p\<lparr>rp_RoutingFloorScore := Some DefaultRoutingFloorScore\<rparr> else p) snap
                   else snap);
                snap = (if v < 6 then mapPolicies applyResolvedLookupStrategyDefaults snap else snap)
            in if v < 7
               then mapPolicies (\<lambda>p. if rp_AffinityRouting p = None
                      then p\<lparr>rp_AffinityRouting := Some DefaultAffinityRoutingEnabled\<rparr> else p) snap
               else snap))"

datatype httpStatus = StatusNoContent | StatusBadRequest | StatusMethodNotAllowed

text \<open>\<open>decoded\<close> is what \<open>dec.Decode(&snap)\<close> yields: an error or the snapshot.\<close>

definition policyHandler :: "string \<Rightarrow> string + PolicySnapshot \<Rightarrow> PolicyStore \<Rightarrow> httpStatus \<times> PolicyStore" where
  "policyHandler meth decoded s =
     (if meth \<noteq> ''POST'' \<and> meth \<noteq> ''PUT'' then (StatusMethodNotAllowed, s)
      else
        (case decoded of
           Inl err \<Rightarrow> (StatusBadRequest, s)
         | Inr snap \<Rightarrow>
             (if ps_Version snap < PolicyMinimumAcceptedVersion \<or> PolicyPropagationVersion < ps_Version snap
              then (StatusBadRequest, s)
              else
                (let snap = normalizePolicySnapshotForVersion snap
                 in (StatusNoContent, ReplaceSnapshot (ps_Policies snap) (ps_Tenants snap) s)))))"

subsection \<open>What a replacement stores\<close>

text \<open>The last entry of a namespace wins; an entry with an empty key is dropped.\<close>

lemma find_append:
  "find Q (xs @ ys) = (case find Q xs of None \<Rightarrow> find Q ys | Some x \<Rightarrow> Some x)"
  by (induction xs) auto

lemma map_of_fold_last:
  "map_of (fold (\<lambda>p m. if g p = [] then m else AList.update (g p) (f p) m) ps acc) k =
     (if k = [] then map_of acc k
      else (case find (\<lambda>p. g p = k) (rev ps) of None \<Rightarrow> map_of acc k | Some p \<Rightarrow> Some (f p)))"
  by (induction ps arbitrary: acc) (auto simp: find_append update_conv' split: option.splits)

lemma gm_wf_fold_last:
  "gm_wf acc \<Longrightarrow> gm_wf (fold (\<lambda>p m. if g p = '''' then m else AList.update (g p) (f p) m) ps acc)"
  by (induction ps arbitrary: acc) auto

definition clampTenant :: "ResolvedTenant \<Rightarrow> ResolvedTenant" where
  "clampTenant t = (if rt_MaxIndexEntries t < 0 then t\<lparr>rt_MaxIndexEntries := 0\<rparr> else t)"

lemma clampTenant_simps [simp]:
  "rt_TenantID (clampTenant t) = rt_TenantID t"
  "rt_MaxIndexEntries (clampTenant t) = max 0 (rt_MaxIndexEntries t)"
  by (auto simp: clampTenant_def)

lemma ReplaceSnapshot_policies:
  "policyLookup (ReplaceSnapshot ps ts s) k = (if k = '''' then None else find (\<lambda>p. rp_Namespace p = k) (rev ps))"
  using map_of_fold_last [of rp_Namespace "\<lambda>p. p" ps "[]" k]
  by (auto simp: policyLookup_def ReplaceSnapshot_def split: option.splits)

lemma ReplaceSnapshot_tenants:
  "map_of (tenants (ReplaceSnapshot ps ts s)) k =
     (if k = '''' then None else map_option clampTenant (find (\<lambda>t. rt_TenantID t = k) (rev ts)))"
proof -
  have "tenants (ReplaceSnapshot ps ts s) =
      fold (\<lambda>t m. if rt_TenantID t = '''' then m else AList.update (rt_TenantID t) (clampTenant t) m) ts []"
    by (simp add: ReplaceSnapshot_def Let_def clampTenant_def)
      (rule arg_cong [where f = "\<lambda>g. fold g _ _"], auto simp: fun_eq_iff clampTenant_def)
  then show ?thesis
    using map_of_fold_last [of rt_TenantID clampTenant ts "[]" k] by (auto split: option.splits)
qed

lemma TenantQuota_replaced:
  "TenantQuota (ReplaceSnapshot ps ts s) t =
     (if t = ProbeTenantID \<or> t = '''' then None
      else map_option (\<lambda>t. max 0 (rt_MaxIndexEntries t)) (find (\<lambda>q. rt_TenantID q = t) (rev ts)))"
  by (auto simp: TenantQuota_def ReplaceSnapshot_tenants option.map_comp comp_def)

end
