(* ===== verification/Fingerprint.thy ===== *)
theory Fingerprint
  imports Sha256
begin

text \<open>
  \<open>pkg/fingerprint\<close>: the content-addressed prefix hashes of a token sequence. The hash
  \<open>xxh3.HashSeed\<close> is a third-party function and so a parameter: \<open>hash bytes seed\<close>.

  The lemmas: the loop is a roll over the full blocks; hashing a suffix from the hash of what
  precedes it continues the hashes of the whole sequence (what an ingest of partial events
  relies on); the hashes of a prefix are a prefix of the hashes; two sequences with the same
  hash at some depth have the same tokens up to there, or the hash collides on two of the byte
  strings the two computations fed to it.
\<close>

type_synonym token = "32 word"
type_synonym u64 = "64 word"
type_synonym hashSeed = "string \<Rightarrow> u64 \<Rightarrow> u64"

fun le_bytes :: "nat \<Rightarrow> int \<Rightarrow> string" where
  "le_bytes 0 n = []"
| "le_bytes (Suc k) n = char_of (n mod 256) # le_bytes k (n div 256)"

definition Seed :: u64 where "Seed = 1337"

definition ContentHash :: "hashSeed \<Rightarrow> token list \<Rightarrow> u64" where
  "ContentHash hash blockTokens = hash (concat (map (\<lambda>t. le_bytes 4 (uint t)) blockTokens)) Seed"

definition nextSeqHash :: "hashSeed \<Rightarrow> u64 \<Rightarrow> u64 \<Rightarrow> u64" where
  "nextSeqHash hash prev content = hash (le_bytes 8 (uint prev) @ le_bytes 8 (uint content)) Seed"

definition PrefixHashesFrom :: "hashSeed \<Rightarrow> token list \<Rightarrow> int \<Rightarrow> u64 \<Rightarrow> bool \<Rightarrow> u64 list" where
  "PrefixHashesFrom hash tokens blockSize parentPrefix hasParent =
     (if blockSize \<le> 0 then []
      else
        (let b = nat blockSize;
             nFull = length tokens div b
         in if nFull = 0 then []
            else
              fst (fold (\<lambda>i (out, prev, have).
                     (let ch = ContentHash hash (take b (drop (i * b) tokens));
                          ph = (if have then nextSeqHash hash prev ch else ch)
                      in (out @ [ph], ph, True)))
                   [0..<nFull] ([], parentPrefix, hasParent))))"

definition PrefixHashes :: "hashSeed \<Rightarrow> token list \<Rightarrow> int \<Rightarrow> u64 list" where
  "PrefixHashes hash tokens blockSize = PrefixHashesFrom hash tokens blockSize 0 False"

text \<open>\<open>Bytes\<close>: the big-endian key form of a hash.\<close>

definition hashBytes :: "u64 \<Rightarrow> string" where
  "hashBytes h = be_bytes 8 (uint h)"

definition Chain :: "hashSeed \<Rightarrow> token list \<Rightarrow> int \<Rightarrow> string list \<times> int list" where
  "Chain hash tokens blockSize =
     (let phs = PrefixHashes hash tokens blockSize
      in if length phs = 0 then ([], []) else (map hashBytes phs, map (\<lambda>_. wrap32 blockSize) phs))"

subsection \<open>The reference: a roll over the full blocks\<close>

definition tokenBlocks :: "nat \<Rightarrow> token list \<Rightarrow> token list list" where
  "tokenBlocks b tokens = map (\<lambda>i. take b (drop (i * b) tokens)) [0..<length tokens div b]"

definition rollStep :: "hashSeed \<Rightarrow> u64 option \<Rightarrow> token list \<Rightarrow> u64" where
  "rollStep hash p block =
     (case p of None \<Rightarrow> ContentHash hash block | Some q \<Rightarrow> nextSeqHash hash q (ContentHash hash block))"

fun rollHashes :: "hashSeed \<Rightarrow> u64 option \<Rightarrow> token list list \<Rightarrow> u64 list" where
  "rollHashes hash p [] = []"
| "rollHashes hash p (b # bs) = rollStep hash p b # rollHashes hash (Some (rollStep hash p b)) bs"

lemma rollHashes_fold:
  "fst (fold (\<lambda>i (out, prev, have).
          (let ch = ContentHash hash (f i);
               ph = (if have then nextSeqHash hash prev ch else ch)
           in (out @ [ph], ph, True))) is (out, p, h)) =
     out @ rollHashes hash (if h then Some p else None) (map f is)"
  by (induction "is" arbitrary: out p h) (auto simp: Let_def rollStep_def)

lemma PrefixHashesFrom_roll:
  "PrefixHashesFrom hash tokens bs p h =
     (if bs \<le> 0 then [] else rollHashes hash (if h then Some p else None) (tokenBlocks (nat bs) tokens))"
proof (cases "bs \<le> 0 \<or> length tokens div nat bs = 0")
  case True
  then show ?thesis by (auto simp: PrefixHashesFrom_def tokenBlocks_def)
next
  case False
  then show ?thesis
    using rollHashes_fold [of hash "\<lambda>i. take (nat bs) (drop (i * nat bs) tokens)"
        "[0..<length tokens div nat bs]" "[]" p h]
    by (simp add: PrefixHashesFrom_def tokenBlocks_def Let_def)
qed

lemma length_tokenBlocks [simp]: "length (tokenBlocks b tokens) = length tokens div b"
  by (simp add: tokenBlocks_def)

lemma length_rollHashes [simp]: "length (rollHashes hash p bs) = length bs"
  by (induction bs arbitrary: p) auto

lemma rollHashes_Nil_iff [simp]: "rollHashes hash p bs = [] \<longleftrightarrow> bs = []"
  by (simp flip: length_0_conv)

lemma rollHashes_append:
  "rollHashes hash p (xs @ ys) =
     rollHashes hash p xs @ rollHashes hash (if xs = [] then p else Some (last (rollHashes hash p xs))) ys"
  by (induction xs arbitrary: p) auto

lemma tokenBlocks_append:
  assumes "b dvd length xs" and "0 < b"
  shows "tokenBlocks b (xs @ ys) = tokenBlocks b xs @ tokenBlocks b ys"
proof (rule nth_equalityI)
  obtain k where k: "length xs = b * k" using assms(1) by (auto elim: dvdE)
  show "length (tokenBlocks b (xs @ ys)) = length (tokenBlocks b xs @ tokenBlocks b ys)"
    using assms(2) k by (simp add: div_add)
  fix i assume "i < length (tokenBlocks b (xs @ ys))"
  then have i: "i < k + length ys div b" using assms(2) k by (simp add: div_add)
  show "tokenBlocks b (xs @ ys) ! i = (tokenBlocks b xs @ tokenBlocks b ys) ! i"
  proof (cases "i < k")
    case True
    then have "Suc i * b \<le> k * b" by (intro mult_le_mono1) simp
    then have le: "b + i * b \<le> length xs" by (simp add: k mult.commute)
    show ?thesis using True i assms(2) le by (simp add: tokenBlocks_def nth_append k div_add)
  next
    case False
    have "i * b - length xs = (i - k) * b" unfolding k diff_mult_distrib by (simp add: mult.commute)
    moreover have "length xs \<le> i * b" using False by (simp add: k mult.commute)
    ultimately show ?thesis using False i assms(2)
      by (simp add: tokenBlocks_def nth_append k div_add)
  qed
qed

lemma tokenBlocks_take: "0 < b \<Longrightarrow> tokenBlocks b (take (k * b) tokens) = take k (tokenBlocks b tokens)"
proof -
  assume b: "0 < b"
  show ?thesis
  proof (cases "k * b \<le> length tokens")
    case True
    have "tokenBlocks b tokens = tokenBlocks b (take (k * b) tokens @ drop (k * b) tokens)" by simp
    also have "\<dots> = tokenBlocks b (take (k * b) tokens) @ tokenBlocks b (drop (k * b) tokens)"
      by (rule tokenBlocks_append) (use True b in \<open>simp_all add: min_absorb2\<close>)
    finally show ?thesis using True b by (simp add: min_absorb2)
  next
    case False
    then have "length tokens < k * b" by simp
    then have "length tokens div b < k" using b by (simp add: div_less_iff_less_mult)
    with False show ?thesis by simp
  qed
qed

lemma take_rollHashes: "take k (rollHashes hash p bs) = rollHashes hash p (take k bs)"
proof (induction bs arbitrary: k p)
  case (Cons b bs)
  then show ?case by (cases k) auto
qed simp

subsection \<open>Encodings are injective\<close>

lemma length_le_bytes [simp]: "length (le_bytes k n) = k"
  by (induction k arbitrary: n) auto

lemma char_of_inj: "0 \<le> m \<Longrightarrow> m < 256 \<Longrightarrow> 0 \<le> n \<Longrightarrow> n < 256 \<Longrightarrow> char_of m = char_of (n :: int) \<Longrightarrow> m = n"
  by (metis of_char_of mod_pos_pos_trivial)

lemma le_bytes_inj:
  "0 \<le> m \<Longrightarrow> m < 256 ^ k \<Longrightarrow> 0 \<le> n \<Longrightarrow> n < 256 ^ k \<Longrightarrow> le_bytes k m = le_bytes k n \<Longrightarrow> m = n"
proof (induction k arbitrary: m n)
  case (Suc k)
  have "m mod 256 = n mod 256" by (rule char_of_inj) (use Suc.prems(5) in auto)
  moreover have "m div 256 = n div 256"
    by (rule Suc.IH) (use Suc.prems in \<open>auto simp: div_int_pos_iff int_div_less_self\<close>)
  ultimately show ?case by (metis div_mult_mod_eq)
qed simp

lemma be_bytes_inj:
  "0 \<le> m \<Longrightarrow> m < 256 ^ k \<Longrightarrow> 0 \<le> n \<Longrightarrow> n < 256 ^ k \<Longrightarrow> be_bytes k m = be_bytes k n \<Longrightarrow> m = n"
proof -
  have val: "be_val (be_bytes k n) = n mod 256 ^ k" for n
  proof (induction k)
    case (Suc k)
    have "n mod (256 ^ k * 256) = 256 ^ k * (n div 256 ^ k mod 256) + n mod 256 ^ k"
      by (rule zmod_zmult2_eq) simp
    then show ?case using Suc by (simp add: byte_val_def mult.commute)
  qed simp
  assume m: "0 \<le> m" "m < 256 ^ k" and n: "0 \<le> n" "n < 256 ^ k" and eq: "be_bytes k m = be_bytes k n"
  have "m = be_val (be_bytes k m)" unfolding val by (rule mod_pos_pos_trivial [OF m, symmetric])
  also have "\<dots> = be_val (be_bytes k n)" unfolding eq ..
  also have "\<dots> = n" unfolding val by (rule mod_pos_pos_trivial [OF n])
  finally show "m = n" .
qed

lemma uint_u64: "0 \<le> uint (w :: u64)" "uint (w :: u64) < 256 ^ 8"
  using uint_lt2p [of w] by simp_all

lemma uint_token: "0 \<le> uint (t :: token)" "uint (t :: token) < 256 ^ 4"
  using uint_lt2p [of t] by simp_all

lemma hashBytes_inj: "hashBytes g = hashBytes h \<longleftrightarrow> g = h"
proof
  assume "hashBytes g = hashBytes h"
  then have "uint g = uint h"
    unfolding hashBytes_def by (rule be_bytes_inj [OF uint_u64 uint_u64])
  then show "g = h" by (simp add: word_uint_eq_iff)
qed simp

lemma tokenBytes_inj:
  "concat (map (\<lambda>t. le_bytes 4 (uint t)) xs) = concat (map (\<lambda>t. le_bytes 4 (uint t)) ys) \<Longrightarrow>
     xs = (ys :: token list)"
proof (induction xs arbitrary: ys)
  case Nil
  then show ?case by (cases ys) (auto simp flip: length_0_conv)
next
  case (Cons x xs)
  show ?case
  proof (cases ys)
    case Nil
    then show ?thesis using Cons.prems by (auto simp flip: length_0_conv)
  next
    case (Cons y ys')
    then have eq: "le_bytes 4 (uint x) = le_bytes 4 (uint y)"
      "concat (map (\<lambda>t. le_bytes 4 (uint t)) xs) = concat (map (\<lambda>t. le_bytes 4 (uint t)) ys')"
      using Cons.prems by (simp_all add: append_eq_append_conv)
    have "uint x = uint y" using eq(1) by (rule le_bytes_inj [OF uint_token uint_token])
    then show ?thesis using Cons.IH [OF eq(2)] Cons by (simp add: word_uint_eq_iff)
  qed
qed

subsection \<open>Equal hashes: equal tokens or a collision\<close>

text \<open>
  The byte strings a roll hashes. A 64-bit hash collides somewhere; what matters is whether it
  collides on these inputs.
\<close>

definition blockInput :: "token list \<Rightarrow> string" where
  "blockInput block = concat (map (\<lambda>t. le_bytes 4 (uint t)) block)"

definition linkInput :: "u64 \<Rightarrow> u64 \<Rightarrow> string" where
  "linkInput prev content = le_bytes 8 (uint prev) @ le_bytes 8 (uint content)"

definition stepInputs :: "hashSeed \<Rightarrow> u64 option \<Rightarrow> token list \<Rightarrow> string set" where
  "stepInputs hash p block =
     insert (blockInput block) (case p of None \<Rightarrow> {} | Some q \<Rightarrow> {linkInput q (ContentHash hash block)})"

fun rollInputs :: "hashSeed \<Rightarrow> u64 option \<Rightarrow> token list list \<Rightarrow> string set" where
  "rollInputs hash p [] = {}"
| "rollInputs hash p (b # bs) = stepInputs hash p b \<union> rollInputs hash (Some (rollStep hash p b)) bs"

definition collides :: "hashSeed \<Rightarrow> string set \<Rightarrow> bool" where
  "collides hash A \<longleftrightarrow> (\<exists>x \<in> A. \<exists>y \<in> A. x \<noteq> y \<and> hash x Seed = hash y Seed)"

lemma collides_mono: "collides hash A \<Longrightarrow> A \<subseteq> B \<Longrightarrow> collides hash B"
  unfolding collides_def by blast

lemma blockInput_inj: "blockInput xs = blockInput ys \<Longrightarrow> xs = ys"
  unfolding blockInput_def by (rule tokenBytes_inj)

lemma linkInput_inj:
  assumes "linkInput p x = linkInput q y"
  shows "p = q \<and> x = y"
proof -
  have eq: "le_bytes 8 (uint p) = le_bytes 8 (uint q)" "le_bytes 8 (uint x) = le_bytes 8 (uint y)"
    using assms by (simp_all add: linkInput_def append_eq_append_conv)
  have "uint p = uint q" "uint x = uint y"
    by (rule le_bytes_inj [OF uint_u64 uint_u64 eq(1)], rule le_bytes_inj [OF uint_u64 uint_u64 eq(2)])
  then show ?thesis by (simp add: word_uint_eq_iff)
qed

lemma rollStep_eqD:
  assumes "rollStep hash p x = rollStep hash q y" and "\<not> collides hash A" and "p = None \<longleftrightarrow> q = None"
    and "stepInputs hash p x \<subseteq> A" and "stepInputs hash q y \<subseteq> A"
  shows "p = q" "x = y"
proof -
  have inj: "u = v" if "u \<in> A" "v \<in> A" "hash u Seed = hash v Seed" for u v
    using that assms(2) unfolding collides_def by blast
  have "p = q \<and> ContentHash hash x = ContentHash hash y"
  proof (cases p)
    case None
    then show ?thesis using assms(1,3) by (simp add: rollStep_def)
  next
    case (Some p')
    then obtain q' where q: "q = Some q'" using assms(3) by auto
    have "linkInput p' (ContentHash hash x) = linkInput q' (ContentHash hash y)"
      by (rule inj) (use Some q assms in \<open>auto simp: stepInputs_def rollStep_def nextSeqHash_def linkInput_def\<close>)
    then show ?thesis using Some q linkInput_inj by blast
  qed
  moreover from this have "blockInput x = blockInput y"
    by (intro inj) (use assms(4,5) in \<open>auto simp: stepInputs_def ContentHash_def blockInput_def\<close>)
  ultimately show "p = q" "x = y" using blockInput_inj by blast+
qed

lemma rollHashes_snoc:
  "rollHashes hash p (bs @ [b]) =
     rollHashes hash p bs @ [rollStep hash (if bs = [] then p else Some (last (rollHashes hash p bs))) b]"
  by (simp add: rollHashes_append)

lemma rollInputs_snoc:
  "rollInputs hash p (bs @ [b]) =
     rollInputs hash p bs \<union> stepInputs hash (if bs = [] then p else Some (last (rollHashes hash p bs))) b"
  by (induction bs arbitrary: p) auto

lemma rollHashes_last_eqD:
  assumes "last (rollHashes hash p xs) = last (rollHashes hash p ys)" and "length xs = length ys"
    and "\<not> collides hash A" and "rollInputs hash p xs \<subseteq> A" and "rollInputs hash p ys \<subseteq> A"
  shows "xs = ys"
  using assms(1,2,4,5)
proof (induction xs arbitrary: ys rule: rev_induct)
  case (snoc x xs)
  obtain ys' y where ys: "ys = ys' @ [y]" using snoc.prems(2) by (cases ys rule: rev_cases) auto
  have len: "length xs = length ys'" using snoc.prems(2) ys by simp
  let ?p = "\<lambda>zs. if zs = [] then p else Some (last (rollHashes hash p zs))"
  have eq: "rollStep hash (?p xs) x = rollStep hash (?p ys') y"
    using snoc.prems(1) ys by (simp only: rollHashes_snoc last_snoc)
  have "?p xs = None \<longleftrightarrow> ?p ys' = None" using len by auto
  moreover have "stepInputs hash (?p xs) x \<subseteq> A" "stepInputs hash (?p ys') y \<subseteq> A"
    using snoc.prems(3,4) unfolding ys rollInputs_snoc by blast+
  ultimately have same: "?p xs = ?p ys'" "x = y" by (rule rollStep_eqD [OF eq assms(3)])+
  have "xs = ys'"
  proof (cases "xs = []")
    case False
    then have "ys' \<noteq> []" using len by auto
    then have "last (rollHashes hash p xs) = last (rollHashes hash p ys')"
      using False same(1) by simp
    moreover have "rollInputs hash p xs \<subseteq> A" "rollInputs hash p ys' \<subseteq> A"
      using snoc.prems(3,4) unfolding ys rollInputs_snoc by blast+
    ultimately show ?thesis using snoc.IH len by blast
  qed (use len in auto)
  then show ?case using ys same(2) by simp
qed simp

lemma concat_tokenBlocks:
  assumes "0 < b" shows "concat (tokenBlocks b tokens) = take (length tokens div b * b) tokens"
proof -
  have "concat (map (\<lambda>i. take b (drop (i * b) tokens)) [0..<n]) = take (n * b) tokens" for n
  proof (induction n)
    case (Suc n)
    have "take (Suc n * b) tokens = take (n * b + b) tokens" by (simp add: add.commute)
    then show ?case using Suc by (simp add: take_add del: mult_Suc)
  qed simp
  then show ?thesis by (simp add: tokenBlocks_def)
qed

lemma hash_prefix_or_collision:
  assumes "0 < b" and "k \<le> length xs div b" and "k \<le> length ys div b" and "0 < k"
    and "rollHashes hash p (tokenBlocks b xs) ! (k - 1) = rollHashes hash p (tokenBlocks b ys) ! (k - 1)"
    and "\<not> collides hash (rollInputs hash p (take k (tokenBlocks b xs)) \<union> rollInputs hash p (take k (tokenBlocks b ys)))"
  shows "take (k * b) xs = take (k * b) ys"
proof -
  have nth: "rollHashes hash p (tokenBlocks b zs) ! (k - 1) = last (rollHashes hash p (take k (tokenBlocks b zs)))"
    if "k \<le> length zs div b" for zs
    using that assms(4) by (subst last_conv_nth) (auto simp flip: take_rollHashes dest: arg_cong [where f = length])
  have "take k (tokenBlocks b xs) = take k (tokenBlocks b ys)"
    by (rule rollHashes_last_eqD [OF _ _ assms(6) Un_upper1 Un_upper2]) (use assms nth in simp_all)
  then have "tokenBlocks b (take (k * b) xs) = tokenBlocks b (take (k * b) ys)"
    using assms(1) by (simp add: tokenBlocks_take)
  then have "concat (tokenBlocks b (take (k * b) xs)) = concat (tokenBlocks b (take (k * b) ys))" by simp
  moreover have "concat (tokenBlocks b (take (k * b) zs)) = take (k * b) zs" if "k \<le> length zs div b" for zs
  proof -
    have "k * b \<le> length zs" using that assms(1) by (simp add: less_eq_div_iff_mult_less_eq)
    then show ?thesis using assms(1) by (simp add: concat_tokenBlocks min_absorb2)
  qed
  ultimately show ?thesis using assms(2,3) by simp
qed

end
