(* ===== verification/Service.thy ===== *)
theory Service
  imports Lookup_Facts Snapshots Policy Fingerprint
begin

text \<open>
  \<open>internal/server/inferencecache_service.go\<close>: the handlers of the gRPC contract.

  A handler returns its response, the calls it makes to \<open>observeLookup\<close>, and the index after
  it. What the code leaves to the world around a call is one record of arguments,
  \<open>callEnv\<close>: whether the caller's context has a deadline, what each read of
  \<open>ctx.Err()\<close> and each \<open>select\<close> yields, the clock readings, the tokenizations in flight, and
  what the index answered at the moments the handler consulted it (other calls run in between).
  The content hash and the tokenizer are third-party code: a parameter and a function field.
  Each policy resolver takes the store's lock on its own; the model reads one store per call.
\<close>

subsection \<open>Constants\<close>

definition DefaultEngineBlockSize :: int where "DefaultEngineBlockSize = 16"
definition DefaultTokenizeTimeout :: duration where "DefaultTokenizeTimeout = 5 * 10 ^ 9"
definition MaxLookupTokens :: nat where "MaxLookupTokens = 2 ^ 20"
definition MaxPromptTextBytes :: nat where "MaxPromptTextBytes = 2 ^ 20"
definition MaxConcurrentTokenize :: nat where "MaxConcurrentTokenize = 64"

definition reasonPrefixMatch :: string where "reasonPrefixMatch = ''PREFIX_MATCH''"
definition reasonTenantHot :: string where "reasonTenantHot = ''TENANT_HOT''"
definition reasonAffinityHint :: string where "reasonAffinityHint = ''AFFINITY_HINT''"
definition reasonNoHint :: string where "reasonNoHint = ''NO_HINT''"
definition reasonTimeout :: string where "reasonTimeout = ''TIMEOUT''"
definition reasonOK :: string where "reasonOK = ''OK''"
definition reasonPolicyRequiresChain :: string where "reasonPolicyRequiresChain = ''POLICY_REQUIRES_CHAIN''"
definition reasonUnknownTenant :: string where "reasonUnknownTenant = ''UNKNOWN_TENANT''"
definition reasonUnknownModel :: string where "reasonUnknownModel = ''UNKNOWN_MODEL''"
definition reasonUnknownHashScheme :: string where "reasonUnknownHashScheme = ''UNKNOWN_HASH_SCHEME''"

lemmas reason_defs =
  reasonPrefixMatch_def reasonTenantHot_def reasonAffinityHint_def reasonNoHint_def reasonTimeout_def
  reasonOK_def reasonPolicyRequiresChain_def reasonUnknownTenant_def reasonUnknownModel_def
  reasonUnknownHashScheme_def

subsection \<open>Messages\<close>

record SLO =
  slo_TtftMs :: int
  slo_TbtMs :: int

record LookupRouteRequest =
  rq_ModelId :: string
  rq_TenantId :: string
  rq_PrefixHash :: string
  rq_PrefixTokenCount :: int
  rq_HashScheme :: string
  rq_Slo :: "SLO option"
  rq_BlockHashes :: "string list"
  rq_BlockTokenCounts :: "int list"
  rq_TokenIds :: "token list"
  rq_PromptText :: string
  rq_AdapterId :: string

record pbReplicaScore =
  ps_ReplicaId :: string
  ps_Score :: flt
  ps_MatchedTokens :: int
  ps_EstimatedCacheHitProb :: flt
  ps_Tier :: int

record LookupRouteResponse =
  rp_ReplicaScores :: "pbReplicaScore list"
  rp_ReasonCode :: string
  rp_LookupLatencyUs :: int
  rp_TokenIds :: "token list"
  rp_AdapterId :: string

datatype Observation = ObserveLookup string string bool duration

subsection \<open>The service\<close>

text \<open>\<open>tokenizer model text\<close> is what \<open>Encode\<close> returns for one user message: \<open>None\<close> is an error.\<close>

record inferenceCacheService =
  svc_policies :: "PolicyStore option"
  svc_tokenizer :: "string \<Rightarrow> string \<Rightarrow> token list option"
  svc_blockSize :: int
  svc_tokenizeTimeout :: duration
  svc_tokenizeSem :: "nat option"

record callEnv =
  ce_callerDeadline :: bool
  ce_err0 :: bool
  ce_resolved :: bool
  ce_err1 :: bool
  ce_looked :: bool
  ce_err2 :: bool
  ce_lookupElapsed :: duration
  ce_elapsed :: duration
  ce_inFlight :: nat
  ce_lookupFn :: "LookupRequest \<Rightarrow> LookupResult"
  ce_affinity :: "string \<Rightarrow> string \<Rightarrow> string \<Rightarrow> string \<Rightarrow> string option"

text \<open>\<open>newInferenceCacheService\<close>: \<open>tokenize.Unavailable\<close> refuses every text.\<close>

definition newInferenceCacheService :: "PolicyStore option \<Rightarrow> inferenceCacheService" where
  "newInferenceCacheService pols =
     \<lparr>svc_policies = pols, svc_tokenizer = (\<lambda>_ _. None), svc_blockSize = DefaultEngineBlockSize,
      svc_tokenizeTimeout = DefaultTokenizeTimeout, svc_tokenizeSem = Some MaxConcurrentTokenize\<rparr>"

definition RenderTemplate :: "string \<times> string" where
  "RenderTemplate = ([], reasonOK)"

definition LookupPDRoute :: string where
  "LookupPDRoute = reasonNoHint"

subsection \<open>Policy wrappers\<close>

definition policyTimeout :: "inferenceCacheService \<Rightarrow> string \<Rightarrow> duration" where
  "policyTimeout s tenant = (case svc_policies s of None \<Rightarrow> 0 | Some p \<Rightarrow> LookupTimeout p tenant)"

definition policyMinimumPrefixTokens :: "inferenceCacheService \<Rightarrow> string \<Rightarrow> int" where
  "policyMinimumPrefixTokens s tenant =
     (case svc_policies s of None \<Rightarrow> 0 | Some p \<Rightarrow> MinimumPrefixTokens p tenant)"

definition policyMinimumMatchedTokens :: "inferenceCacheService \<Rightarrow> string \<Rightarrow> int" where
  "policyMinimumMatchedTokens s tenant =
     (case svc_policies s of None \<Rightarrow> 0 | Some p \<Rightarrow> MinimumMatchedTokens p tenant)"

definition policyRoutingFloorScore :: "inferenceCacheService \<Rightarrow> string \<Rightarrow> flt" where
  "policyRoutingFloorScore s tenant =
     (case svc_policies s of None \<Rightarrow> Fin 0 | Some p \<Rightarrow> RoutingFloorScore p tenant)"

definition policyChainMatchingEnabled :: "inferenceCacheService \<Rightarrow> string \<Rightarrow> bool" where
  "policyChainMatchingEnabled s tenant =
     (case svc_policies s of None \<Rightarrow> DefaultEnableChainMatching | Some p \<Rightarrow> ChainMatchingEnabled p tenant)"

definition policyChainRequired :: "inferenceCacheService \<Rightarrow> string \<Rightarrow> bool" where
  "policyChainRequired s tenant =
     (case svc_policies s of None \<Rightarrow> DefaultRequireChain | Some p \<Rightarrow> ChainRequired p tenant)"

definition policyTenantHotEnabled :: "inferenceCacheService \<Rightarrow> string \<Rightarrow> bool" where
  "policyTenantHotEnabled s tenant =
     (case svc_policies s of None \<Rightarrow> DefaultEnableTenantHot | Some p \<Rightarrow> TenantHotEnabled p tenant)"

definition affinityRoutingEnabled :: "inferenceCacheService \<Rightarrow> string \<Rightarrow> bool" where
  "affinityRoutingEnabled s tenant =
     (case svc_policies s of
        None \<Rightarrow> DefaultAffinityRoutingEnabled | Some p \<Rightarrow> AffinityRoutingEnabled p tenant)"

subsection \<open>Resolving the input\<close>

record lookupInputs =
  in_blockHashes :: "string list"
  in_blockTokenCounts :: "int list"
  in_exactPrefixHash :: string
  in_exactTokenCount :: int
  in_echoTokens :: "token list"
  in_failOpen :: bool

definition failOpenInputs :: "token list \<Rightarrow> lookupInputs" where
  "failOpenInputs toks =
     \<lparr>in_blockHashes = [], in_blockTokenCounts = [], in_exactPrefixHash = [], in_exactTokenCount = 0,
      in_echoTokens = toks, in_failOpen = True\<rparr>"

definition exactInputs :: "string \<Rightarrow> int \<Rightarrow> lookupInputs" where
  "exactInputs h n =
     \<lparr>in_blockHashes = [], in_blockTokenCounts = [], in_exactPrefixHash = h, in_exactTokenCount = n,
      in_echoTokens = [], in_failOpen = False\<rparr>"

definition requestCarriesValidBlockHashChain :: "LookupRouteRequest \<Rightarrow> bool" where
  "requestCarriesValidBlockHashChain req \<longleftrightarrow>
     0 < length (rq_BlockHashes req) \<and> length (rq_BlockHashes req) = length (rq_BlockTokenCounts req)"

definition chainHashesIfEnabled :: "string list \<Rightarrow> bool \<Rightarrow> string list" where
  "chainHashesIfEnabled hashes enabled = (if \<not> enabled then [] else hashes)"

definition chainCountsIfEnabled :: "int list \<Rightarrow> bool \<Rightarrow> int list" where
  "chainCountsIfEnabled counts enabled = (if \<not> enabled then [] else counts)"

definition sumBlockTokenCounts :: "int list \<Rightarrow> int" where
  "sumBlockTokenCounts counts = fold (\<lambda>n acc. wrap32 (acc + n)) counts 0"

definition effectivePrefixTokens :: "int list \<Rightarrow> int \<Rightarrow> int" where
  "effectivePrefixTokens blockTokenCounts legacyCount =
     (if 0 < length blockTokenCounts then fold (\<lambda>n acc. wrap32 (acc + n)) blockTokenCounts 0 else legacyCount)"

definition fingerprintInputs :: "hashSeed \<Rightarrow> inferenceCacheService \<Rightarrow> token list \<Rightarrow> bool \<Rightarrow> token list \<Rightarrow> lookupInputs" where
  "fingerprintInputs hash s toks enabled echo =
     (let (bh, btc) = Chain hash toks (svc_blockSize s)
      in if length bh = 0 then failOpenInputs echo
         else
           \<lparr>in_blockHashes = chainHashesIfEnabled bh enabled,
            in_blockTokenCounts = chainCountsIfEnabled btc enabled,
            in_exactPrefixHash = last bh, in_exactTokenCount = sumBlockTokenCounts btc,
            in_echoTokens = echo, in_failOpen = False\<rparr>)"

definition acquireTokenize :: "inferenceCacheService \<Rightarrow> callEnv \<Rightarrow> bool" where
  "acquireTokenize s env \<longleftrightarrow> (case svc_tokenizeSem s of None \<Rightarrow> True | Some cap \<Rightarrow> ce_inFlight env < cap)"

definition resolveLookupChain ::
  "hashSeed \<Rightarrow> inferenceCacheService \<Rightarrow> callEnv \<Rightarrow> LookupRouteRequest \<Rightarrow> bool \<Rightarrow> lookupInputs" where
  "resolveLookupChain hash s env req chainMatchingEnabled =
     (let exactPrefixHash = rq_PrefixHash req;
          exactTokenCount = rq_PrefixTokenCount req;
          ignoredChain = (\<not> chainMatchingEnabled \<and>
            (0 < length (rq_BlockHashes req) \<or> 0 < length (rq_BlockTokenCounts req)));
          bh = (if chainMatchingEnabled then rq_BlockHashes req else []);
          btc = (if chainMatchingEnabled then rq_BlockTokenCounts req else [])
      in if \<not> chainMatchingEnabled \<and> 0 < length exactPrefixHash then exactInputs exactPrefixHash exactTokenCount
         else if 0 < length bh \<or> 0 < length btc \<or> 0 < length (rq_PrefixHash req) then
           (if length bh \<noteq> length btc then failOpenInputs []
            else
              \<lparr>in_blockHashes = bh, in_blockTokenCounts = btc, in_exactPrefixHash = exactPrefixHash,
               in_exactTokenCount = exactTokenCount, in_echoTokens = [], in_failOpen = False\<rparr>)
         else if 0 < length (rq_TokenIds req) then
           (if MaxLookupTokens < length (rq_TokenIds req) then failOpenInputs []
            else fingerprintInputs hash s (rq_TokenIds req) chainMatchingEnabled [])
         else if rq_PromptText req \<noteq> [] then
           (if MaxPromptTextBytes < length (rq_PromptText req) then failOpenInputs []
            else if \<not> acquireTokenize s env then failOpenInputs []
            else
              (case svc_tokenizer s (rq_ModelId req) (rq_PromptText req) of
                 None \<Rightarrow> failOpenInputs []
               | Some toks \<Rightarrow>
                   (if length toks = 0 \<or> MaxLookupTokens < length toks then failOpenInputs []
                    else fingerprintInputs hash s toks chainMatchingEnabled toks)))
         else if ignoredChain then failOpenInputs []
         else exactInputs exactPrefixHash exactTokenCount)"

subsection \<open>Responses\<close>

text \<open>\<open>Duration.Microseconds\<close> truncates towards zero.\<close>

definition microseconds :: "duration \<Rightarrow> int" where
  "microseconds d = (if d < 0 then - (- d div 1000) else d div 1000)"

type_synonym answer = "LookupRouteResponse \<times> Observation list"

definition emptyResponse :: "string \<Rightarrow> string \<Rightarrow> duration \<Rightarrow> token list \<Rightarrow> answer" where
  "emptyResponse model reason elapsed echoTokens =
     (\<lparr>rp_ReplicaScores = [], rp_ReasonCode = reason, rp_LookupLatencyUs = microseconds elapsed,
       rp_TokenIds = echoTokens, rp_AdapterId = []\<rparr>,
      [ObserveLookup model reason False elapsed])"

definition timeoutResponse :: "string \<Rightarrow> duration \<Rightarrow> token list \<Rightarrow> answer" where
  "timeoutResponse model elapsed echoTokens = emptyResponse model reasonTimeout elapsed echoTokens"

definition noHintResponse :: "string \<Rightarrow> duration \<Rightarrow> token list \<Rightarrow> answer" where
  "noHintResponse model elapsed echoTokens = emptyResponse model reasonNoHint elapsed echoTokens"

definition policyGateResponse :: "string \<Rightarrow> string \<Rightarrow> duration \<Rightarrow> token list \<Rightarrow> answer" where
  "policyGateResponse model reason elapsed echoTokens = emptyResponse model reason elapsed echoTokens"

definition reasonForStrategy :: "Strategy \<Rightarrow> string" where
  "reasonForStrategy st =
     (case st of
        StrategyPrefixMatch \<Rightarrow> reasonPrefixMatch
      | StrategyTenantHot \<Rightarrow> reasonTenantHot
      | StrategyUnknownTenant \<Rightarrow> reasonUnknownTenant
      | StrategyUnknownModel \<Rightarrow> reasonUnknownModel
      | StrategyUnknownHashScheme \<Rightarrow> reasonUnknownHashScheme
      | StrategyNone \<Rightarrow> reasonNoHint)"

definition applyLookupStrategyGates :: "inferenceCacheService \<Rightarrow> LookupResult \<Rightarrow> string \<Rightarrow> LookupResult" where
  "applyLookupStrategyGates s result tenant =
     (if res_Strategy result = StrategyTenantHot \<and> \<not> policyTenantHotEnabled s tenant
      then strategyOnly StrategyNone else result)"

definition applyMatchedTokensFloor :: "inferenceCacheService \<Rightarrow> LookupResult \<Rightarrow> string \<Rightarrow> LookupResult" where
  "applyMatchedTokensFloor s result tenant =
     (let floor = policyMinimumMatchedTokens s tenant
      in if floor \<le> 0 \<or> length (res_Scores result) = 0 then result
         else
           (let (keep, survivors) =
                  fold (\<lambda>sc (keep, n). if floor \<le> sc_MatchedTokens sc
                          then (AList.update (sc_ReplicaID sc) True keep, Suc n) else (keep, n))
                    (res_Scores result) ([], 0)
            in if survivors = length (res_Scores result) then result
               else if survivors = 0 then strategyOnly StrategyNone
               else RetainReplicas keep result))"

definition affinityEligible :: "LookupRouteRequest \<Rightarrow> bool" where
  "affinityEligible req \<longleftrightarrow>
     \<not> (rq_TenantId req = [] \<or> rq_ModelId req = [] \<or> rq_HashScheme req = []) \<and>
     \<not> ((0 < length (rq_BlockHashes req) \<or> 0 < length (rq_BlockTokenCounts req)) \<and>
        length (rq_BlockHashes req) \<noteq> length (rq_BlockTokenCounts req))"

definition canonicalAffinitySeed :: "lookupInputs \<Rightarrow> string option" where
  "canonicalAffinitySeed inp =
     (if 0 < length (in_blockHashes inp)
      then Some (concat (map (\<lambda>b. be_bytes 4 (int (length b) mod 2 ^ 32) @ b) (in_blockHashes inp)))
      else if 0 < length (in_exactPrefixHash inp) then Some (in_exactPrefixHash inp)
      else None)"

definition tryAffinityResponse ::
  "inferenceCacheService \<Rightarrow> callEnv \<Rightarrow> LookupRouteRequest \<Rightarrow> lookupInputs \<Rightarrow> string \<Rightarrow> string \<Rightarrow> duration \<Rightarrow>
     answer option" where
  "tryAffinityResponse s env req inp tenant model elapsed =
     (if \<not> affinityRoutingEnabled s tenant then None
      else if \<not> affinityEligible req then None
      else
        (case canonicalAffinitySeed inp of
           None \<Rightarrow> None
         | Some seed \<Rightarrow>
             (case ce_affinity env tenant model (rq_HashScheme req) seed of
                None \<Rightarrow> None
              | Some rid \<Rightarrow>
                  Some
                    (\<lparr>rp_ReplicaScores =
                        [\<lparr>ps_ReplicaId = rid, ps_Score = Fin 0, ps_MatchedTokens = 0,
                          ps_EstimatedCacheHitProb = Fin 0, ps_Tier = 0\<rparr>],
                      rp_ReasonCode = reasonAffinityHint, rp_LookupLatencyUs = microseconds elapsed,
                      rp_TokenIds = in_echoTokens inp, rp_AdapterId = rq_AdapterId req\<rparr>,
                     [ObserveLookup model reasonAffinityHint True elapsed]))))"

text \<open>The wire enum of the tiers has the index's values.\<close>

definition cacheTierToProto :: "CacheTier \<Rightarrow> int" where
  "cacheTierToProto t =
     (if t = TierT1 then 1 else if t = TierT2 then 2 else if t = TierT3 then 3 else 0)"

definition scoreToProto :: "ReplicaScore \<Rightarrow> pbReplicaScore" where
  "scoreToProto sc =
     \<lparr>ps_ReplicaId = sc_ReplicaID sc, ps_Score = sc_Score sc, ps_MatchedTokens = sc_MatchedTokens sc,
      ps_EstimatedCacheHitProb = sc_EstimatedCacheHitProb sc, ps_Tier = cacheTierToProto (sc_Tier sc)\<rparr>"

text \<open>The three result-side stages, in the order of the code.\<close>

definition prefixGate :: "inferenceCacheService \<Rightarrow> string \<Rightarrow> lookupInputs \<Rightarrow> LookupResult \<Rightarrow> LookupResult" where
  "prefixGate s tenant inp result =
     (let minTokens = policyMinimumPrefixTokens s tenant
      in if 0 < minTokens \<and> effectivePrefixTokens (in_blockTokenCounts inp) (in_exactTokenCount inp) < minTokens \<and>
            (res_Strategy result = StrategyPrefixMatch \<or> res_Strategy result = StrategyTenantHot)
         then strategyOnly StrategyNone else result)"

definition scoreFloor :: "inferenceCacheService \<Rightarrow> string \<Rightarrow> LookupResult \<Rightarrow> LookupResult" where
  "scoreFloor s tenant result =
     (if res_Strategy result = StrategyPrefixMatch then
        (let floor = policyRoutingFloorScore s tenant
         in if flt_lt (Fin 0) floor \<and> 0 < length (res_Scores result) \<and>
               flt_lt (sc_Score (res_Scores result ! 0)) floor
            then strategyOnly StrategyNone else result)
      else result)"

definition resultStages :: "inferenceCacheService \<Rightarrow> string \<Rightarrow> lookupInputs \<Rightarrow> LookupResult \<Rightarrow> LookupResult" where
  "resultStages s tenant inp result =
     (let result = prefixGate s tenant inp result;
          result = (if res_Strategy result = StrategyPrefixMatch
                    then applyMatchedTokensFloor s result tenant else result)
      in scoreFloor s tenant result)"

definition buildLookupResponse ::
  "inferenceCacheService \<Rightarrow> callEnv \<Rightarrow> LookupRouteRequest \<Rightarrow> string \<Rightarrow> string \<Rightarrow> LookupResult \<Rightarrow> duration \<Rightarrow>
     lookupInputs \<Rightarrow> Index \<Rightarrow> answer \<times> Index" where
  "buildLookupResponse s env req model tenant result elapsed inp i =
     (let result = resultStages s tenant inp result;
          affinity = (if res_Strategy result = StrategyNone
                      then tryAffinityResponse s env req inp tenant model elapsed else None)
      in case affinity of
           Some a \<Rightarrow> (a, i)
         | None \<Rightarrow>
             (let reason = reasonForStrategy (res_Strategy result)
              in ((\<lparr>rp_ReplicaScores = map scoreToProto (res_Scores result), rp_ReasonCode = reason,
                    rp_LookupLatencyUs = microseconds elapsed, rp_TokenIds = in_echoTokens inp,
                    rp_AdapterId = rq_AdapterId req\<rparr>,
                   [ObserveLookup model reason (0 < length (res_Scores result)) elapsed]),
                  CreditHits result i)))"

subsection \<open>LookupRoute\<close>

definition lookupRequest :: "LookupRouteRequest \<Rightarrow> lookupInputs \<Rightarrow> bool \<Rightarrow> LookupRequest" where
  "lookupRequest req inp chainMatchingEnabled =
     \<lparr>lr_Model = rq_ModelId req, lr_Tenant = rq_TenantId req, lr_HashScheme = rq_HashScheme req,
      lr_Adapter = rq_AdapterId req, lr_PrefixHash = in_exactPrefixHash inp,
      lr_TokenCount = in_exactTokenCount inp,
      lr_BlockHashes = (if \<not> chainMatchingEnabled then [] else in_blockHashes inp),
      lr_BlockTokenCounts = (if \<not> chainMatchingEnabled then [] else in_blockTokenCounts inp),
      lr_TTFTBudgetMs = (case rq_Slo req of None \<Rightarrow> 0 | Some v \<Rightarrow> slo_TtftMs v),
      lr_TBTBudgetMs = (case rq_Slo req of None \<Rightarrow> 0 | Some v \<Rightarrow> slo_TbtMs v)\<rparr>"

definition willTokenize :: "LookupRouteRequest \<Rightarrow> bool \<Rightarrow> bool" where
  "willTokenize req chainMatchingEnabled \<longleftrightarrow>
     rq_PromptText req \<noteq> [] \<and>
     (\<not> chainMatchingEnabled \<or> (length (rq_BlockHashes req) = 0 \<and> length (rq_BlockTokenCounts req) = 0)) \<and>
     length (rq_PrefixHash req) = 0 \<and> length (rq_TokenIds req) = 0"

definition hasDeadline :: "inferenceCacheService \<Rightarrow> callEnv \<Rightarrow> LookupRouteRequest \<Rightarrow> bool" where
  "hasDeadline s env req \<longleftrightarrow>
     (let bounded = ce_callerDeadline env \<or> 0 < policyTimeout s (rq_TenantId req)
      in bounded \<or>
         (willTokenize req (policyChainMatchingEnabled s (rq_TenantId req)) \<and> 0 < svc_tokenizeTimeout s))"

definition serviceLookupRoute ::
  "hashSeed \<Rightarrow> inferenceCacheService \<Rightarrow> callEnv \<Rightarrow> LookupRouteRequest \<Rightarrow> Index \<Rightarrow> answer \<times> Index" where
  "serviceLookupRoute hash s env req i =
     (let tenant = rq_TenantId req;
          model = rq_ModelId req
      in if tenant = ProbeTenantID then
           ((\<lparr>rp_ReplicaScores = [], rp_ReasonCode = reasonNoHint, rp_LookupLatencyUs = 0,
              rp_TokenIds = [], rp_AdapterId = []\<rparr>, [ObserveLookup model reasonNoHint False 0]), i)
         else
           (let budget = policyTimeout s tenant;
                chainMatchingEnabled = policyChainMatchingEnabled s tenant;
                bounded = hasDeadline s env req
            in if ce_err0 env then (timeoutResponse model (ce_elapsed env) [], i)
               else if policyChainRequired s tenant \<and> \<not> requestCarriesValidBlockHashChain req
               then (policyGateResponse model reasonPolicyRequiresChain (ce_elapsed env) [], i)
               else if bounded \<and> \<not> ce_resolved env then (timeoutResponse model (ce_elapsed env) [], i)
               else
                 (let inp = resolveLookupChain hash s env req chainMatchingEnabled
                  in if ce_err1 env then (timeoutResponse model (ce_elapsed env) (in_echoTokens inp), i)
                     else if in_failOpen inp then (noHintResponse model (ce_elapsed env) (in_echoTokens inp), i)
                     else if 0 < policyMinimumPrefixTokens s tenant \<and>
                          effectivePrefixTokens (in_blockTokenCounts inp) (in_exactTokenCount inp)
                            < policyMinimumPrefixTokens s tenant \<and>
                          \<not> affinityRoutingEnabled s tenant
                     then (noHintResponse model (ce_elapsed env) (in_echoTokens inp), i)
                     else
                       (let result = ce_lookupFn env (lookupRequest req inp chainMatchingEnabled)
                        in if bounded \<and>
                              (\<not> ce_looked env \<or> ce_err2 env \<or> 0 < budget \<and> budget < ce_lookupElapsed env)
                           then (timeoutResponse model (ce_elapsed env) (in_echoTokens inp), i)
                           else
                             buildLookupResponse s env req model tenant
                               (applyLookupStrategyGates s result tenant) (ce_elapsed env) inp i))))"

text \<open>The call on an index nothing else touches meanwhile, with the clock at \<open>now\<close>.\<close>

definition quietEnv :: "Index \<Rightarrow> gotime \<Rightarrow> callEnv \<Rightarrow> callEnv" where
  "quietEnv i now env = env\<lparr>ce_lookupFn := LookupRoute i now, ce_affinity := AffinityHint i\<rparr>"

subsection \<open>The writing handlers\<close>

record pbReplicaStats =
  st_CacheMemoryBytes :: int
  st_HitRate :: flt
  st_Pressure :: flt
  st_T2HitTokens :: int
  st_T2QueryTokens :: int

record pbPrefixEntry =
  pe_PrefixHash :: string
  pe_TokenCount :: int
  pe_BlockHashes :: "string list"
  pe_BlockTokenCounts :: "int list"
  pe_Tier :: int
  pe_AdapterId :: string

record CacheStateUpdate =
  cu_ReplicaId :: string
  cu_ModelId :: string
  cu_TenantId :: string
  cu_HashScheme :: string
  cu_TimestampUs :: int
  cu_Prefixes :: "pbPrefixEntry list"
  cu_Stats :: "pbReplicaStats option"
  cu_AdapterId :: string

record CacheEvent =
  ce_Type :: int
  ce_ReplicaId :: string
  ce_ModelId :: string
  ce_TenantId :: string
  ce_PrefixHash :: string
  ce_TimestampUs :: int
  ce_AdapterId :: string

definition tierInvalidCold :: CacheTier where "tierInvalidCold = 2 ^ 31 - 1"

definition cacheTierFromProto :: "int \<Rightarrow> CacheTier" where
  "cacheTierFromProto t =
     (if t = 0 then TierUnspecified
      else if t = 1 then TierT1
      else if t = 2 then TierT2
      else if t = 3 then TierT3
      else if t < 0 then tierInvalidCold
      else t)"

definition eventTypeFromProto :: "int \<Rightarrow> EventType option" where
  "eventTypeFromProto t =
     (if t = 1 then Some EventPrefixAdded
      else if t = 2 then Some EventPrefixEvicted
      else if t = 3 then Some EventReplicaUpdated
      else if t = 4 then Some EventAllCleared
      else None)"

text \<open>\<open>time.UnixMicro\<close>: the Unix epoch is 62135596800 s after Go's zero time.\<close>

definition microsToTime :: "int \<Rightarrow> gotime" where
  "microsToTime us = (if us = 0 then 0 else 62135596800 * 10 ^ 9 + us * 1000)"

definition updateFromProto :: "CacheStateUpdate \<Rightarrow> Update" where
  "updateFromProto u =
     \<lparr>u_ReplicaID = cu_ReplicaId u, u_Model = cu_ModelId u, u_Tenant = cu_TenantId u,
      u_HashScheme = cu_HashScheme u, u_Adapter = cu_AdapterId u,
      u_Timestamp = microsToTime (cu_TimestampUs u),
      u_Prefixes =
        map (\<lambda>p. \<lparr>pr_PrefixHash = pe_PrefixHash p, pr_TokenCount = pe_TokenCount p,
                  pr_BlockHashes = pe_BlockHashes p, pr_BlockTokenCounts = pe_BlockTokenCounts p,
                  pr_Tier = cacheTierFromProto (pe_Tier p), pr_Adapter = pe_AdapterId p\<rparr>) (cu_Prefixes u),
      u_Stats =
        map_option (\<lambda>st. \<lparr>rs_ReplicaID = cu_ReplicaId u, rs_CacheMemoryBytes = st_CacheMemoryBytes st,
                         rs_HitRate = st_HitRate st, rs_Pressure = st_Pressure st,
                         rs_T2HitTokens = st_T2HitTokens st, rs_T2QueryTokens = st_T2QueryTokens st\<rparr>)
          (cu_Stats u)\<rparr>"

text \<open>
  What successive calls of \<open>stream.Recv\<close> yield: updates, each with the clock of its ingest,
  until the stream half-closes or fails. The result is the acknowledgement or the error.
\<close>

datatype recv = RecvUpdate gotime CacheStateUpdate | RecvEOF | RecvErr string

fun ReportCacheState :: "recv list \<Rightarrow> Index \<Rightarrow> ((string + bool) \<times> Index) option" where
  "ReportCacheState [] i = None"
| "ReportCacheState (RecvEOF # rs) i = Some (Inr True, i)"
| "ReportCacheState (RecvErr e # rs) i = Some (Inl e, i)"
| "ReportCacheState (RecvUpdate now u # rs) i =
     (if cu_TenantId u = ProbeTenantID then ReportCacheState rs i
      else ReportCacheState rs (Ingest i now (updateFromProto u)))"

definition PublishEvent :: "gotime \<Rightarrow> CacheEvent \<Rightarrow> Index \<Rightarrow> bool \<times> Index" where
  "PublishEvent now ev i =
     (if ce_TenantId ev = ProbeTenantID then (True, i)
      else
        (case eventTypeFromProto (ce_Type ev) of
           None \<Rightarrow> (True, i)
         | Some t \<Rightarrow>
             (True, ApplyEvent i now
                \<lparr>ev_Type = t, ev_ReplicaID = ce_ReplicaId ev, ev_Model = ce_ModelId ev,
                 ev_Tenant = ce_TenantId ev, ev_PrefixHash = ce_PrefixHash ev, ev_Adapter = ce_AdapterId ev,
                 ev_Timestamp = microsToTime (ce_TimestampUs ev)\<rparr>)))"

definition GetCacheState :: "string \<Rightarrow> string \<Rightarrow> Index \<Rightarrow> ReplicaStats list \<times> int" where
  "GetCacheState tenant model i = (if tenant = ProbeTenantID then ([], 0) else CacheState i tenant model)"

end
