(* ===== verification/Service_Facts.thy ===== *)
theory Service_Facts
  imports Service Identity
begin

text \<open>
  What the handlers of \<open>internal/server/inferencecache_service.go\<close> promise: one metric
  observation per call, the vocabulary of the responses, the floors on a delivered match, credit
  for delivered entries only, isolation of the reserved probe tenant and of adapter partitions,
  the round trips of the wire translations, and that a caller who sends the tokens a replica
  reported gets that replica back.
\<close>

subsection \<open>One observation per call\<close>

definition observes :: "string \<Rightarrow> answer \<Rightarrow> bool" where
  "observes model a \<longleftrightarrow>
     (\<exists>d. snd a = [ObserveLookup model (rp_ReasonCode (fst a)) (rp_ReplicaScores (fst a) \<noteq> []) d] \<and>
          rp_LookupLatencyUs (fst a) = microseconds d)"

lemma microseconds_0 [simp]: "microseconds 0 = 0"
  by (simp add: microseconds_def)

lemma observes_empty [simp]: "observes model (emptyResponse model reason d toks)"
  by (simp add: observes_def emptyResponse_def)

lemmas empty_responses = timeoutResponse_def noHintResponse_def policyGateResponse_def

lemma observes_affinity:
  "tryAffinityResponse s env req inp tenant model d = Some a \<Longrightarrow> observes model a"
  by (auto simp: tryAffinityResponse_def observes_def split: if_splits option.splits)

definition resultAnswer :: "LookupRouteRequest \<Rightarrow> string \<Rightarrow> LookupResult \<Rightarrow> duration \<Rightarrow> lookupInputs \<Rightarrow> answer" where
  "resultAnswer req model res d inp =
     (\<lparr>rp_ReplicaScores = map scoreToProto (res_Scores res), rp_ReasonCode = reasonForStrategy (res_Strategy res),
       rp_LookupLatencyUs = microseconds d, rp_TokenIds = in_echoTokens inp, rp_AdapterId = rq_AdapterId req\<rparr>,
      [ObserveLookup model (reasonForStrategy (res_Strategy res)) (0 < length (res_Scores res)) d])"

lemma build_cases:
  obtains (affinity) a where "res_Strategy (resultStages s tenant inp res) = StrategyNone"
      "tryAffinityResponse s env req inp tenant model d = Some a"
      "buildLookupResponse s env req model tenant res d inp i = (a, i)"
  | (result) "buildLookupResponse s env req model tenant res d inp i =
       (resultAnswer req model (resultStages s tenant inp res) d inp, CreditHits (resultStages s tenant inp res) i)"
proof (cases "if res_Strategy (resultStages s tenant inp res) = StrategyNone
    then tryAffinityResponse s env req inp tenant model d else None")
  case None
  then show ?thesis using result by (simp add: buildLookupResponse_def Let_def resultAnswer_def)
next
  case (Some a)
  then show ?thesis using affinity [of a] by (auto simp: buildLookupResponse_def Let_def split: if_splits)
qed

lemma observes_build: "observes model (fst (buildLookupResponse s env req model tenant res d inp i))"
proof (cases rule: build_cases [of s tenant inp res env req model d i])
  case (affinity a)
  then show ?thesis using observes_affinity by simp
next
  case result
  then show ?thesis by (auto simp: observes_def resultAnswer_def)
qed

lemma service_cases:
  obtains (probe) "rq_TenantId req = ProbeTenantID"
      "serviceLookupRoute hash s env req i =
        ((\<lparr>rp_ReplicaScores = [], rp_ReasonCode = reasonNoHint, rp_LookupLatencyUs = 0,
           rp_TokenIds = [], rp_AdapterId = []\<rparr>, [ObserveLookup (rq_ModelId req) reasonNoHint False 0]), i)"
  | (empty) reason d toks where "rq_TenantId req \<noteq> ProbeTenantID"
      "reason \<in> {reasonTimeout, reasonNoHint, reasonPolicyRequiresChain}"
      "serviceLookupRoute hash s env req i = (emptyResponse (rq_ModelId req) reason d toks, i)"
  | (build) inp where "rq_TenantId req \<noteq> ProbeTenantID"
      "inp = resolveLookupChain hash s env req (policyChainMatchingEnabled s (rq_TenantId req))"
      "serviceLookupRoute hash s env req i =
        buildLookupResponse s env req (rq_ModelId req) (rq_TenantId req)
          (applyLookupStrategyGates s
             (ce_lookupFn env (lookupRequest req inp (policyChainMatchingEnabled s (rq_TenantId req))))
             (rq_TenantId req)) (ce_elapsed env) inp i"
      "\<not> in_failOpen inp"
proof (cases "rq_TenantId req = ProbeTenantID")
  case True
  then show ?thesis using probe by (simp add: serviceLookupRoute_def)
next
  case tenant: False
  define inp where "inp = resolveLookupChain hash s env req (policyChainMatchingEnabled s (rq_TenantId req))"
  define gate where "gate \<longleftrightarrow> policyChainRequired s (rq_TenantId req) \<and> \<not> requestCarriesValidBlockHashChain req"
  define late where "late \<longleftrightarrow> hasDeadline s env req \<and> \<not> ce_resolved env"
  define short where "short \<longleftrightarrow> 0 < policyMinimumPrefixTokens s (rq_TenantId req) \<and>
    effectivePrefixTokens (in_blockTokenCounts inp) (in_exactTokenCount inp)
      < policyMinimumPrefixTokens s (rq_TenantId req) \<and> \<not> affinityRoutingEnabled s (rq_TenantId req)"
  define over where "over \<longleftrightarrow> hasDeadline s env req \<and>
    (\<not> ce_looked env \<or> ce_err2 env \<or>
      0 < policyTimeout s (rq_TenantId req) \<and> policyTimeout s (rq_TenantId req) < ce_lookupElapsed env)"
  have call: "serviceLookupRoute hash s env req i =
    (if ce_err0 env then (emptyResponse (rq_ModelId req) reasonTimeout (ce_elapsed env) [], i)
     else if gate then (emptyResponse (rq_ModelId req) reasonPolicyRequiresChain (ce_elapsed env) [], i)
     else if late then (emptyResponse (rq_ModelId req) reasonTimeout (ce_elapsed env) [], i)
     else if ce_err1 env
     then (emptyResponse (rq_ModelId req) reasonTimeout (ce_elapsed env) (in_echoTokens inp), i)
     else if in_failOpen inp
     then (emptyResponse (rq_ModelId req) reasonNoHint (ce_elapsed env) (in_echoTokens inp), i)
     else if short then (emptyResponse (rq_ModelId req) reasonNoHint (ce_elapsed env) (in_echoTokens inp), i)
     else if over then (emptyResponse (rq_ModelId req) reasonTimeout (ce_elapsed env) (in_echoTokens inp), i)
     else buildLookupResponse s env req (rq_ModelId req) (rq_TenantId req)
          (applyLookupStrategyGates s
             (ce_lookupFn env (lookupRequest req inp (policyChainMatchingEnabled s (rq_TenantId req))))
             (rq_TenantId req)) (ce_elapsed env) inp i)"
    using tenant
    unfolding serviceLookupRoute_def Let_def empty_responses gate_def late_def short_def over_def inp_def
    by (simp only: if_False)
  consider "ce_err0 env \<or> gate \<or> late \<or> ce_err1 env \<or> in_failOpen inp \<or> short \<or> over"
    | "\<not> (ce_err0 env \<or> gate \<or> late \<or> ce_err1 env \<or> in_failOpen inp \<or> short \<or> over)" by blast
  then show ?thesis
  proof cases
    case 1
    then have "\<exists>reason d toks. reason \<in> {reasonTimeout, reasonNoHint, reasonPolicyRequiresChain} \<and>
        serviceLookupRoute hash s env req i = (emptyResponse (rq_ModelId req) reason d toks, i)"
      unfolding call by (simp split del: if_split) (auto split: if_splits)
    then show ?thesis using empty tenant by blast
  next
    case 2
    then have "\<not> in_failOpen inp" by simp
    moreover have "serviceLookupRoute hash s env req i =
        buildLookupResponse s env req (rq_ModelId req) (rq_TenantId req)
          (applyLookupStrategyGates s
             (ce_lookupFn env (lookupRequest req inp (policyChainMatchingEnabled s (rq_TenantId req))))
             (rq_TenantId req)) (ce_elapsed env) inp i"
      using 2 unfolding call by simp
    ultimately show ?thesis using build [OF tenant inp_def] by blast
  qed
qed

lemma service_observes: "observes (rq_ModelId req) (fst (serviceLookupRoute hash s env req i))"
proof (cases rule: service_cases [of req hash s env i])
  case probe
  then show ?thesis by (simp add: observes_def)
next
  case (empty reason d toks)
  then show ?thesis by simp
next
  case (build inp)
  then show ?thesis by (simp add: observes_build)
qed

subsection \<open>The floors\<close>

text \<open>A result as the index returns it: a replica at most once, hits only for scored replicas.\<close>

definition resultOk :: "LookupResult \<Rightarrow> bool" where
  "resultOk res \<longleftrightarrow>
     distinct (map sc_ReplicaID (res_Scores res)) \<and>
     fst ` set (res_hits res) \<subseteq> sc_ReplicaID ` set (res_Scores res)"

lemma resultOk_strategyOnly [simp]: "resultOk (strategyOnly st)"
  by (simp add: resultOk_def strategyOnly_def)

lemma strategyOnly_simps [simp]:
  "res_Scores (strategyOnly st) = []" "res_Strategy (strategyOnly st) = st" "res_hits (strategyOnly st) = []"
  by (simp_all add: strategyOnly_def)

lemma floor_fold:
  "fold (\<lambda>sc (keep, n). if f \<le> sc_MatchedTokens sc
      then (AList.update (sc_ReplicaID sc) True keep, Suc n) else (keep, n)) scs (keep, n) =
   (fold (\<lambda>sc. AList.update (sc_ReplicaID sc) True) (filter (\<lambda>sc. f \<le> sc_MatchedTokens sc) scs) keep,
    n + length (filter (\<lambda>sc. f \<le> sc_MatchedTokens sc) scs))"
  by (induction scs arbitrary: keep n) auto

lemma map_of_keep:
  "map_of (fold (\<lambda>sc. AList.update (sc_ReplicaID sc) True) scs keep) r = Some True \<longleftrightarrow>
     r \<in> sc_ReplicaID ` set scs \<or> map_of keep r = Some True"
  by (induction scs arbitrary: keep) (auto simp: gomap_simps)

definition aboveFloor :: "int \<Rightarrow> LookupResult \<Rightarrow> ReplicaScore list" where
  "aboveFloor f res = filter (\<lambda>sc. f \<le> sc_MatchedTokens sc) (res_Scores res)"

lemma filter_length_eq: "length (filter P xs) = length xs \<longleftrightarrow> (\<forall>x \<in> set xs. P x)"
  using length_filter_less [of _ xs P] filter_True [of xs P] by fastforce

lemma floor_result:
  assumes "resultOk res"
  shows "applyMatchedTokensFloor s res t =
    (let f = policyMinimumMatchedTokens s t
     in if f \<le> 0 \<or> res_Scores res = [] then res
        else if aboveFloor f res = [] then strategyOnly StrategyNone
        else res\<lparr>res_Scores := aboveFloor f res,
                 res_hits := filter (\<lambda>(r, _). r \<in> sc_ReplicaID ` set (aboveFloor f res)) (res_hits res)\<rparr>)"
proof -
  let ?f = "policyMinimumMatchedTokens s t" let ?ok = "aboveFloor (policyMinimumMatchedTokens s t) res"
  have keep: "sc_ReplicaID sc \<in> sc_ReplicaID ` set ?ok \<longleftrightarrow> ?f \<le> sc_MatchedTokens sc"
    if "sc \<in> set (res_Scores res)" for sc
    using that assms unfolding resultOk_def aboveFloor_def distinct_map by (auto dest: inj_onD)
  consider "?f \<le> 0 \<or> res_Scores res = []" | "0 < ?f" "res_Scores res \<noteq> []" "?ok = res_Scores res"
    | "0 < ?f" "res_Scores res \<noteq> []" "?ok = []" | "0 < ?f" "res_Scores res \<noteq> []" "?ok \<noteq> res_Scores res" "?ok \<noteq> []"
    by fastforce
  then show ?thesis
  proof cases
    case 1
    then show ?thesis by (auto simp: applyMatchedTokensFloor_def Let_def)
  next
    case 2
    have "filter (\<lambda>(r, _). r \<in> sc_ReplicaID ` set (res_Scores res)) (res_hits res) = res_hits res"
      using assms by (intro filter_True) (auto simp: resultOk_def)
    then show ?thesis using 2
      by (simp add: applyMatchedTokensFloor_def Let_def floor_fold aboveFloor_def [symmetric])
  next
    case 3
    then show ?thesis
      by (simp add: applyMatchedTokensFloor_def Let_def floor_fold aboveFloor_def [symmetric])
  next
    case 4
    have "length ?ok \<noteq> length (res_Scores res)"
      using 4(3) unfolding aboveFloor_def filter_length_eq by (metis filter_True)
    moreover have "filter (\<lambda>sc. sc_ReplicaID sc \<in> sc_ReplicaID ` set ?ok) (res_Scores res) = ?ok"
      unfolding aboveFloor_def [of ?f] using keep by (intro filter_cong) (simp_all add: aboveFloor_def)
    ultimately show ?thesis using 4
      by (simp add: applyMatchedTokensFloor_def Let_def floor_fold aboveFloor_def [symmetric]
          RetainReplicas_def map_of_keep)
  qed
qed

subsection \<open>What the index hands to the handler\<close>

lemma scaleScore_id [simp]: "sc_ReplicaID (scaleScore p sc) = sc_ReplicaID sc"
  by (simp add: scaleScore_def)

lemma distinct_map_mset: "mset (map f xs) = mset (map g ys) \<Longrightarrow> distinct (map f xs) \<longleftrightarrow> distinct (map g ys)"
  by (rule mset_eq_imp_distinct_iff)

lemma distinct_keys_filter: "gm_wf m \<Longrightarrow> distinct (map fst (filter P m))"
  by (simp add: gm_wf_def distinct_map_filter)

lemma distinct_lookup:
  assumes "prefix_inv i"
  shows "distinct (map sc_ReplicaID (fst (lookupWithHits i now req)))"
proof -
  let ?rs = "gm_map (prefixes i) (requestKey req (lr_PrefixHash req))"
  have "distinct (map sc_ReplicaID (fst (lookupExact i now req)))"
    using distinct_keys_filter [OF prefix_inv_inner [OF assms]]
    by (simp add: lookupExact_eq Let_def sortScoresDescByScoreThenID_def comp_def)
  moreover have "distinct (map sc_ReplicaID (fst (lookupChain i now req)))"
  proof -
    have "mset (map sc_ReplicaID (fst (lookupChain i now req))) = mset (map sc_ReplicaID (chainScores i now req))"
      by (simp add: lookupChain_eq sortScoresDescByScoreThenID_def mset_applyChain image_mset.compositionality comp_def)
    moreover have "distinct (map sc_ReplicaID (chainScores i now req))"
      using distinct_keys_filter [OF chainRuns_spec(2) [OF assms]] by (simp add: chainScores_def comp_def)
    ultimately show ?thesis using mset_eq_imp_distinct_iff by metis
  qed
  ultimately show ?thesis by (simp add: lookupWithHits_def)
qed

lemma gm_wf_warm: "gm_wf (warmReplicas i now req)"
proof -
  have "gm_wf acc \<Longrightarrow> gm_wf (fold (\<lambda>(rid, _) warm.
             (case map_of (stats i) (StatsKey (lr_Tenant req) (lr_Model req) rid) of
                None \<Rightarrow> warm
              | Some s \<Rightarrow>
                  (if TenantHotMaxAge (ranker i) \<le> time_sub now (se_statsReported s) then warm
                   else if flt_lt (rs_HitRate (se_stats s)) (TenantHotMinHitRate (ranker i)) then warm
                   else AList.update rid
                          \<lparr>wr_hitRate = rs_HitRate (se_stats s), wr_pressure = rs_Pressure (se_stats s),
                           wr_lastSeen = se_statsReported s\<rparr> warm))) m acc)" for m :: "(string, unit) gomap" and acc
    by (induction m arbitrary: acc) (auto split: option.splits)
  then show ?thesis by (simp add: warmReplicas_def)
qed

lemma distinct_hot: "distinct (map sc_ReplicaID (tenantHotCandidates i now req))"
proof -
  have "map sc_ReplicaID (concat (map (\<lambda>(rid, w). if z rid then [] else [hotScore i now req rid w]) m)) =
      map fst (filter (\<lambda>(rid, _). \<not> z rid) m)" for z and m
    by (induction m) (auto simp: hotScore_def Let_def)
  then show ?thesis
    using distinct_keys_filter [OF gm_wf_warm] by (simp add: tenantHotCandidates_def Let_def)
qed

lemma gm_wf_hits: "gm_wf (snd (lookupWithHits i now req))"
proof -
  have "gm_wf hits \<Longrightarrow> gm_wf (snd (fold (exactStep i req now) rs (scores, hits)))" for rs scores hits
    by (induction rs arbitrary: scores hits) (auto simp: exactStep_def Let_def)
  moreover have "gm_wf hits \<Longrightarrow> gm_wf (snd (fold (chainStep i req now) rs (scores, hits)))" for rs scores hits
    by (induction rs arbitrary: scores hits) (auto simp: chainStep_def Let_def)
  ultimately show ?thesis by (simp add: lookupWithHits_def lookupExact_eq lookupChain_eq Let_def)
qed

lemma hits_subset:
  assumes "prefix_inv i"
  shows "fst ` set (snd (lookupWithHits i now req)) \<subseteq> sc_ReplicaID ` set (fst (lookupWithHits i now req))"
  using hits_scored [OF assms, of now req] map_of_gm_wf [OF gm_wf_hits, of i now req] by fastforce

lemma route_cases:
  obtains (matched) scores hits where "lookupWithHits i1 now1 req = (scores, hits)" "scores \<noteq> []"
      "lr_Tenant req \<noteq> []" "lr_Model req \<noteq> []" "lr_HashScheme req \<noteq> []"
      "LookupRouteAt i1 i2 i3 now1 now2 req =
        \<lparr>res_Scores = scores, res_Strategy = StrategyPrefixMatch, res_hits = hits\<rparr>"
  | (hot) "tenantHotCandidates i2 now2 req \<noteq> []" "lr_BlockHashes req = []" "lr_BlockTokenCounts req = []"
      "LookupRouteAt i1 i2 i3 now1 now2 req =
        \<lparr>res_Scores = tenantHotCandidates i2 now2 req, res_Strategy = StrategyTenantHot, res_hits = []\<rparr>"
  | (miss) "LookupRouteAt i1 i2 i3 now1 now2 req \<in> {strategyOnly StrategyNone, strategyOnly (classifyMiss i3 req)}"
proof -
  obtain scores hits where sh: "lookupWithHits i1 now1 req = (scores, hits)" by fastforce
  show ?thesis
  proof (cases "lr_Tenant req = [] \<or> lr_Model req = [] \<or> lr_HashScheme req = [] \<or>
      length (lr_BlockHashes req) \<noteq> length (lr_BlockTokenCounts req)")
    case True
    then have "LookupRouteAt i1 i2 i3 now1 now2 req = strategyOnly StrategyNone"
      by (cases "lr_BlockHashes req = [] \<and> lr_BlockTokenCounts req = []") (auto simp: LookupRouteAt_def)
    then show ?thesis using miss by simp
  next
    case False
    show ?thesis
    proof (cases "scores = []")
      case True
      show ?thesis
      proof (cases "lr_BlockHashes req = [] \<and> tenantHotCandidates i2 now2 req \<noteq> []")
        case warm: True
        then have "lr_BlockTokenCounts req = []" using False by simp
        then show ?thesis using warm False sh True by (intro hot) (simp_all add: LookupRouteAt_def Let_def)
      next
        case cold: False
        have "lr_BlockTokenCounts req = [] \<longleftrightarrow> lr_BlockHashes req = []" using False by (metis length_0_conv)
        then have "LookupRouteAt i1 i2 i3 now1 now2 req = strategyOnly (classifyMiss i3 req)"
          using cold False sh True
          by (cases "lr_BlockHashes req = []") (simp_all add: LookupRouteAt_def Let_def)
        then show ?thesis using miss by simp
      qed
    next
      case scores: False
      then show ?thesis using False sh matched [OF sh] by (simp add: LookupRouteAt_def Let_def)
    qed
  qed
qed

lemma resultOk_route:
  assumes "prefix_inv i1"
  shows "resultOk (LookupRouteAt i1 i2 i3 now1 now2 req)"
proof (cases rule: route_cases [of i1 now1 req i2 i3 now2])
  case (matched scores hits)
  then show ?thesis using distinct_lookup [OF assms, of now1 req] hits_subset [OF assms, of now1 req]
    by (simp add: resultOk_def)
next
  case hot
  then show ?thesis using distinct_hot by (simp add: resultOk_def)
next
  case miss
  then show ?thesis by auto
qed

lemma classifyMiss_range [simp]:
  "classifyMiss i req \<noteq> StrategyPrefixMatch" "classifyMiss i req \<noteq> StrategyTenantHot"
  by (simp_all add: classifyMiss_def)

lemma route_prefix_scores:
  "res_Strategy (LookupRouteAt i1 i2 i3 now1 now2 req) = StrategyPrefixMatch \<Longrightarrow>
     res_Scores (LookupRouteAt i1 i2 i3 now1 now2 req) \<noteq> []"
  by (cases rule: route_cases [of i1 now1 req i2 i3 now2]) auto

lemma route_scores_strategy:
  "res_Scores (LookupRouteAt i1 i2 i3 now1 now2 req) \<noteq> [] \<longleftrightarrow>
     res_Strategy (LookupRouteAt i1 i2 i3 now1 now2 req) \<in> {StrategyPrefixMatch, StrategyTenantHot}"
  by (cases rule: route_cases [of i1 now1 req i2 i3 now2]) auto

subsection \<open>The result-side stages\<close>

text \<open>A downgrade drops scores and hits together; what is kept is a part of the result.\<close>

definition trimmed :: "LookupResult \<Rightarrow> LookupResult \<Rightarrow> bool" where
  "trimmed res res' \<longleftrightarrow>
     res' = strategyOnly StrategyNone \<or>
     res_Strategy res' = res_Strategy res \<and> set (res_Scores res') \<subseteq> set (res_Scores res) \<and>
     set (res_hits res') \<subseteq> set (res_hits res) \<and> (res_Scores res \<noteq> [] \<longrightarrow> res_Scores res' \<noteq> [])"

lemma trimmed_refl [simp]: "trimmed res res"
  by (simp add: trimmed_def)

lemma trimmed_None [simp]: "trimmed res (strategyOnly StrategyNone)"
  by (simp add: trimmed_def)

lemma trimmed_trans: "trimmed a b \<Longrightarrow> trimmed b c \<Longrightarrow> trimmed a c"
  by (auto simp: trimmed_def)

lemma trimmed_floor: "resultOk res \<Longrightarrow> trimmed res (applyMatchedTokensFloor s res t) \<and> resultOk (applyMatchedTokensFloor s res t)"
proof -
  assume ok: "resultOk res"
  then have d: "distinct (map sc_ReplicaID (aboveFloor f res))" for f
    by (simp add: resultOk_def aboveFloor_def distinct_map_filter)
  show ?thesis
    unfolding floor_result [OF ok]
    using ok d by (auto simp: Let_def trimmed_def resultOk_def aboveFloor_def)
qed

lemma stages_trimmed:
  assumes "resultOk res"
  shows "trimmed res (resultStages s t inp res)" and "resultOk (resultStages s t inp res)"
proof -
  define r1 where "r1 = prefixGate s t inp res"
  define r2 where "r2 = (if res_Strategy r1 = StrategyPrefixMatch then applyMatchedTokensFloor s r1 t else r1)"
  have 1: "trimmed res r1" "resultOk r1" using assms by (auto simp: r1_def prefixGate_def Let_def)
  have 2: "trimmed r1 r2" "resultOk r2" using trimmed_floor [OF 1(2)] 1(2) by (auto simp: r2_def)
  have 3: "trimmed r2 (scoreFloor s t r2)" "resultOk (scoreFloor s t r2)"
    using 2(2) by (auto simp: scoreFloor_def Let_def)
  have "resultStages s t inp res = scoreFloor s t r2"
    by (simp only: resultStages_def Let_def r1_def r2_def)
  then show "trimmed res (resultStages s t inp res)" "resultOk (resultStages s t inp res)"
    using 3 trimmed_trans [OF trimmed_trans [OF 1(1) 2(1)] 3(1)] by simp_all
qed

text \<open>A match that passes the stages clears the gate and both floors.\<close>

lemma stages_floors:
  assumes "resultOk res" and "res_Strategy (resultStages s t inp res) = StrategyPrefixMatch"
    and "res_Scores res \<noteq> []"
  defines "res' \<equiv> resultStages s t inp res"
  shows "\<forall>sc \<in> set (res_Scores res'). policyMinimumMatchedTokens s t \<le> sc_MatchedTokens sc \<or>
      policyMinimumMatchedTokens s t \<le> 0"
    and "\<not> flt_lt (Fin 0) (policyRoutingFloorScore s t) \<or>
      \<not> flt_lt (sc_Score (hd (res_Scores res'))) (policyRoutingFloorScore s t)"
    and "policyMinimumPrefixTokens s t \<le> 0 \<or>
      policyMinimumPrefixTokens s t \<le> effectivePrefixTokens (in_blockTokenCounts inp) (in_exactTokenCount inp)"
    and "res_Scores res' \<noteq> []"
proof -
  define r1 where "r1 = prefixGate s t inp res"
  define r2 where "r2 = (if res_Strategy r1 = StrategyPrefixMatch then applyMatchedTokensFloor s r1 t else r1)"
  have res': "res' = scoreFloor s t r2"
    by (simp only: res'_def resultStages_def Let_def r1_def r2_def)
  have st: "res_Strategy res' = StrategyPrefixMatch" using assms(2) by (simp add: res'_def)
  then have "res' = r2" unfolding res' by (auto simp: scoreFloor_def Let_def split: if_splits)
  with st have r2: "res_Strategy r2 = StrategyPrefixMatch" by simp
  have r1: "res_Strategy r1 = StrategyPrefixMatch" using r2 by (auto simp: r2_def split: if_splits)
  then have "r1 = res" and gate: "policyMinimumPrefixTokens s t \<le> 0 \<or>
      policyMinimumPrefixTokens s t \<le> effectivePrefixTokens (in_blockTokenCounts inp) (in_exactTokenCount inp)"
    by (auto simp: r1_def prefixGate_def Let_def not_less split: if_splits)
  have fl: "r2 = applyMatchedTokensFloor s res t" using r1 \<open>r1 = res\<close> by (simp add: r2_def)
  show "\<forall>sc \<in> set (res_Scores res'). policyMinimumMatchedTokens s t \<le> sc_MatchedTokens sc \<or>
      policyMinimumMatchedTokens s t \<le> 0"
    using r2 unfolding \<open>res' = r2\<close> fl floor_result [OF assms(1)]
    by (auto simp: Let_def aboveFloor_def split: if_splits)
  show ne: "res_Scores res' \<noteq> []"
    using trimmed_floor [OF assms(1), of s t] assms(3) r2 unfolding \<open>res' = r2\<close> fl by (auto simp: trimmed_def)
  show "\<not> flt_lt (Fin 0) (policyRoutingFloorScore s t) \<or>
      \<not> flt_lt (sc_Score (hd (res_Scores res'))) (policyRoutingFloorScore s t)"
  proof (rule ccontr)
    assume "\<not> ?thesis"
    then have "scoreFloor s t r2 = strategyOnly StrategyNone"
      using r2 ne by (simp add: scoreFloor_def Let_def hd_conv_nth \<open>res' = r2\<close>)
    then show False using st res' by simp
  qed
  show "policyMinimumPrefixTokens s t \<le> 0 \<or>
      policyMinimumPrefixTokens s t \<le> effectivePrefixTokens (in_blockTokenCounts inp) (in_exactTokenCount inp)"
    by (fact gate)
qed

subsection \<open>Which entries a call credits\<close>

lemma runOn_entries:
  "set (run_entries (runOn lfu lk st bs)) \<subseteq> set (run_entries st) \<union> {re_id e | h e. lk h = Some e}"
proof (induction lfu lk st bs rule: runOn.induct)
  case (2 lfu lk st h n bs)
  show ?case
  proof (cases "lk h")
    case (Some e)
    have "set (run_entries (extendRun lfu st e n)) \<subseteq> set (run_entries st) \<union> {re_id e | h e. lk h = Some e}"
      using Some by (auto simp: extendRun_def)
    then show ?thesis using "2.IH" [OF Some] Some by (simp; blast)
  qed simp
qed simp

lemma runOf_entries:
  "runOf i req now r = Some st \<Longrightarrow> n \<in> set (run_entries st) \<Longrightarrow> \<exists>h e. look i req now r h = Some e \<and> re_id e = n"
  using runOn_entries
  by (fastforce simp: runOf_def Let_def startRun_def split: list.splits prod.splits option.splits if_splits)

lemma look_held: "look i req now r h = Some e \<Longrightarrow> held i (requestKey req h) r = Some e \<and> freshFor i req now e"
  by (auto simp: look_def split: option.splits if_splits)

lemma hits_entries:
  assumes "prefix_inv i" and "(r, es) \<in> set (snd (lookupWithHits i now req))" and "n \<in> set es"
  shows "\<exists>h e. held i (requestKey req h) r = Some e \<and> freshFor i req now e \<and> re_id e = n"
proof -
  have m: "map_of (snd (lookupWithHits i now req)) r = Some es"
    using assms(2) map_of_gm_wf [OF gm_wf_hits] by simp
  have "lookupWithHits i now req = ([], []) \<or> lookupWithHits i now req = lookupChain i now req \<or>
      lookupWithHits i now req = lookupExact i now req"
    by (simp add: lookupWithHits_def)
  then consider "lookupWithHits i now req = ([], [])" | "lookupWithHits i now req = lookupChain i now req"
    | "lookupWithHits i now req = lookupExact i now req" by blast
  then show ?thesis
  proof cases
    case 1
    then show ?thesis using m by simp
  next
    case 2
    then obtain st where "runOf i req now r = Some st" "es = run_entries st"
      using m chainStep_hits [OF chainRuns_spec(2) [OF assms(1)], of i req now now req "[]" "[]" r]
        chainRuns_spec(1) [OF assms(1), of now req r]
      by (auto simp: lookupChain_eq split: option.splits if_splits)
    then show ?thesis using runOf_entries assms(3) look_held by blast
  next
    case 3
    let ?rs = "gm_map (prefixes i) (requestKey req (lr_PrefixHash req))"
    obtain e where "map_of ?rs r = Some e" "freshFor i req now e" "es = [re_id e]"
      using m exactStep_hits [OF prefix_inv_inner [OF assms(1)], of _ "[]" i req now "[]" r] 3
      by (auto simp: lookupExact_eq Let_def split: option.splits if_splits)
    then show ?thesis using assms(3) by auto
  qed
qed

lemma trimmed_gates: "trimmed res (applyLookupStrategyGates s res t)"
  by (simp add: applyLookupStrategyGates_def)

lemma resultOk_gates: "resultOk res \<Longrightarrow> resultOk (applyLookupStrategyGates s res t)"
  by (simp add: applyLookupStrategyGates_def)

text \<open>The delivered result of a call that consulted the states \<open>i1\<close>, \<open>i2\<close>, \<open>i3\<close>.\<close>

definition delivered ::
  "inferenceCacheService \<Rightarrow> LookupRouteRequest \<Rightarrow> lookupInputs \<Rightarrow> LookupResult \<Rightarrow> LookupResult" where
  "delivered s req inp res =
     resultStages s (rq_TenantId req) inp (applyLookupStrategyGates s res (rq_TenantId req))"

lemma delivered_ok:
  assumes "resultOk res"
  shows "trimmed res (delivered s req inp res)" and "resultOk (delivered s req inp res)"
  unfolding delivered_def
  by (rule trimmed_trans [OF trimmed_gates stages_trimmed(1)] stages_trimmed(2); rule resultOk_gates [OF assms])+

lemma delivered_hits:
  assumes "prefix_inv i1" and "res = LookupRouteAt i1 i2 i3 now1 now2 lreq"
    and "n \<in> set (creditedIds (delivered s req inp res))"
  obtains h r e where "held i1 (requestKey lreq h) r = Some e" and "re_id e = n"
    and "r \<in> sc_ReplicaID ` set (res_Scores (delivered s req inp res))"
    and "res_Strategy (delivered s req inp res) = StrategyPrefixMatch"
proof -
  let ?d = "delivered s req inp res"
  have ok: "resultOk res" using resultOk_route [OF assms(1)] by (simp add: assms(2))
  obtain r es where res: "(r, es) \<in> set (res_hits ?d)" "n \<in> set es"
    using assms(3) by (auto simp: creditedIds_def)
  have "?d \<noteq> strategyOnly StrategyNone" using res(1) by auto
  then have sub: "set (res_hits ?d) \<subseteq> set (res_hits res)" and st: "res_Strategy ?d = res_Strategy res"
    using delivered_ok(1) [OF ok, of s req inp] by (auto simp: trimmed_def)
  have hit: "(r, es) \<in> set (res_hits res)" using res(1) sub by blast
  then obtain scores hits where m: "lookupWithHits i1 now1 lreq = (scores, hits)"
      "res = \<lparr>res_Scores = scores, res_Strategy = StrategyPrefixMatch, res_hits = hits\<rparr>"
    unfolding assms(2) by (cases rule: route_cases [of i1 now1 lreq i2 i3 now2]) auto
  then have "(r, es) \<in> set (snd (lookupWithHits i1 now1 lreq))" using hit by simp
  then obtain h e where "held i1 (requestKey lreq h) r = Some e" "re_id e = n"
    using hits_entries [OF assms(1) _ res(2)] by blast
  moreover have "r \<in> sc_ReplicaID ` set (res_Scores ?d)"
    using delivered_ok(2) [OF ok, of s req inp] res(1) by (force simp: resultOk_def)
  ultimately show ?thesis using that st m(2) by simp
qed

lemma requestKey_lookupRequest:
  "requestKey (lookupRequest req inp b) h =
     PrefixKey (rq_TenantId req) (rq_ModelId req) (rq_HashScheme req) (rq_AdapterId req) h"
  by (simp add: requestKey_def lookupRequest_def)

lemma service_credit:
  assumes "reachable i1" and "later i1 i" and "ce_lookupFn env = LookupRouteAt i1 i2 i3 now1 now2"
    and "serviceLookupRoute hash s env req i = ((resp, obs), i')" and "held i' k r \<noteq> held i k r"
  shows "rp_ReasonCode resp = reasonPrefixMatch" and "r \<in> ps_ReplicaId ` set (rp_ReplicaScores resp)"
    and "\<exists>h. k = PrefixKey (rq_TenantId req) (rq_ModelId req) (rq_HashScheme req) (rq_AdapterId req) h"
proof -
  have inv1: "prefix_inv i1" and keeps: "keepsIds i1 i"
    using reachable_prefix_inv [OF assms(1)] later_spec [OF assms(2,1)] by simp_all
  define b where "b = policyChainMatchingEnabled s (rq_TenantId req)"
  define inp where "inp = resolveLookupChain hash s env req b"
  define res where "res = LookupRouteAt i1 i2 i3 now1 now2 (lookupRequest req inp b)"
  let ?d = "delivered s req inp res"
  have "serviceLookupRoute hash s env req i =
      (resultAnswer req (rq_ModelId req) ?d (ce_elapsed env) inp, CreditHits ?d i)"
    using assms(4,5)
  proof (cases rule: service_cases [of req hash s env i])
    case (build inp')
    have "inp' = inp" by (simp add: build(2) inp_def b_def)
    with build(3) have "serviceLookupRoute hash s env req i =
      buildLookupResponse s env req (rq_ModelId req) (rq_TenantId req)
        (applyLookupStrategyGates s res (rq_TenantId req)) (ce_elapsed env) inp i"
      by (simp add: res_def b_def assms(3))
    then show ?thesis using assms(4,5)
      by (cases rule: build_cases [of s "rq_TenantId req" inp "applyLookupStrategyGates s res (rq_TenantId req)"
            env req "rq_ModelId req" "ce_elapsed env" i]) (auto simp: delivered_def)
  qed (auto simp: emptyResponse_def)
  then have resp: "resp = fst (resultAnswer req (rq_ModelId req) ?d (ce_elapsed env) inp)" and i': "i' = CreditHits ?d i"
    using assms(4) by (simp_all, metis fst_conv)
  obtain e where e: "held i k r = Some e" "bumpBy (int (count_list (creditedIds ?d) (re_id e))) e \<noteq> e"
    using assms(5) unfolding i' held_CreditHits by (cases "held i k r") auto
  have "re_id e \<in> set (creditedIds ?d)"
  proof (rule ccontr)
    assume "re_id e \<notin> set (creditedIds ?d)"
    then show False using e(2) by (simp add: bumpBy_def count_notin)
  qed
  then obtain h r0 e0 where h: "held i1 (requestKey (lookupRequest req inp b) h) r0 = Some e0" "re_id e0 = re_id e"
    and r0: "r0 \<in> sc_ReplicaID ` set (res_Scores ?d)" and st: "res_Strategy ?d = StrategyPrefixMatch"
    using delivered_hits [OF inv1 res_def] by blast
  have "re_id e < nextEntry i1" using held_id_bound [OF inv1 h(1)] h(2) by simp
  then obtain e1 where "held i1 k r = Some e1" "re_id e1 = re_id e"
    using keeps e(1) unfolding keepsIds_def by blast
  then have kr: "k = requestKey (lookupRequest req inp b) h" "r = r0"
    using held_id_unique [OF inv1 _ h(1)] h(2) by simp_all
  show "rp_ReasonCode resp = reasonPrefixMatch" by (simp add: resp resultAnswer_def st reasonForStrategy_def)
  show "r \<in> ps_ReplicaId ` set (rp_ReplicaScores resp)"
    using r0 kr(2) by (force simp: resp resultAnswer_def scoreToProto_def)
  show "\<exists>h. k = PrefixKey (rq_TenantId req) (rq_ModelId req) (rq_HashScheme req) (rq_AdapterId req) h"
    using kr(1) by (auto simp: requestKey_lookupRequest)
qed

subsection \<open>What a response means\<close>

lemma lookup_sound:
  assumes "prefix_inv i" and "s \<in> set (fst (lookupWithHits i now req))"
  shows "\<exists>h e. held i (requestKey req h) (sc_ReplicaID s) = Some e \<and> freshFor i req now e"
proof -
  have "fst (lookupWithHits i now req) = [] \<or> lookupWithHits i now req = lookupChain i now req \<or>
      lookupWithHits i now req = lookupExact i now req"
    by (simp add: lookupWithHits_def)
  then consider "lookupWithHits i now req = lookupChain i now req" | "lookupWithHits i now req = lookupExact i now req"
    using assms(2) by auto
  then show ?thesis
  proof cases
    case 1
    then obtain rid st where "runOf i req now rid = Some st" "sc_ReplicaID s = rid"
      using assms(2) by (auto simp: set_lookupChain set_chainScores [OF assms(1)])
    then obtain b bs where "leadOf i req now (sc_ReplicaID s) = b # bs"
      using runOf_None [of i req now rid] by (cases "leadOf i req now rid") auto
    then have "look i req now (sc_ReplicaID s) (fst b) \<noteq> None"
      unfolding leadOf_def leadingRun_def by (metis (mono_tags, lifting) case_prod_beta list.set_intros(1) set_takeWhileD)
    then show ?thesis using look_held by blast
  next
    case 2
    then show ?thesis using lookupExact_score [OF assms(1)] assms(2) by metis
  qed
qed

text \<open>The delivered answer of a call that was not cut short before the lookup.\<close>

lemma service_answer:
  assumes "ce_lookupFn env = LookupRouteAt i1 i2 i3 now1 now2"
    and "serviceLookupRoute hash s env req i = ((resp, obs), i')"
  obtains (blank) "rp_ReplicaScores resp = []" "i' = i"
      "rp_ReasonCode resp \<in> {reasonTimeout, reasonNoHint, reasonPolicyRequiresChain}"
  | (affinity) rid seed inp where "rp_ReasonCode resp = reasonAffinityHint" "i' = i"
      "map ps_ReplicaId (rp_ReplicaScores resp) = [rid]" "canonicalAffinitySeed inp = Some seed"
      "ce_affinity env (rq_TenantId req) (rq_ModelId req) (rq_HashScheme req) seed = Some rid"
      "rq_TenantId req \<noteq> ProbeTenantID"
  | (result) inp b where "inp = resolveLookupChain hash s env req b" "b = policyChainMatchingEnabled s (rq_TenantId req)"
      "resp = fst (resultAnswer req (rq_ModelId req) (delivered s req inp
         (LookupRouteAt i1 i2 i3 now1 now2 (lookupRequest req inp b))) (ce_elapsed env) inp)"
      "rq_TenantId req \<noteq> ProbeTenantID"
proof (cases rule: service_cases [of req hash s env i])
  case probe
  then show ?thesis using assms(2) blank by auto
next
  case (empty reason d toks)
  then show ?thesis using assms(2) blank by (auto simp: emptyResponse_def)
next
  case (build inp)
  define b where "b = policyChainMatchingEnabled s (rq_TenantId req)"
  note call = build(3) [folded b_def, unfolded assms(1)]
  show ?thesis
  proof (cases rule: build_cases [of s "rq_TenantId req" inp "applyLookupStrategyGates s
      (LookupRouteAt i1 i2 i3 now1 now2 (lookupRequest req inp b)) (rq_TenantId req)"
      env req "rq_ModelId req" "ce_elapsed env" i])
    case (affinity a)
    then have a: "(resp, obs) = a" "i' = i" using call assms(2) by simp_all
    show ?thesis using affinity(2) that(2) build(1) a
      by (auto simp: tryAffinityResponse_def split: if_splits option.splits)
  next
    case result
    then have "(resp, obs) = resultAnswer req (rq_ModelId req) (delivered s req inp
         (LookupRouteAt i1 i2 i3 now1 now2 (lookupRequest req inp b))) (ce_elapsed env) inp"
      using call assms(2) by (simp add: delivered_def)
    then show ?thesis using that(3) [OF build(2) [folded b_def] b_def _ build(1)] by (metis fst_conv)
  qed
qed

definition contractReasons :: "string set" where
  "contractReasons = {reasonPrefixMatch, reasonTenantHot, reasonAffinityHint, reasonNoHint, reasonTimeout,
     reasonPolicyRequiresChain, reasonUnknownTenant, reasonUnknownModel, reasonUnknownHashScheme}"

definition hintReasons :: "string set" where
  "hintReasons = {reasonPrefixMatch, reasonTenantHot, reasonAffinityHint}"

lemma reason_hint:
  "reasonForStrategy st \<in> contractReasons"
  "reasonForStrategy st \<in> hintReasons \<longleftrightarrow> st \<in> {StrategyPrefixMatch, StrategyTenantHot}"
  "reasonForStrategy st = reasonPrefixMatch \<longleftrightarrow> st = StrategyPrefixMatch"
  "reasonForStrategy st \<noteq> reasonAffinityHint"
  by (cases st; simp add: reasonForStrategy_def contractReasons_def hintReasons_def reason_defs)+

lemma delivered_strategy:
  assumes "prefix_inv i1" and "res = LookupRouteAt i1 i2 i3 now1 now2 lreq"
  shows "res_Scores (delivered s req inp res) \<noteq> [] \<longleftrightarrow>
    res_Strategy (delivered s req inp res) \<in> {StrategyPrefixMatch, StrategyTenantHot}"
proof -
  have "resultOk res" using resultOk_route [OF assms(1)] by (simp add: assms(2))
  from delivered_ok(1) [OF this, of s req inp] show ?thesis
    using route_scores_strategy [of i1 i2 i3 now1 now2 lreq] unfolding trimmed_def assms(2) by fastforce
qed

lemma service_vocabulary:
  assumes "prefix_inv i1" and "ce_lookupFn env = LookupRouteAt i1 i2 i3 now1 now2"
    and "serviceLookupRoute hash s env req i = ((resp, obs), i')"
  shows "rp_ReasonCode resp \<in> contractReasons"
    and "rp_ReplicaScores resp \<noteq> [] \<longleftrightarrow> rp_ReasonCode resp \<in> hintReasons"
proof -
  have "rp_ReasonCode resp \<in> contractReasons \<and> (rp_ReplicaScores resp \<noteq> [] \<longleftrightarrow> rp_ReasonCode resp \<in> hintReasons)"
    using assms(2,3)
  proof (cases rule: service_answer)
    case blank
    then show ?thesis by (auto simp: contractReasons_def hintReasons_def reason_defs)
  next
    case (affinity rid seed inp)
    then show ?thesis by (auto simp: contractReasons_def hintReasons_def)
  next
    case (result inp b)
    then show ?thesis using delivered_strategy [OF assms(1) refl] by (simp add: resultAnswer_def reason_hint)
  qed
  then show "rp_ReasonCode resp \<in> contractReasons" "rp_ReplicaScores resp \<noteq> [] \<longleftrightarrow> rp_ReasonCode resp \<in> hintReasons"
    by blast+
qed

lemma service_match:
  assumes "prefix_inv i1" and "ce_lookupFn env = LookupRouteAt i1 i2 i3 now1 now2"
    and "serviceLookupRoute hash s env req i = ((resp, obs), i')"
    and "rp_ReasonCode resp = reasonPrefixMatch" and "sc \<in> set (rp_ReplicaScores resp)"
  shows "policyMinimumMatchedTokens s (rq_TenantId req) \<le> 0 \<or>
      policyMinimumMatchedTokens s (rq_TenantId req) \<le> ps_MatchedTokens sc"
    and "\<not> flt_lt (Fin 0) (policyRoutingFloorScore s (rq_TenantId req)) \<or>
      \<not> flt_lt (ps_Score (hd (rp_ReplicaScores resp))) (policyRoutingFloorScore s (rq_TenantId req))"
    and "\<exists>h e. held i1 (PrefixKey (rq_TenantId req) (rq_ModelId req) (rq_HashScheme req) (rq_AdapterId req) h)
        (ps_ReplicaId sc) = Some e \<and>
      \<not> flt_le (freshnessAt now1 (re_lastSeen e) (ttlFor i1 (rq_TenantId req))) (Fin 0)"
    and "rq_TenantId req \<noteq> ProbeTenantID"
proof -
  from assms(2,3) obtain inp b where
      resp: "resp = fst (resultAnswer req (rq_ModelId req) (delivered s req inp
         (LookupRouteAt i1 i2 i3 now1 now2 (lookupRequest req inp b))) (ce_elapsed env) inp)"
      and ten: "rq_TenantId req \<noteq> ProbeTenantID"
    by (cases rule: service_answer) (use assms(4) in \<open>auto simp: reason_defs\<close>)
  define res where "res = LookupRouteAt i1 i2 i3 now1 now2 (lookupRequest req inp b)"
  let ?d = "delivered s req inp res"
  have ok: "resultOk res" using resultOk_route [OF assms(1)] by (simp add: res_def)
  have st: "res_Strategy ?d = StrategyPrefixMatch"
    using assms(4) by (simp add: resp res_def resultAnswer_def reason_hint)
  have trim: "res_Strategy res = StrategyPrefixMatch" "set (res_Scores ?d) \<subseteq> set (res_Scores res)"
    using delivered_ok(1) [OF ok, of s req inp] st by (auto simp: trimmed_def)
  then have ne: "res_Scores res \<noteq> []" unfolding res_def by (intro route_prefix_scores) simp
  have gates: "applyLookupStrategyGates s res (rq_TenantId req) = res"
    using trim(1) by (simp add: applyLookupStrategyGates_def)
  note fl = stages_floors [OF ok _ ne, of s "rq_TenantId req" inp]
  obtain sc' where sc': "sc' \<in> set (res_Scores ?d)" "sc = scoreToProto sc'"
    using assms(5) by (auto simp: resp res_def resultAnswer_def)
  have d: "?d = resultStages s (rq_TenantId req) inp res" by (simp add: delivered_def gates)
  show "policyMinimumMatchedTokens s (rq_TenantId req) \<le> 0 \<or>
      policyMinimumMatchedTokens s (rq_TenantId req) \<le> ps_MatchedTokens sc"
    using fl(1) st sc' by (auto simp: d scoreToProto_def)
  have "hd (rp_ReplicaScores resp) = scoreToProto (hd (res_Scores ?d))"
    using sc'(1) by (cases "res_Scores ?d") (auto simp: resp res_def resultAnswer_def)
  then show "\<not> flt_lt (Fin 0) (policyRoutingFloorScore s (rq_TenantId req)) \<or>
      \<not> flt_lt (ps_Score (hd (rp_ReplicaScores resp))) (policyRoutingFloorScore s (rq_TenantId req))"
    using fl(2) st by (simp add: d scoreToProto_def)
  obtain scores hits where "lookupWithHits i1 now1 (lookupRequest req inp b) = (scores, hits)" "res_Scores res = scores"
    using trim(1) unfolding res_def
    by (cases rule: route_cases [of i1 now1 "lookupRequest req inp b" i2 i3 now2]) auto
  then have "sc' \<in> set (fst (lookupWithHits i1 now1 (lookupRequest req inp b)))" using sc'(1) trim(2) by auto
  then obtain h e where "held i1 (requestKey (lookupRequest req inp b) h) (sc_ReplicaID sc') = Some e"
      "freshFor i1 (lookupRequest req inp b) now1 e"
    using lookup_sound [OF assms(1)] by blast
  then show "\<exists>h e. held i1 (PrefixKey (rq_TenantId req) (rq_ModelId req) (rq_HashScheme req) (rq_AdapterId req) h)
        (ps_ReplicaId sc) = Some e \<and>
      \<not> flt_le (freshnessAt now1 (re_lastSeen e) (ttlFor i1 (rq_TenantId req))) (Fin 0)"
    unfolding requestKey_lookupRequest freshFor_def sc'(2) by (auto simp: scoreToProto_def lookupRequest_def)
  show "rq_TenantId req \<noteq> ProbeTenantID" by (fact ten)
qed

subsection \<open>The affinity seed\<close>

definition seedBytes :: "string list \<Rightarrow> string" where
  "seedBytes bh = concat (map (\<lambda>b. be_bytes 4 (int (length b) mod 2 ^ 32) @ b) bh)"

lemma seedBytes_inj:
  assumes "\<forall>b \<in> set xs. length b < 2 ^ 32" and "\<forall>b \<in> set ys. length b < 2 ^ 32" and "seedBytes xs = seedBytes ys"
  shows "xs = ys"
  using assms
proof (induction xs arbitrary: ys)
  case Nil
  then have "length (seedBytes ys) = 0" by (simp add: seedBytes_def)
  then show ?case by (cases ys) (simp_all add: seedBytes_def)
next
  case (Cons x xs)
  have "ys \<noteq> []" using Cons.prems(3) by (auto simp: seedBytes_def dest: arg_cong [where f = length])
  then obtain y ys' where ys: "ys = y # ys'" by (cases ys) auto
  have "be_bytes 4 (int (length x) mod 2 ^ 32) @ x @ seedBytes xs =
      be_bytes 4 (int (length y) mod 2 ^ 32) @ y @ seedBytes ys'"
    using Cons.prems(3) by (simp add: ys seedBytes_def)
  then have eq: "be_bytes 4 (int (length x) mod 2 ^ 32) = be_bytes 4 (int (length y) mod 2 ^ 32)"
      "x @ seedBytes xs = y @ seedBytes ys'"
    by (simp_all add: append_eq_append_conv)
  have small: "length x < 2 ^ 32" "length y < 2 ^ 32" using Cons.prems ys by auto
  have "int (length x) mod 2 ^ 32 = int (length y) mod 2 ^ 32"
    by (rule be_bytes_inj [OF _ _ _ _ eq(1)]) (simp_all add: pos_mod_bound)
  then have "length x = length y" using small by simp
  then have "x = y" "seedBytes xs = seedBytes ys'" using eq(2) by (simp_all add: append_eq_append_conv)
  then show ?case using Cons.IH [of ys'] Cons.prems(1,2) ys by simp
qed

subsection \<open>Wire translations\<close>

lemma tier_round_trip:
  "cacheTierToProto (normalizeIngestTier (cacheTierFromProto t)) =
     (if t = 0 \<or> t = 1 then 1 else if t = 2 then 2 else if t = 3 then 3 else 0)"
  by (simp add: cacheTierToProto_def normalizeIngestTier_def cacheTierFromProto_def tierInvalidCold_def)

lemma tier_stored_positive: "0 < normalizeIngestTier (cacheTierFromProto t)"
  by (simp add: normalizeIngestTier_def cacheTierFromProto_def tierInvalidCold_def)

lemma tier_invalid_coldest:
  "t < 0 \<Longrightarrow> is_int32 t' \<Longrightarrow>
     worstTier (normalizeIngestTier (cacheTierFromProto t)) (normalizeIngestTier (cacheTierFromProto t')) = tierInvalidCold"
  by (simp add: worstTier_def normalizeIngestTier_def cacheTierFromProto_def tierInvalidCold_def is_int32_def)

subsection \<open>The writing handlers\<close>

lemma Ingest_reservedTenants: "idx_inv i \<Longrightarrow> reservedTenants (Ingest i now u) = reservedTenants i"
proof -
  assume inv: "idx_inv i"
  obtain cs where cs: "Ingest i now u = reportEntries (emitCalls cs (fst (enforceCapLocked (fst (ingestQuota i now u)))))"
    by (rule Ingest_stages)
  have "prefix_inv (fst (ingestQuota i now u))" using idx_inv_quota [OF inv, of now u] by (simp add: idx_inv_def)
  then show ?thesis by (simp add: cs ingestQuota_frame [OF inv])
qed

lemma ReportCacheState_spec:
  assumes "ReportCacheState rs i = Some (ack, j)" and "idx_inv i" and "isReservedTenant i ProbeTenantID"
  shows "idx_inv j \<and> (pk_tenant k = ProbeTenantID \<longrightarrow> held j k r = held i k r)"
  using assms
proof (induction rs i rule: ReportCacheState.induct)
  case (4 now u rs i)
  show ?case
  proof (cases "cu_TenantId u = ProbeTenantID")
    case True
    then show ?thesis using 4 by simp
  next
    case False
    have inv: "idx_inv (Ingest i now (updateFromProto u))" using "4.prems"(2) by (rule idx_inv_Ingest)
    have res: "isReservedTenant (Ingest i now (updateFromProto u)) ProbeTenantID"
      using "4.prems"(2,3) by (simp add: isReservedTenant_def Ingest_reservedTenants)
    have "held (Ingest i now (updateFromProto u)) k r = held i k r" if "pk_tenant k = ProbeTenantID"
      using that False "4.prems" by (intro Ingest_reserved) (simp_all add: updateFromProto_def)
    then show ?thesis using "4.IH"(2) [OF False _ inv res] "4.prems"(1) False by simp
  qed
qed auto

lemma ReportCacheState_later: "ReportCacheState rs i = Some (ack, j) \<Longrightarrow> later i j"
proof (induction rs i rule: ReportCacheState.induct)
  case (4 now u rs i)
  have trans: "later k j" if "later (Ingest k now u) j" for k u
    using that by (induction "Ingest k now u" j rule: later.induct) (blast intro: later.intros index_step.intros)+
  show ?case using 4 trans by (auto split: if_splits)
qed (auto intro: later.same)

lemma ReportCacheState_returns:
  "RecvEOF \<in> set rs \<Longrightarrow> \<exists>ack j. ReportCacheState rs i = Some (ack, j)"
  by (induction rs i rule: ReportCacheState.induct) auto

lemma PublishEvent_spec:
  assumes "prefix_inv i"
  shows "fst (PublishEvent now ev i)" and "later i (snd (PublishEvent now ev i))"
    and "pk_tenant k = ProbeTenantID \<Longrightarrow> held (snd (PublishEvent now ev i)) k r = held i k r"
    and "held (snd (PublishEvent now ev i)) k r \<in> {None, held i k r}"
  by (auto simp: PublishEvent_def held_ApplyEvent [OF assms] evictMatch_def clearMatch_def
      intro: later.intros index_step.intros split: option.splits EventType.splits)

end
