(* ===== verification/Lookup_Properties.thy ===== *)
theory Lookup_Properties
  imports Examples Service_Facts
begin

text \<open>
  The theorems about reading the index: the chain and the exact lookup, the score factors and
  their order, the classification of misses, the affinity fallback and the snapshot.
\<close>

subsection \<open>Lookup\<close>

text \<open>
  C13. The block walk over shrinking candidate maps finds what the definition of a match asks for:
  the chain lookup returns, once each, exactly the replicas whose longest leading run of fresh
  blocks covers tokens, and reports for each the tokens of that run (in 32-bit arithmetic).
\<close>

theorem chain_lookup_is_longest_run:
  assumes "reachable i" and "\<forall>n \<in> set (lr_BlockTokenCounts req). is_int32 n"
    and "lr_HashScheme req \<noteq> ''''" and "lr_BlockHashes req \<noteq> []"
    and "length (lr_BlockTokenCounts req) = length (lr_BlockHashes req)"
  shows "sc_ReplicaID ` set (Lookup i now req) =
      {rid. 0 < wrap32 (sum_list (map snd (takeWhile (\<lambda>(h, _). look i req now rid h \<noteq> None)
                  (zip (lr_BlockHashes req) (lr_BlockTokenCounts req)))))} \<and>
    distinct (map sc_ReplicaID (Lookup i now req)) \<and>
    (\<forall>s \<in> set (Lookup i now req). sc_MatchedTokens s =
      wrap32 (sum_list (map snd (takeWhile (\<lambda>(h, _). look i req now (sc_ReplicaID s) h \<noteq> None)
                  (zip (lr_BlockHashes req) (lr_BlockTokenCounts req))))))"
proof -
  have inv: "prefix_inv i" by (rule reachable_prefix_inv [OF assms(1)])
  have "lookupWithHits i now req = lookupChain i now req" using assms(3-5) by (simp add: lookupWithHits_def)
  then show ?thesis
    using lookupChain_replicas [OF inv assms(2), of now] lookupChain_score(1) [OF inv assms(2), of _ now]
      distinct_lookup [OF inv, of now req]
    by (simp add: Lookup_def runTokens_def leadOf_def leadingRun_def blocksOf_def)
qed

theorem chain_lookup_is_longest_run_witness:
  "sc_ReplicaID ` set (Lookup exIndex 5 (exReq [''a'', ''b'', ''c''] [10, 10, 10] '''')) = {''r''}"
proof -
  let ?q = "exReq [''a'', ''b'', ''c''] [10, 10, 10] ''''"
  have "\<forall>n \<in> set (lr_BlockTokenCounts ?q). is_int32 n" "lr_HashScheme ?q \<noteq> ''''" "lr_BlockHashes ?q \<noteq> []"
    "length (lr_BlockTokenCounts ?q) = length (lr_BlockHashes ?q)" by (simp_all add: exReq_def is_int32_def)
  note t = chain_lookup_is_longest_run [OF reachable_exIndex this, of 5, THEN conjunct1]
  have look: "look exIndex ?q 5 rid h = (if rid = ''r'' then (if h = ''a'' then Some (exEntry 0 10)
      else if h = ''b'' then Some (exEntry 1 20) else None) else None)" for rid h
    by (auto simp: look_def requestKey_def exReq_def exIndex_held exKey_def freshFor_def exEntry_def exIndex_fresh)
  have "(0 < wrap32 (sum_list (map snd (takeWhile (\<lambda>(h, _). look exIndex ?q 5 rid h \<noteq> None)
      (zip (lr_BlockHashes ?q) (lr_BlockTokenCounts ?q)))))) \<longleftrightarrow> rid = ''r''" for rid
    by (simp add: look) (simp add: exReq_def wrap32_def)
  then show ?thesis using t by simp
qed

text \<open>
  C14. The exact lookup returns precisely the replicas that hold the requested prefix fresh, with the
  token count and the tier they reported.
\<close>

theorem exact_lookup_is_fresh_holders:
  assumes "reachable i" and "lr_HashScheme req \<noteq> ''''" and "lr_BlockHashes req = []" and "lr_BlockTokenCounts req = []"
  shows "(\<lambda>s. (sc_ReplicaID s, sc_MatchedTokens s, sc_Tier s)) ` set (Lookup i now req) =
    {(r, re_tokenCount e, re_tier e) | r e.
      held i (requestKey req (lr_PrefixHash req)) r = Some e \<and>
      \<not> flt_le (freshnessAt now (re_lastSeen e) (ttlFor i (lr_Tenant req))) (Fin 0)}"
proof -
  have inv: "prefix_inv i" by (rule reachable_prefix_inv [OF assms(1)])
  have L: "Lookup i now req = fst (lookupExact i now req)" using assms(2-4) by (simp add: Lookup_def lookupWithHits_def)
  have fwd: "\<exists>e. held i (requestKey req (lr_PrefixHash req)) (sc_ReplicaID s) = Some e \<and> freshFor i req now e \<and>
      sc_MatchedTokens s = re_tokenCount e \<and> sc_Tier s = re_tier e" if "s \<in> set (Lookup i now req)" for s
    using lookupExact_score [OF inv that [unfolded L]] by metis
  have bwd: "\<exists>s \<in> set (Lookup i now req). sc_ReplicaID s = r"
    if "held i (requestKey req (lr_PrefixHash req)) r = Some e" "freshFor i req now e" for r e
  proof -
    have "r \<in> sc_ReplicaID ` set (Lookup i now req)"
      using lookupExact_replicas [OF inv, of now req] that unfolding L by blast
    then show ?thesis by auto
  qed
  show ?thesis
  proof (intro set_eqI iffI; clarify)
    fix s assume "s \<in> set (Lookup i now req)"
    then show "\<exists>r e. (sc_ReplicaID s, sc_MatchedTokens s, sc_Tier s) = (r, re_tokenCount e, re_tier e) \<and>
        held i (requestKey req (lr_PrefixHash req)) r = Some e \<and>
        \<not> flt_le (freshnessAt now (re_lastSeen e) (ttlFor i (lr_Tenant req))) (Fin 0)"
      using fwd unfolding freshFor_def by metis
  next
    fix r e assume e: "held i (requestKey req (lr_PrefixHash req)) r = Some e"
      "\<not> flt_le (freshnessAt now (re_lastSeen e) (ttlFor i (lr_Tenant req))) (Fin 0)"
    then obtain s where s: "s \<in> set (Lookup i now req)" "sc_ReplicaID s = r" using bwd unfolding freshFor_def by metis
    then show "(r, re_tokenCount e, re_tier e) \<in>
        (\<lambda>s. (sc_ReplicaID s, sc_MatchedTokens s, sc_Tier s)) ` set (Lookup i now req)"
      using fwd [OF s(1)] e(1) by (force simp: image_iff)
  qed
qed

theorem exact_lookup_is_fresh_holders_witness:
  "(''r'', 20, TierT1) \<in>
     (\<lambda>s. (sc_ReplicaID s, sc_MatchedTokens s, sc_Tier s)) ` set (Lookup exIndex 5 (exReq [] [] ''b''))"
proof -
  let ?q = "exReq [] [] ''b''"
  have q: "lr_HashScheme ?q \<noteq> ''''" "lr_BlockHashes ?q = []" "lr_BlockTokenCounts ?q = []" by (simp_all add: exReq_def)
  have "held exIndex (requestKey ?q (lr_PrefixHash ?q)) ''r'' = Some (exEntry 1 20)"
    by (simp add: exIndex_held requestKey_def exReq_def exKey_def)
  moreover have "\<not> flt_le (freshnessAt 5 (re_lastSeen (exEntry 1 20)) (ttlFor exIndex (lr_Tenant ?q))) (Fin 0)"
    by (simp add: exEntry_def exIndex_fresh)
  moreover have "re_tokenCount (exEntry 1 20) = 20" "re_tier (exEntry 1 20) = TierT1" by (simp_all add: exEntry_def)
  ultimately have "(''r'', 20, TierT1) \<in> {(r, re_tokenCount e, re_tier e) | r e.
      held exIndex (requestKey ?q (lr_PrefixHash ?q)) r = Some e \<and>
      \<not> flt_le (freshnessAt 5 (re_lastSeen e) (ttlFor exIndex (lr_Tenant ?q))) (Fin 0)}" by force
  then show ?thesis using exact_lookup_is_fresh_holders [OF reachable_exIndex q, of 5] by simp
qed

subsection \<open>Ranking\<close>

text \<open>
  C15. The ranking is deterministic and descending: without NaN scores, the order of the answer does not
  depend on the order in which the scores were collected from the map, and no replica is listed
  before one with a higher score.
\<close>

theorem ranking_is_deterministic:
  assumes "mset xs = mset ys" and "distinct (map sc_ReplicaID xs)" and "\<forall>x \<in> set xs. sc_Score x \<noteq> NaN"
  shows "sortScoresDescByScoreThenID xs = sortScoresDescByScoreThenID ys \<and>
    sorted_wrt (\<lambda>x y. flt_le (sc_Score y) (sc_Score x)) (sortScoresDescByScoreThenID xs) \<and>
    mset (sortScoresDescByScoreThenID xs) = mset xs"
  using sortScores_perm [OF assms(1,3,2)] sortScores_sorted [OF assms(3)] assms(1)
  by (simp add: sortScoresDescByScoreThenID_def)

definition exScore :: "string \<Rightarrow> rat \<Rightarrow> ReplicaScore" where
  "exScore r q = \<lparr>sc_ReplicaID = r, sc_Score = Fin q, sc_MatchedTokens = 1, sc_EstimatedCacheHitProb = Fin 1, sc_Tier = TierT1\<rparr>"

theorem ranking_is_deterministic_witness:
  "sortScoresDescByScoreThenID [exScore ''a'' 1, exScore ''b'' 2, exScore ''c'' 2] =
   sortScoresDescByScoreThenID [exScore ''c'' 2, exScore ''a'' 1, exScore ''b'' 2]"
  by (rule ranking_is_deterministic [THEN conjunct1]) (simp_all add: exScore_def add_mset_commute)

text \<open>
  C16. The freshness factor stays in the unit interval and never prefers the older entry: for any
  representable TTL, an entry seen later is at least as fresh.
\<close>

theorem freshness_bounded_monotone:
  assumes "l \<le> l'" and "d \<le> 2 ^ 63"
  shows "unit32 (freshnessAt now l d) \<and> flt_le (freshnessAt now l d) (freshnessAt now l' d)"
  using freshnessAt_unit [OF assms(2)] freshnessAt_mono [OF assms] by blast

theorem freshness_bounded_monotone_witness:
  "unit32 (freshnessAt 100 40 70) \<and> flt_le (freshnessAt 100 40 70) (freshnessAt 100 90 70)"
  by (rule freshness_bounded_monotone) simp_all

text \<open>
  C17. The depth discount of the chain lookup, computed by a walk over groups of equal depth, is the one
  it is meant to be: each score is scaled by the distinguishing power of the number of replicas
  that match at least as deep, and scores keep their replica, tokens and tier.
\<close>

theorem chain_discount_by_depth:
  "mset (applyChainDistinguishingPower scores tot) =
     image_mset (\<lambda>s. scaleScore
       (distinguishingPower (int (length (filter (\<lambda>x. sc_MatchedTokens s \<le> sc_MatchedTokens x) scores))) tot) s)
       (mset scores)"
  by (simp add: mset_applyChain depthCount_def)

text \<open>
  C18. The discount is fair: the distinguishing power lies in the unit interval, and a prefix held by
  more replicas never counts for more.
\<close>

theorem distinguishing_power_antitone:
  assumes "0 \<le> m" and "m \<le> m'" and "tot \<le> 2 ^ 63"
  shows "flt_le (distinguishingPower m' tot) (distinguishingPower m tot) \<and>
    (\<exists>q. distinguishingPower m tot = Fin q \<and> 0 \<le> q \<and> q \<le> 1)"
  using distinguishingPower_antimono [OF assms] distinguishingPower_unit [OF assms(3), of m] by blast

theorem distinguishing_power_antitone_witness:
  "flt_le (distinguishingPower 3 5) (distinguishingPower 1 5) \<and>
   (\<exists>q. distinguishingPower 1 5 = Fin q \<and> 0 \<le> q \<and> q \<le> 1)"
  by (rule distinguishing_power_antitone) simp_all

subsection \<open>Misses and affinity\<close>

text \<open>
  C19. A miss is explained truthfully: the classifier's counters say "unknown tenant", "unknown model" or
  "unknown hash scheme" exactly when the index holds no prefix of that tenant, that tenant's model
  or that scheme, in this order of precedence, and gives no reason on an empty index.
\<close>

theorem miss_classified_truthfully:
  assumes "reachable i"
  shows "classifyMiss i req =
    (if keysHeld i = {} then StrategyNone
     else if \<forall>k \<in> keysHeld i. pk_tenant k \<noteq> lr_Tenant req then StrategyUnknownTenant
     else if \<forall>k \<in> keysHeld i. pk_tenant k = lr_Tenant req \<longrightarrow> pk_model k \<noteq> lr_Model req then StrategyUnknownModel
     else if \<forall>k \<in> keysHeld i. pk_tenant k = lr_Tenant req \<and> pk_model k = lr_Model req \<longrightarrow>
            pk_hashScheme k \<noteq> lr_HashScheme req then StrategyUnknownHashScheme
     else StrategyNone)"
  using hasAny_iff [OF reachable_prefix_inv [OF assms]] keysHeld_eq [OF reachable_prefix_inv [OF assms]]
  by (auto simp: classifyMiss_def)

theorem miss_classified_truthfully_witness:
  "classifyMiss exIndex ((exReq [''a''] [1] '''')\<lparr>lr_HashScheme := ''other''\<rparr>) = StrategyUnknownHashScheme"
  using miss_classified_truthfully [OF reachable_exIndex, of "(exReq [''a''] [1] '''')\<lparr>lr_HashScheme := ''other''\<rparr>"]
  by (simp add: exIndex_keys exReq_def exKey_def)

text \<open>
  C20. The affinity hint is the reference choice: for a seed and a scheme, the replica at the position the
  digest selects in the sorted list of all replicas that hold a prefix of the engine domain; so
  it is a function of the seed and of the set of holders, and always names a holder.
\<close>

theorem affinity_hint_is_reference:
  fixes i :: Index and t m s :: string
  assumes "reachable i"
  defines "rs \<equiv> sorted_list_of_set {r. \<exists>k. scopeOf k = ScopeKey t m s \<and> held i k r \<noteq> None}"
  shows "AffinityHint i t m s seed =
      (if seed = [] \<or> s = [] \<or> rs = [] then None
       else Some (rs ! nat (digest_u64 (sha256_sum seed) mod int (length rs)))) \<and>
    (\<forall>r. AffinityHint i t m s seed = Some r \<longrightarrow> (\<exists>k. scopeOf k = ScopeKey t m s \<and> held i k r \<noteq> None))"
proof -
  have inv: "prefix_inv i" by (rule reachable_prefix_inv [OF assms(1)])
  have "rs = sorted_list_of_set (servers i t m s)" by (simp add: rs_def servers_def)
  then have "AffinityHint i t m s seed =
      (if seed = [] \<or> s = [] \<or> rs = [] then None
       else Some (rs ! nat (digest_u64 (sha256_sum seed) mod int (length rs))))"
    using AffinityHint_eq [OF inv, of t m s seed] by (simp only: Let_def)
  moreover have "\<exists>k. scopeOf k = ScopeKey t m s \<and> held i k r \<noteq> None" if h: "AffinityHint i t m s seed = Some r" for r
  proof -
    obtain k e where "pk_tenant k = t" "pk_model k = m" "pk_hashScheme k = s" "held i k r = Some e"
      using AffinityHint_serves [OF inv h] by blast
    then have "scopeOf k = ScopeKey t m s \<and> held i k r \<noteq> None" by (simp add: scopeOf_def)
    then show ?thesis by blast
  qed
  ultimately show ?thesis by blast
qed

theorem affinity_hint_is_reference_witness: "AffinityHint exIndex ''t'' ''m'' ''s'' ''seed'' = Some ''r''"
proof -
  have "servers exIndex ''t'' ''m'' ''s'' = {''r''}"
    by (force simp: servers_def exIndex_held scopeOf_def exKey_def)
  then have "sorted_list_of_set (servers exIndex ''t'' ''m'' ''s'') = [''r'']" by simp
  then show ?thesis
    using affinity_hint_is_reference [OF reachable_exIndex, of "''t''" "''m''" "''s''" "''seed''"]
    by (simp add: servers_def)
qed

subsection \<open>Snapshot\<close>

lemma keys_fold:
  assumes "\<And>x m. fst ` set (f x m) \<subseteq> insert (g x) (fst ` set m)"
  shows "fst ` set (fold f xs m) \<subseteq> g ` set xs \<union> fst ` set m"
proof (induction xs arbitrary: m)
  case (Cons x xs)
  show ?case using Cons [of "f x m"] assms [of x m] by (simp only: fold_simps list.set image_insert) blast
qed simp

lemma update_dom: "fst ` set (AList.update k v m) = insert k (fst ` set m)"
  by (induction m) auto

lemma keys_hitSums: "fst ` set (hitSums latest) \<subseteq> fst ` fst ` set latest"
proof -
  have "fst ` set (hitSums latest) \<subseteq> (\<lambda>x. fst (fst x)) ` set latest \<union> fst ` set ([] :: (string, flt \<times> int) gomap)"
    unfolding hitSums_def by (rule keys_fold) (simp add: case_prod_beta Let_def update_dom)
  then show ?thesis by (simp add: image_image)
qed

lemma snapshot_tenant_row:
  assumes "row \<in> set (snap_Tenants (SnapshotOf i))"
  shows "tsn_IndexEntries row = gm_int (PerTenant (aggregateLocked i)) (tsn_TenantID row)"
    and "\<not> isReservedTenant i (tsn_TenantID row)"
proof -
  obtain rows where rows: "snap_Tenants (SnapshotOf i) = sort_slice (\<lambda>a b. tsn_TenantID a < tsn_TenantID b) rows"
    "\<forall>r \<in> set rows. r = tenantRow (aggregateLocked i) (hitSums (latestByReplica i)) (tsn_TenantID r)"
    "tsn_TenantID ` set rows = fst ` set (hitSums (latestByReplica i)) \<union> fst ` set (PerTenant (aggregateLocked i))"
    by (rule snapshot_tenants)
  have row: "row \<in> set rows" using assms rows(1) by simp
  then have "row = tenantRow (aggregateLocked i) (hitSums (latestByReplica i)) (tsn_TenantID row)" using rows(2) by blast
  then show "tsn_IndexEntries row = gm_int (PerTenant (aggregateLocked i)) (tsn_TenantID row)"
    by (metis (no_types, lifting) TenantSnapshot.select_convs(2) case_prod_beta tenantRow_def)
  have "tsn_TenantID row \<in> fst ` set (hitSums (latestByReplica i)) \<union> fst ` set (PerTenant (aggregateLocked i))"
    using row rows(3) by blast
  then show "\<not> isReservedTenant i (tsn_TenantID row)"
  proof
    assume "tsn_TenantID row \<in> fst ` set (hitSums (latestByReplica i))"
    then show ?thesis using keys_hitSums [of "latestByReplica i"] latest_unreserved [of i] by fastforce
  next
    assume "tsn_TenantID row \<in> fst ` set (PerTenant (aggregateLocked i))"
    then have "tsn_TenantID row \<in> pk_tenant ` set (visible i)"
      using tracks_mem [OF PerTenant_tracks] by (metis count_list_0_iff gr0_conv_Suc list.set_map nat.distinct(1))
    then show ?thesis by (auto simp: visible_def)
  qed
qed

text \<open>
  C21. The totals of a cluster snapshot are exact and consistent: the total is the number of distinct prefixes
  held outside the reserved tenants, it is the sum over the tenant rows, each row counts the
  prefixes its tenant holds, and no reserved tenant has a row.
\<close>

theorem snapshot_totals_exact:
  assumes "reachable i"
  defines "snap \<equiv> SnapshotOf i"
  shows "snap_TotalPrefixes snap = int (card {k \<in> keysHeld i. \<not> isReservedTenant i (pk_tenant k)}) \<and>
    sum_list (map tsn_IndexEntries (snap_Tenants snap)) = snap_TotalPrefixes snap \<and>
    (\<forall>row \<in> set (snap_Tenants snap). \<not> isReservedTenant i (tsn_TenantID row) \<and>
      tsn_IndexEntries row = int (card {k \<in> keysHeld i. pk_tenant k = tsn_TenantID row}))"
proof -
  have inv: "prefix_inv i" by (rule reachable_prefix_inv [OF assms(1)])
  have "snap_TotalPrefixes snap = Total (aggregateLocked i)" by (simp add: snap_def SnapshotOf_def Let_def case_prod_beta)
  then show ?thesis
    using aggregate_total [OF inv] snapshot_total [of i] snapshot_tenant_row [of _ i] aggregate_tenant [OF inv]
      prefix_inv_counts(3) [OF inv] by (simp add: snap_def)
qed

theorem snapshot_totals_exact_witness: "snap_TotalPrefixes (SnapshotOf exIndex) = 2"
proof -
  have "{k \<in> keysHeld exIndex. \<not> isReservedTenant exIndex (pk_tenant k)} = {exKey ''a'', exKey ''b''}"
    by (auto simp: exIndex_keys isReservedTenant_def exIndex_config exKey_def)
  then show ?thesis using snapshot_totals_exact [OF reachable_exIndex] by (simp add: exKey_def)
qed

text \<open>
  C22. Every replica row of a snapshot counts the prefixes that replica holds for the row's tenant, which is
  not a reserved one; and every unreserved (tenant, replica) pair that holds a prefix has a row.
\<close>

theorem snapshot_rows_exact:
  assumes "reachable i"
  defines "rows \<equiv> snap_Replicas (SnapshotOf i)"
  shows "(\<forall>row \<in> set rows. \<not> isReservedTenant i (rsn_Tenant row) \<and>
      rsn_PrefixCount row = int (card {k. pk_tenant k = rsn_Tenant row \<and> held i k (rsn_ReplicaID row) \<noteq> None})) \<and>
    (\<forall>k r. held i k r \<noteq> None \<and> \<not> isReservedTenant i (pk_tenant k) \<longrightarrow>
      (\<exists>row \<in> set rows. rsn_Tenant row = pk_tenant k \<and> rsn_ReplicaID row = r))"
proof -
  let ?l = "latestByReplica i" and ?b = "prefixByReplica i"
  have inv: "prefix_inv i" by (rule reachable_prefix_inv [OF assms(1)])
  have rows: "set rows = replicaRow ?l ?b ` (fst ` set ?l \<union> fst ` set ?b)" by (simp add: rows_def snapshot_rows)
  have res: "\<not> isReservedTenant i (fst tr)" if "tr \<in> fst ` set ?l \<union> fst ` set ?b" for tr
    using that latest_unreserved [of i] keys_prefixByReplica [OF inv] by (cases tr) auto
  have "\<not> isReservedTenant i (rsn_Tenant row) \<and>
      rsn_PrefixCount row = int (card {k. pk_tenant k = rsn_Tenant row \<and> held i k (rsn_ReplicaID row) \<noteq> None})"
    if "row \<in> set rows" for row
  proof -
    from that obtain tr where "tr \<in> fst ` set ?l \<union> fst ` set ?b" and row: "row = replicaRow ?l ?b tr"
      unfolding rows by blast
    then show ?thesis
      using res [of tr] prefixByReplica_count [OF inv, of "fst tr" "snd tr"] by (simp add: row)
  qed
  moreover have "\<exists>row \<in> set rows. rsn_Tenant row = pk_tenant k \<and> rsn_ReplicaID row = r"
    if h: "held i k r \<noteq> None" "\<not> isReservedTenant i (pk_tenant k)" for k r
  proof -
    have "finite {k'. pk_tenant k' = pk_tenant k \<and> held i k' r \<noteq> None}"
      by (rule finite_subset [OF _ finite_keys [of "pk_tenant k" i]]) auto
    then have "0 < card {k'. pk_tenant k' = pk_tenant k \<and> held i k' r \<noteq> None}"
      using h(1) by (auto simp: card_gt_0_iff)
    then have "map_of ?b (pk_tenant k, r) \<noteq> None"
      using prefixByReplica_count [OF inv h(2), of r] by (auto split: option.splits)
    then have "(pk_tenant k, r) \<in> fst ` set ?b" by (simp add: map_of_eq_None_iff)
    then show ?thesis unfolding rows by (intro bexI [of _ "replicaRow ?l ?b (pk_tenant k, r)"]) auto
  qed
  ultimately show ?thesis by blast
qed

theorem snapshot_rows_exact_witness:
  "\<exists>row \<in> set (snap_Replicas (SnapshotOf exIndex)). rsn_Tenant row = ''t'' \<and> rsn_ReplicaID row = ''r''"
proof -
  have "held exIndex (exKey ''a'') ''r'' \<noteq> None" "\<not> isReservedTenant exIndex (pk_tenant (exKey ''a''))"
    by (simp_all add: exIndex_held isReservedTenant_def exIndex_config exKey_def)
  then have "\<exists>row \<in> set (snap_Replicas (SnapshotOf exIndex)).
      rsn_Tenant row = pk_tenant (exKey ''a'') \<and> rsn_ReplicaID row = ''r''"
    using snapshot_rows_exact [OF reachable_exIndex, THEN conjunct2] by blast
  then show ?thesis by (simp add: exKey_def)
qed

end
