(* ===== verification/Subscriber.thy ===== *)
theory Subscriber
  imports Service
begin

text \<open>
  \<open>internal/subscriber\<close>: the sidecar that turns an engine's KV-cache events into reports.
  \<open>config.go\<close> (identity and adapter resolution), \<open>positional.go\<close> (the reverse map from engine
  blocks to prefix hashes), \<open>mapper.go\<close> (the messages) and \<open>forwarder.go\<close> (the reporter loop).

  The loop runs in one goroutine: it is a function from its state and one input (a batch, a
  tick) to the next state and the calls it makes, in order. Whether a call reaches the server
  does not influence the loop. Logging is not modelled beyond the set of adapters warned about.
\<close>

subsection \<open>Configuration\<close>

record Config =
  cf_ReplicaID :: string
  cf_ModelID :: string
  cf_TenantID :: string
  cf_HashScheme :: string
  cf_AdapterNames :: "(int, string) gomap"

definition AdapterID :: "Config \<Rightarrow> int option \<Rightarrow> string \<times> bool" where
  "AdapterID c loraID =
     (case loraID of
        None \<Rightarrow> ([], True)
      | Some n \<Rightarrow>
          (case map_of (cf_AdapterNames c) n of
             None \<Rightarrow> ([], False)
           | Some name \<Rightarrow> if name \<noteq> [] then (name, True) else ([], False)))"

datatype configError = ReplicaIDRequired | ModelIDRequired | HashSchemeRequired

definition Validate :: "Config \<Rightarrow> configError option" where
  "Validate c =
     (if cf_ReplicaID c = [] then Some ReplicaIDRequired
      else if cf_ModelID c = [] then Some ModelIDRequired
      else if cf_HashScheme c = [] then Some HashSchemeRequired
      else None)"

subsection \<open>Engine events\<close>

record BlockStored =
  bs_BlockHashes :: "string list"
  bs_ParentBlockHash :: "string option"
  bs_TokenIDs :: "token list"
  bs_BlockSize :: int
  bs_LoRAID :: "int option"

datatype EngineEvent = EvStored BlockStored | EvRemoved "string list" | EvCleared

record EventBatch =
  eb_TimestampSeconds :: flt
  eb_Events :: "EngineEvent list"

subsection \<open>The positional index\<close>

record posEntry =
  po_prefixHash :: u64
  po_tokenCount :: int
  po_adapter :: string

type_synonym positionalIndex = "(string, posEntry) gomap"

record EvictedPrefix =
  ep_PrefixHash :: string
  ep_AdapterID :: string
  ep_TokenCount :: int

definition newPositionalIndex :: positionalIndex where
  "newPositionalIndex = []"

definition storedStep ::
  "int \<Rightarrow> string \<Rightarrow> string \<times> u64 \<Rightarrow> pbPrefixEntry list \<times> int \<times> positionalIndex \<Rightarrow>
     pbPrefixEntry list \<times> int \<times> positionalIndex" where
  "storedStep bs adapterID = (\<lambda>(block, ph) (out, tokens, p).
     (let tokens = wrap32 (tokens + wrap32 bs)
      in (out @ [\<lparr>pe_PrefixHash = hashBytes ph, pe_TokenCount = tokens, pe_BlockHashes = [],
                  pe_BlockTokenCounts = [], pe_Tier = 1, pe_AdapterId = adapterID\<rparr>],
          tokens,
          AList.update block \<lparr>po_prefixHash = ph, po_tokenCount = tokens, po_adapter = adapterID\<rparr> p)))"

definition Stored ::
  "hashSeed \<Rightarrow> positionalIndex \<Rightarrow> BlockStored \<Rightarrow> string \<Rightarrow> pbPrefixEntry list \<times> positionalIndex" where
  "Stored hash p ev adapterID =
     (let bs = bs_BlockSize ev
      in if bs \<le> 0 \<or> length (bs_BlockHashes ev) = 0 then ([], p)
         else
           (let (parentPrefix, parentTokens, hasParent) =
                  (case Option.bind (bs_ParentBlockHash ev) (map_of p) of
                     None \<Rightarrow> (0, 0, False)
                   | Some pe \<Rightarrow> (po_prefixHash pe, po_tokenCount pe, True));
                phs = PrefixHashesFrom hash (bs_TokenIDs ev) bs parentPrefix hasParent
            in if length phs \<noteq> length (bs_BlockHashes ev) then ([], p)
               else
                 (let (out, _, p) = fold (storedStep bs adapterID) (zip (bs_BlockHashes ev) phs) ([], parentTokens, p)
                  in (out, p))))"

definition Removed :: "positionalIndex \<Rightarrow> string list \<Rightarrow> EvictedPrefix list \<times> positionalIndex" where
  "Removed p hashes =
     fold (\<lambda>h (out, p).
             (case map_of p h of
                None \<Rightarrow> (out, p)
              | Some pe \<Rightarrow>
                  (out @ [\<lparr>ep_PrefixHash = hashBytes (po_prefixHash pe), ep_AdapterID = po_adapter pe,
                           ep_TokenCount = po_tokenCount pe\<rparr>],
                   AList.delete h p)))
       hashes ([], p)"

definition Cleared :: "positionalIndex \<Rightarrow> positionalIndex" where
  "Cleared p = []"

subsection \<open>Messages\<close>

text \<open>
  \<open>int64(s * 1e6)\<close>: the product in \<open>float64\<close>, truncated. A value outside the range of \<open>int64\<close>
  (the conversion is then implementation-defined) converts to the least \<open>int64\<close>, as on amd64.
\<close>

definition truncInt64 :: "flt \<Rightarrow> int" where
  "truncInt64 x =
     (case x of
        Fin q \<Rightarrow>
          (let n = (if q < 0 then - \<lfloor>- q\<rfloor> else \<lfloor>q\<rfloor>)
           in if - (2 ^ 63) \<le> n \<and> n < 2 ^ 63 then n else - (2 ^ 63))
      | _ \<Rightarrow> - (2 ^ 63))"

definition microsFromSeconds :: "flt \<Rightarrow> int" where
  "microsFromSeconds s = (if flt_le s (Fin 0) then 0 else truncInt64 (fmul binary64 s (Fin 1000000)))"

definition configUpdate :: "Config \<Rightarrow> int \<Rightarrow> pbPrefixEntry list \<Rightarrow> CacheStateUpdate option" where
  "configUpdate c tsUs entries =
     (if length entries = 0 then None
      else Some \<lparr>cu_ReplicaId = cf_ReplicaID c, cu_ModelId = cf_ModelID c, cu_TenantId = cf_TenantID c,
                 cu_HashScheme = cf_HashScheme c, cu_TimestampUs = tsUs, cu_Prefixes = entries,
                 cu_Stats = None, cu_AdapterId = []\<rparr>)"

definition StatsUpdate :: "Config \<Rightarrow> int \<Rightarrow> pbReplicaStats option \<Rightarrow> CacheStateUpdate option" where
  "StatsUpdate c tsUs st =
     map_option (\<lambda>st. \<lparr>cu_ReplicaId = cf_ReplicaID c, cu_ModelId = cf_ModelID c, cu_TenantId = cf_TenantID c,
       cu_HashScheme = cf_HashScheme c, cu_TimestampUs = tsUs, cu_Prefixes = [], cu_Stats = Some st,
       cu_AdapterId = []\<rparr>) st"

definition ClearedEvent :: "Config \<Rightarrow> flt \<Rightarrow> CacheEvent" where
  "ClearedEvent c tsSeconds =
     \<lparr>ce_Type = 4, ce_ReplicaId = cf_ReplicaID c, ce_ModelId = cf_ModelID c, ce_TenantId = cf_TenantID c,
      ce_PrefixHash = [], ce_TimestampUs = microsFromSeconds tsSeconds, ce_AdapterId = []\<rparr>"

definition EvictedEvent :: "Config \<Rightarrow> string \<Rightarrow> string \<Rightarrow> flt \<Rightarrow> CacheEvent" where
  "EvictedEvent c prefixHash adapterID tsSeconds =
     \<lparr>ce_Type = 2, ce_ReplicaId = cf_ReplicaID c, ce_ModelId = cf_ModelID c, ce_TenantId = cf_TenantID c,
      ce_PrefixHash = prefixHash, ce_TimestampUs = microsFromSeconds tsSeconds, ce_AdapterId = adapterID\<rparr>"

subsection \<open>The reporter\<close>

text \<open>The calls of the loop, in the order it makes them.\<close>

datatype rpc = SendAdds CacheStateUpdate | Publish CacheEvent

text \<open>The struct and the loop's local variables \<open>pending\<close> and \<open>pendTs\<close>.\<close>

record Reporter =
  rep_cfg :: Config
  rep_window :: duration
  rep_rpcTimeout :: duration
  rep_maxPend :: nat
  rep_l2TierPresent :: bool
  rep_pos :: positionalIndex
  rep_warnedAdapters :: "(int, bool) gomap"
  rep_pending :: "pbPrefixEntry list"
  rep_pendTs :: int

type_synonym ReporterOption = "Reporter \<Rightarrow> Reporter"

definition WithWindow :: "duration \<Rightarrow> ReporterOption" where
  "WithWindow d r = r\<lparr>rep_window := d\<rparr>"

definition WithRPCTimeout :: "duration \<Rightarrow> ReporterOption" where
  "WithRPCTimeout d r = r\<lparr>rep_rpcTimeout := d\<rparr>"

definition WithIgnoreBlockRemoved :: "bool \<Rightarrow> ReporterOption" where
  "WithIgnoreBlockRemoved b r = r\<lparr>rep_l2TierPresent := b\<rparr>"

definition NewReporter :: "Config \<Rightarrow> ReporterOption list \<Rightarrow> Reporter" where
  "NewReporter c opts =
     (let r = fold (\<lambda>opt r. opt r) opts
                \<lparr>rep_cfg = c, rep_window = 100 * 10 ^ 6, rep_rpcTimeout = 5 * 10 ^ 9, rep_maxPend = 4096,
                 rep_l2TierPresent = False, rep_pos = newPositionalIndex, rep_warnedAdapters = [],
                 rep_pending = [], rep_pendTs = 0\<rparr>;
          r = (if rep_window r \<le> 0 then r\<lparr>rep_window := 100 * 10 ^ 6\<rparr> else r)
      in if rep_rpcTimeout r \<le> 0 then r\<lparr>rep_rpcTimeout := 5 * 10 ^ 9\<rparr> else r)"

definition sendAdds :: "Reporter \<Rightarrow> pbPrefixEntry list \<Rightarrow> int \<Rightarrow> rpc list" where
  "sendAdds r entries tsUs =
     (case configUpdate (rep_cfg r) tsUs entries of None \<Rightarrow> [] | Some u \<Rightarrow> [SendAdds u])"

definition flush :: "Reporter \<Rightarrow> Reporter \<times> rpc list" where
  "flush r =
     (if length (rep_pending r) = 0 then (r, [])
      else (r\<lparr>rep_pending := [], rep_pendTs := 0\<rparr>, sendAdds r (rep_pending r) (rep_pendTs r)))"

definition warnUnmappedAdapter :: "int option \<Rightarrow> Reporter \<Rightarrow> Reporter" where
  "warnUnmappedAdapter loraID r =
     (case loraID of
        None \<Rightarrow> r
      | Some n \<Rightarrow>
          (if map_of (rep_warnedAdapters r) n = Some True then r
           else r\<lparr>rep_warnedAdapters := AList.update n True (rep_warnedAdapters r)\<rparr>))"

definition handleStored :: "hashSeed \<Rightarrow> int \<Rightarrow> BlockStored \<Rightarrow> Reporter \<Rightarrow> Reporter \<times> rpc list" where
  "handleStored hash tsUs e r =
     (let (adapterID, ok) = AdapterID (rep_cfg r) (bs_LoRAID e)
      in if \<not> ok then (warnUnmappedAdapter (bs_LoRAID e) r, [])
         else
           (let (entries, p) = Stored hash (rep_pos r) e adapterID;
                r = r\<lparr>rep_pos := p, rep_pending := rep_pending r @ entries\<rparr>;
                r = (if 0 < tsUs then r\<lparr>rep_pendTs := tsUs\<rparr> else r)
            in if rep_maxPend r \<le> length (rep_pending r) then flush r else (r, [])))"

definition downgrade :: "EvictedPrefix \<Rightarrow> pbPrefixEntry" where
  "downgrade ep =
     \<lparr>pe_PrefixHash = ep_PrefixHash ep, pe_TokenCount = ep_TokenCount ep, pe_BlockHashes = [],
      pe_BlockTokenCounts = [], pe_Tier = 2, pe_AdapterId = ep_AdapterID ep\<rparr>"

definition handleRemoved :: "flt \<Rightarrow> int \<Rightarrow> string list \<Rightarrow> Reporter \<Rightarrow> Reporter \<times> rpc list" where
  "handleRemoved tsSeconds tsUs hashes r =
     (let (evicted, p) = Removed (rep_pos r) hashes;
          r = r\<lparr>rep_pos := p\<rparr>
      in if rep_l2TierPresent r then
           (if length evicted = 0 then (r, [])
            else (let (r, sent) = flush r in (r, sent @ sendAdds r (map downgrade evicted) tsUs)))
         else
           (let (r, sent) = flush r
            in (r, sent @ map (\<lambda>ep. Publish (EvictedEvent (rep_cfg r) (ep_PrefixHash ep) (ep_AdapterID ep) tsSeconds))
                     evicted)))"

definition handleCleared :: "flt \<Rightarrow> Reporter \<Rightarrow> Reporter \<times> rpc list" where
  "handleCleared tsSeconds r =
     (r\<lparr>rep_pending := [], rep_pendTs := 0, rep_pos := Cleared (rep_pos r)\<rparr>,
      [Publish (ClearedEvent (rep_cfg r) tsSeconds)])"

definition handleEvent :: "hashSeed \<Rightarrow> flt \<Rightarrow> EngineEvent \<Rightarrow> Reporter \<Rightarrow> Reporter \<times> rpc list" where
  "handleEvent hash tsSeconds ev r =
     (case ev of
        EvStored e \<Rightarrow> handleStored hash (microsFromSeconds tsSeconds) e r
      | EvRemoved hashes \<Rightarrow> handleRemoved tsSeconds (microsFromSeconds tsSeconds) hashes r
      | EvCleared \<Rightarrow> handleCleared tsSeconds r)"

text \<open>What the \<open>select\<close> of the loop receives; \<open>Run\<close> on a finite input, with the deferred flush.\<close>

datatype input = Batch EventBatch | Tick

fun handleEvents :: "hashSeed \<Rightarrow> flt \<Rightarrow> EngineEvent list \<Rightarrow> Reporter \<Rightarrow> Reporter \<times> rpc list" where
  "handleEvents hash ts [] r = (r, [])"
| "handleEvents hash ts (ev # evs) r =
     (let (r, sent) = handleEvent hash ts ev r; (r, sent') = handleEvents hash ts evs r in (r, sent @ sent'))"

definition handleInput :: "hashSeed \<Rightarrow> input \<Rightarrow> Reporter \<Rightarrow> Reporter \<times> rpc list" where
  "handleInput hash inp r =
     (case inp of
        Batch b \<Rightarrow> handleEvents hash (eb_TimestampSeconds b) (eb_Events b) r
      | Tick \<Rightarrow> flush r)"

fun reporterRun :: "hashSeed \<Rightarrow> input list \<Rightarrow> Reporter \<Rightarrow> Reporter \<times> rpc list" where
  "reporterRun hash [] r = flush r"
| "reporterRun hash (inp # inputs) r =
     (let (r, sent) = handleInput hash inp r; (r, sent') = reporterRun hash inputs r in (r, sent @ sent'))"

text \<open>The server's side of one call that arrives, at the clock \<open>now\<close>.\<close>

definition serve :: "gotime \<Rightarrow> rpc \<Rightarrow> Index \<Rightarrow> Index" where
  "serve now c i =
     (case c of
        SendAdds u \<Rightarrow> (case ReportCacheState [RecvUpdate now u, RecvEOF] i of None \<Rightarrow> i | Some (_, j) \<Rightarrow> j)
      | Publish ev \<Rightarrow> snd (PublishEvent now ev i))"

end
