(* ===== verification/Subscriber_Facts.thy ===== *)
theory Subscriber_Facts
  imports Subscriber Service_Facts
begin

text \<open>
  What the subscriber promises. The prefix hashes it derives from an engine's incremental
  events are those of the whole token sequence, whatever pieces it arrives in, so they are the
  keys a lookup on the same tokens asks for. The calls are ordered so that an eviction or a
  clear is never overtaken by a buffered store of the same block. The buffer is bounded, and a
  block of an unmapped adapter is never reported.
\<close>

subsection \<open>The entries of one stored event\<close>

definition storedEntry :: "string \<Rightarrow> u64 \<Rightarrow> int \<Rightarrow> pbPrefixEntry" where
  "storedEntry ad ph n =
     \<lparr>pe_PrefixHash = hashBytes ph, pe_TokenCount = n, pe_BlockHashes = [], pe_BlockTokenCounts = [],
      pe_Tier = 1, pe_AdapterId = ad\<rparr>"

lemma storedStep_last:
  "xs \<noteq> [] \<Longrightarrow>
     \<exists>n. map_of (snd (snd (fold (storedStep bs ad) xs (out, t, p)))) (fst (last xs)) =
       Some \<lparr>po_prefixHash = snd (last xs), po_tokenCount = n, po_adapter = ad\<rparr>"
proof (induction xs arbitrary: out t p rule: rev_induct)
  case (snoc x xs)
  show ?case by (cases x; cases "fold (storedStep bs ad) xs (out, t, p)")
      (auto simp: storedStep_def Let_def gomap_simps)
qed simp

definition parentOf :: "positionalIndex \<Rightarrow> BlockStored \<Rightarrow> posEntry option" where
  "parentOf p ev = Option.bind (bs_ParentBlockHash ev) (map_of p)"

definition storedHashes :: "hashSeed \<Rightarrow> positionalIndex \<Rightarrow> BlockStored \<Rightarrow> u64 list" where
  "storedHashes hash p ev =
     rollHashes hash (map_option po_prefixHash (parentOf p ev)) (tokenBlocks (nat (bs_BlockSize ev)) (bs_TokenIDs ev))"

lemma storedStep_entries:
  "map pe_PrefixHash (fst (fold (storedStep bs ad) xs (out, t, p))) = map pe_PrefixHash out @ map (hashBytes \<circ> snd) xs \<and>
   (\<forall>x \<in> set (fst (fold (storedStep bs ad) xs (out, t, p))). x \<in> set out \<or>
      pe_AdapterId x = ad \<and> pe_Tier x = 1 \<and> pe_BlockHashes x = [] \<and> pe_BlockTokenCounts x = [])"
proof (induction xs arbitrary: out t p)
  case (Cons x xs)
  obtain b ph where x: "x = (b, ph)" by (cases x)
  obtain out' t' p' where s: "storedStep bs ad (b, ph) (out, t, p) = (out', t', p')"
    by (cases "storedStep bs ad (b, ph) (out, t, p)") auto
  then have o': "out' = out @ [storedEntry ad ph t']"
    by (auto simp: storedStep_def Let_def storedEntry_def)
  show ?case using Cons.IH [of out' t' p'] by (auto simp: s o' x storedEntry_def)
qed simp

lemma Stored_eq:
  assumes "0 < bs_BlockSize ev" and "bs_BlockHashes ev \<noteq> []"
    and "length (bs_TokenIDs ev) div nat (bs_BlockSize ev) = length (bs_BlockHashes ev)"
  shows "map pe_PrefixHash (fst (Stored hash p ev ad)) = map hashBytes (storedHashes hash p ev)"
    and "\<forall>x \<in> set (fst (Stored hash p ev ad)). pe_AdapterId x = ad \<and> pe_Tier x = 1 \<and> pe_BlockHashes x = []
      \<and> pe_BlockTokenCounts x = []"
    and "\<exists>n. map_of (snd (Stored hash p ev ad)) (last (bs_BlockHashes ev)) =
      Some \<lparr>po_prefixHash = last (storedHashes hash p ev), po_tokenCount = n, po_adapter = ad\<rparr>"
proof -
  let ?phs = "storedHashes hash p ev" and ?xs = "zip (bs_BlockHashes ev) (storedHashes hash p ev)"
  define t where "t = (case parentOf p ev of None \<Rightarrow> 0 | Some pe \<Rightarrow> po_tokenCount pe)"
  have len: "length ?phs = length (bs_BlockHashes ev)"
    using assms(3) by (simp add: storedHashes_def)
  have run: "Stored hash p ev ad = (let (out, _, p) = fold (storedStep (bs_BlockSize ev) ad) ?xs ([], t, p) in (out, p))"
    using assms len
    by (auto simp: Stored_def parentOf_def [symmetric] PrefixHashesFrom_roll storedHashes_def t_def Let_def split: option.splits)
  obtain out n p' where f: "fold (storedStep (bs_BlockSize ev) ad) ?xs ([], t, p) = (out, n, p')"
    by (cases "fold (storedStep (bs_BlockSize ev) ad) ?xs ([], t, p)") auto
  have S: "Stored hash p ev ad = (out, p')" by (simp add: run f)
  have entries: "map pe_PrefixHash out = map (hashBytes \<circ> snd) ?xs \<and>
      (\<forall>x \<in> set out. pe_AdapterId x = ad \<and> pe_Tier x = 1 \<and> pe_BlockHashes x = [] \<and> pe_BlockTokenCounts x = [])"
    using storedStep_entries [of "bs_BlockSize ev" ad ?xs "[]" t p] by (simp add: f)
  show "map pe_PrefixHash (fst (Stored hash p ev ad)) = map hashBytes ?phs"
    using entries len unfolding S by (simp flip: map_map)
  show "\<forall>x \<in> set (fst (Stored hash p ev ad)). pe_AdapterId x = ad \<and> pe_Tier x = 1 \<and> pe_BlockHashes x = []
      \<and> pe_BlockTokenCounts x = []"
    using entries unfolding S by simp
  have ne: "?xs \<noteq> []" using assms(2) len by auto
  have "?phs \<noteq> []" using len assms(2) by (cases ?phs) auto
  then have "fst (last ?xs) = last (bs_BlockHashes ev)" "snd (last ?xs) = last ?phs"
    using last_zip [of "bs_BlockHashes ev" ?phs] len assms(2) by auto
  then show "\<exists>n. map_of (snd (Stored hash p ev ad)) (last (bs_BlockHashes ev)) =
      Some \<lparr>po_prefixHash = last ?phs, po_tokenCount = n, po_adapter = ad\<rparr>"
    using storedStep_last [OF ne, of "bs_BlockSize ev" ad "[]" t p] unfolding S by (simp add: f)
qed

subsection \<open>A prompt in pieces\<close>

text \<open>
  The engine reports a token sequence as a chain of events, each naming the last block of the
  one before it as parent.
\<close>

fun feed ::
  "hashSeed \<Rightarrow> int \<Rightarrow> string \<Rightarrow> string option \<Rightarrow> (string list \<times> token list) list \<Rightarrow> positionalIndex \<Rightarrow>
     pbPrefixEntry list \<times> positionalIndex" where
  "feed hash bs ad parent [] p = ([], p)"
| "feed hash bs ad parent ((blocks, toks) # pieces) p =
     (let (out, p) = Stored hash p
            \<lparr>bs_BlockHashes = blocks, bs_ParentBlockHash = parent, bs_TokenIDs = toks, bs_BlockSize = bs, bs_LoRAID = None\<rparr> ad;
          (out', p) = feed hash bs ad (Some (last blocks)) pieces p
      in (out @ out', p))"

definition wholePieces :: "int \<Rightarrow> (string list \<times> token list) list \<Rightarrow> bool" where
  "wholePieces bs pieces \<longleftrightarrow> 0 < bs \<and> (\<forall>(blocks, toks) \<in> set pieces. blocks \<noteq> [] \<and> length toks = length blocks * nat bs)"

lemma feed_roll:
  assumes "wholePieces bs pieces"
    and "map_option po_prefixHash (Option.bind parent (map_of p)) = q"
  shows "map pe_PrefixHash (fst (feed hash bs ad parent pieces p)) =
    map hashBytes (rollHashes hash q (concat (map (tokenBlocks (nat bs) \<circ> snd) pieces)))"
  using assms
proof (induction pieces arbitrary: parent p q)
  case (Cons x pieces)
  obtain blocks toks where x: "x = (blocks, toks)" by (cases x)
  let ?ev = "\<lparr>bs_BlockHashes = blocks, bs_ParentBlockHash = parent, bs_TokenIDs = toks, bs_BlockSize = bs, bs_LoRAID = None\<rparr>"
  have b: "0 < bs" "blocks \<noteq> []" "length toks div nat bs = length blocks" "wholePieces bs pieces"
    using Cons.prems(1) by (auto simp: wholePieces_def x)
  note S = Stored_eq [of ?ev, simplified, OF b(1-3), of hash p ad]
  have sh: "storedHashes hash p ?ev = rollHashes hash q (tokenBlocks (nat bs) toks)"
    using Cons.prems(2) by (simp add: storedHashes_def parentOf_def)
  have ne: "tokenBlocks (nat bs) toks \<noteq> []" using b(2,3) by (metis length_0_conv length_tokenBlocks)
  obtain out p' where o': "Stored hash p ?ev ad = (out, p')" by fastforce
  have "map_option po_prefixHash (Option.bind (Some (last blocks)) (map_of p')) =
      Some (last (rollHashes hash q (tokenBlocks (nat bs) toks)))"
    using S(3) by (auto simp: o' sh)
  from Cons.IH [OF b(4) this] show ?case
    using S(1) ne by (simp add: x o' sh rollHashes_append case_prod_beta Let_def)
qed simp

lemma tokenBlocks_concat:
  assumes "wholePieces bs pieces"
  shows "tokenBlocks (nat bs) (concat (map snd pieces)) = concat (map (tokenBlocks (nat bs) \<circ> snd) pieces)"
  using assms
proof (induction pieces)
  case (Cons x pieces)
  then have "tokenBlocks (nat bs) (snd x @ concat (map snd pieces)) =
      tokenBlocks (nat bs) (snd x) @ tokenBlocks (nat bs) (concat (map snd pieces))"
    by (intro tokenBlocks_append) (auto simp: wholePieces_def)
  moreover have "wholePieces bs pieces" using Cons.prems by (simp add: wholePieces_def)
  ultimately show ?case using Cons.IH by simp
qed (simp add: tokenBlocks_def)

lemma feed_chain:
  assumes "wholePieces bs pieces" and "Option.bind parent (map_of p) = None"
  shows "map pe_PrefixHash (fst (feed hash bs ad parent pieces p)) = fst (Chain hash (concat (map snd pieces)) bs)"
proof -
  have "0 < bs" using assms(1) by (simp add: wholePieces_def)
  then show ?thesis
    using feed_roll [OF assms(1), of parent p None] assms(2) tokenBlocks_concat [OF assms(1)]
    by (auto simp: Chain_def PrefixHashes_def PrefixHashesFrom_roll Let_def)
qed

subsection \<open>The buffer\<close>

lemma flush_frame [simp]:
  "rep_cfg (fst (flush r)) = rep_cfg r" "rep_maxPend (fst (flush r)) = rep_maxPend r"
  "rep_l2TierPresent (fst (flush r)) = rep_l2TierPresent r" "rep_pos (fst (flush r)) = rep_pos r"
  "rep_pending (fst (flush r)) = []"
  by (simp_all add: flush_def)

lemma warn_frame [simp]:
  "rep_cfg (warnUnmappedAdapter l r) = rep_cfg r" "rep_maxPend (warnUnmappedAdapter l r) = rep_maxPend r"
  "rep_pending (warnUnmappedAdapter l r) = rep_pending r" "rep_pos (warnUnmappedAdapter l r) = rep_pos r"
  "rep_l2TierPresent (warnUnmappedAdapter l r) = rep_l2TierPresent r"
  by (simp_all add: warnUnmappedAdapter_def split: option.splits)

text \<open>Adapters of the entries the loop holds or sends: the default partition or a mapped name.\<close>

definition knownAdapters :: "Config \<Rightarrow> string set" where
  "knownAdapters c = insert [] (ran (map_of (cf_AdapterNames c)))"

definition reporter_inv :: "Reporter \<Rightarrow> bool" where
  "reporter_inv r \<longleftrightarrow>
     length (rep_pending r) < rep_maxPend r \<and>
     (\<forall>x \<in> set (rep_pending r). pe_AdapterId x \<in> knownAdapters (rep_cfg r)) \<and>
     (\<forall>b pe. map_of (rep_pos r) b = Some pe \<longrightarrow> po_adapter pe \<in> knownAdapters (rep_cfg r))"

fun rpcOk :: "Config \<Rightarrow> rpc \<Rightarrow> bool" where
  "rpcOk c (SendAdds u) \<longleftrightarrow>
     cu_ReplicaId u = cf_ReplicaID c \<and> cu_ModelId u = cf_ModelID c \<and> cu_TenantId u = cf_TenantID c \<and>
     cu_HashScheme u = cf_HashScheme c \<and> cu_AdapterId u = [] \<and> cu_Prefixes u \<noteq> [] \<and>
     (\<forall>x \<in> set (cu_Prefixes u). pe_AdapterId x \<in> knownAdapters c)"
| "rpcOk c (Publish ev) \<longleftrightarrow>
     ce_ReplicaId ev = cf_ReplicaID c \<and> ce_ModelId ev = cf_ModelID c \<and> ce_TenantId ev = cf_TenantID c \<and>
     ce_AdapterId ev \<in> knownAdapters c"

lemma sendAdds_ok:
  "\<forall>x \<in> set es. pe_AdapterId x \<in> knownAdapters (rep_cfg r) \<Longrightarrow> \<forall>c \<in> set (sendAdds r es ts). rpcOk (rep_cfg r) c"
  by (auto simp: sendAdds_def configUpdate_def split: option.splits if_splits)

lemma AdapterID_known: "AdapterID c l = (ad, True) \<Longrightarrow> ad \<in> knownAdapters c"
  by (auto simp: AdapterID_def knownAdapters_def ran_def split: option.splits if_splits)

lemma storedStep_pos:
  "map_of (snd (snd (fold (storedStep bs ad) xs (out, t, q)))) b = Some pe \<Longrightarrow> map_of q b = Some pe \<or> po_adapter pe = ad"
proof (induction xs arbitrary: out t q)
  case (Cons x xs)
  obtain b' ph where x: "x = (b', ph)" by (cases x)
  obtain out' t' where s: "storedStep bs ad (b', ph) (out, t, q) =
      (out', t', AList.update b' \<lparr>po_prefixHash = ph, po_tokenCount = t', po_adapter = ad\<rparr> q)"
    by (simp add: storedStep_def Let_def)
  have "map_of (AList.update b' \<lparr>po_prefixHash = ph, po_tokenCount = t', po_adapter = ad\<rparr> q) b = Some pe \<or> po_adapter pe = ad"
    using Cons.prems by (intro Cons.IH [of out' t']) (simp add: x s)
  then show ?case by (auto simp: gomap_simps split: if_splits)
qed simp

lemma Stored_cases:
  obtains (none) "Stored hash p ev ad = ([], p)"
  | (some) xs t where "Stored hash p ev ad =
      (fst (fold (storedStep (bs_BlockSize ev) ad) xs ([], t, p)), snd (snd (fold (storedStep (bs_BlockSize ev) ad) xs ([], t, p))))"
proof -
  obtain q t h where par: "(case Option.bind (bs_ParentBlockHash ev) (map_of p) of
      None \<Rightarrow> (0, 0, False) | Some pe \<Rightarrow> (po_prefixHash pe, po_tokenCount pe, True)) = (q, t, h)"
    by (rule prod_cases3)
  let ?phs = "PrefixHashesFrom hash (bs_TokenIDs ev) (bs_BlockSize ev) q h"
  show ?thesis
  proof (cases "bs_BlockSize ev \<le> 0 \<or> length (bs_BlockHashes ev) = 0 \<or> length ?phs \<noteq> length (bs_BlockHashes ev)")
    case True
    then have "Stored hash p ev ad = ([], p)" by (auto simp: Stored_def Let_def par)
    then show ?thesis by (rule none)
  next
    case False
    then show ?thesis
      by (intro some [of "zip (bs_BlockHashes ev) ?phs" t]) (simp add: Stored_def Let_def par case_prod_beta)
  qed
qed

lemma Stored_adapters:
  "\<forall>x \<in> set (fst (Stored hash p ev ad)). pe_AdapterId x = ad"
  "map_of (snd (Stored hash p ev ad)) b = Some pe \<Longrightarrow> map_of p b = Some pe \<or> po_adapter pe = ad"
proof -
  show "\<forall>x \<in> set (fst (Stored hash p ev ad)). pe_AdapterId x = ad"
  proof (cases rule: Stored_cases [of hash p ev ad])
    case (some xs t)
    then show ?thesis using storedStep_entries [of "bs_BlockSize ev" ad xs "[]" t p] by simp
  qed simp
  assume m: "map_of (snd (Stored hash p ev ad)) b = Some pe"
  show "map_of p b = Some pe \<or> po_adapter pe = ad"
  proof (cases rule: Stored_cases [of hash p ev ad])
    case none
    then show ?thesis using m by simp
  next
    case (some xs t)
    then show ?thesis using m by (intro storedStep_pos) simp
  qed
qed

lemma Removed_spec:
  "(\<forall>ep \<in> set (fst (Removed p hashes)). \<exists>b pe. map_of p b = Some pe \<and> ep_AdapterID ep = po_adapter pe \<and>
      ep_PrefixHash ep = hashBytes (po_prefixHash pe) \<and> ep_TokenCount ep = po_tokenCount pe) \<and>
   (\<forall>b. map_of (snd (Removed p hashes)) b = (if b \<in> set hashes then None else map_of p b)) \<and>
   (\<forall>b \<in> set hashes. \<forall>pe. map_of p b = Some pe \<longrightarrow>
      (\<exists>ep \<in> set (fst (Removed p hashes)). ep_PrefixHash ep = hashBytes (po_prefixHash pe) \<and> ep_AdapterID ep = po_adapter pe))"
proof (induction hashes rule: rev_induct)
  case Nil
  then show ?case by (simp add: Removed_def)
next
  case (snoc h hashes)
  obtain out q where R: "Removed p hashes = (out, q)" by fastforce
  note IH = snoc.IH [unfolded R fst_conv snd_conv]
  show ?case
  proof (cases "map_of q h")
    case None
    then have "Removed p (hashes @ [h]) = (out, q)" using R by (simp add: Removed_def)
    then show ?thesis using IH None by (auto split: if_splits)
  next
    case (Some pe)
    let ?ep = "\<lparr>ep_PrefixHash = hashBytes (po_prefixHash pe), ep_AdapterID = po_adapter pe, ep_TokenCount = po_tokenCount pe\<rparr>"
    have S: "Removed p (hashes @ [h]) = (out @ [?ep], AList.delete h q)" using R Some by (simp add: Removed_def)
    have "map_of p h = Some pe" using IH Some by (auto split: if_splits)
    then show ?thesis using IH unfolding S by (auto simp: gomap_simps split: if_splits)
  qed
qed

definition adaptersKnown :: "Reporter \<Rightarrow> bool" where
  "adaptersKnown r \<longleftrightarrow>
     (\<forall>x \<in> set (rep_pending r). pe_AdapterId x \<in> knownAdapters (rep_cfg r)) \<and>
     (\<forall>b pe. map_of (rep_pos r) b = Some pe \<longrightarrow> po_adapter pe \<in> knownAdapters (rep_cfg r))"

lemma reporter_inv_eq: "reporter_inv r \<longleftrightarrow> length (rep_pending r) < rep_maxPend r \<and> adaptersKnown r"
  by (auto simp: reporter_inv_def adaptersKnown_def)

definition stepOk :: "Reporter \<Rightarrow> Reporter \<times> rpc list \<Rightarrow> bool" where
  "stepOk r res \<longleftrightarrow>
     reporter_inv (fst res) \<and> rep_cfg (fst res) = rep_cfg r \<and> rep_maxPend (fst res) = rep_maxPend r \<and>
     (\<forall>c \<in> set (snd res). rpcOk (rep_cfg r) c)"

lemma flush_ok: "adaptersKnown r \<Longrightarrow> 0 < rep_maxPend r \<Longrightarrow> stepOk r (flush r)"
  using sendAdds_ok [of "rep_pending r" r] by (auto simp: stepOk_def reporter_inv_eq adaptersKnown_def flush_def)

lemma handleStored_ok:
  assumes "reporter_inv r"
  shows "stepOk r (handleStored hash ts e r)"
proof -
  obtain ad ok where ad: "AdapterID (rep_cfg r) (bs_LoRAID e) = (ad, ok)" by fastforce
  show ?thesis
  proof (cases ok)
    case False
    then show ?thesis using assms ad by (simp add: handleStored_def stepOk_def reporter_inv_def)
  next
    case True
    then have known: "ad \<in> knownAdapters (rep_cfg r)" using ad AdapterID_known by simp
    obtain es p where S: "Stored hash (rep_pos r) e ad = (es, p)" by fastforce
    define r1 where "r1 = r\<lparr>rep_pos := p, rep_pending := rep_pending r @ es\<rparr>"
    define r2 where "r2 = (if 0 < ts then r1\<lparr>rep_pendTs := ts\<rparr> else r1)"
    have frame: "rep_cfg r2 = rep_cfg r" "rep_maxPend r2 = rep_maxPend r" "rep_pending r2 = rep_pending r @ es" "rep_pos r2 = p"
      by (auto simp: r2_def r1_def)
    have h: "handleStored hash ts e r = (if rep_maxPend r2 \<le> length (rep_pending r2) then flush r2 else (r2, []))"
      using True ad S by (simp add: handleStored_def Let_def r2_def r1_def)
    have "\<forall>b pe. map_of (rep_pos r2) b = Some pe \<longrightarrow> po_adapter pe \<in> knownAdapters (rep_cfg r2)"
    proof (intro allI impI)
      fix b pe assume "map_of (rep_pos r2) b = Some pe"
      then have "map_of (rep_pos r) b = Some pe \<or> po_adapter pe = ad"
        using Stored_adapters(2) [of hash "rep_pos r" e ad b pe] by (simp add: frame S)
      then show "po_adapter pe \<in> knownAdapters (rep_cfg r2)" using assms known by (auto simp: frame reporter_inv_def)
    qed
    then have "adaptersKnown r2"
      using assms known Stored_adapters(1) [of hash "rep_pos r" e ad] by (auto simp: adaptersKnown_def frame reporter_inv_def S)
    moreover have "0 < rep_maxPend r2" using assms by (simp add: frame reporter_inv_def)
    ultimately show ?thesis using flush_ok [of r2] by (auto simp: h stepOk_def frame reporter_inv_eq)
  qed
qed

lemma handleRemoved_ok:
  assumes "reporter_inv r"
  shows "stepOk r (handleRemoved tsS ts hashes r)"
proof -
  obtain out p where R: "Removed (rep_pos r) hashes = (out, p)" by fastforce
  note rs = Removed_spec [of "rep_pos r" hashes, unfolded R fst_conv snd_conv]
  have ads: "\<forall>ep \<in> set out. ep_AdapterID ep \<in> knownAdapters (rep_cfg r)"
    using rs assms by (auto simp: reporter_inv_def)
  define r1 where "r1 = r\<lparr>rep_pos := p\<rparr>"
  have r1: "rep_cfg r1 = rep_cfg r" "rep_maxPend r1 = rep_maxPend r" "rep_l2TierPresent r1 = rep_l2TierPresent r"
    by (simp_all add: r1_def)
  have inv1: "reporter_inv r1" using rs assms by (auto simp: r1_def reporter_inv_def split: if_splits)
  then have f: "stepOk r1 (flush r1)" by (intro flush_ok) (auto simp: reporter_inv_eq)
  have down: "\<forall>c \<in> set (sendAdds (fst (flush r1)) (map downgrade out) ts). rpcOk (rep_cfg r) c"
    using sendAdds_ok [of "map downgrade out" "fst (flush r1)"] ads by (auto simp: downgrade_def r1)
  have pub: "\<forall>ep \<in> set out. rpcOk (rep_cfg r) (Publish (EvictedEvent (rep_cfg r) (ep_PrefixHash ep) (ep_AdapterID ep) tsS))"
    using ads by (simp add: EvictedEvent_def)
  show ?thesis
  proof (cases "rep_l2TierPresent r")
    case True
    then show ?thesis using f inv1 down
      by (auto simp: handleRemoved_def R Let_def case_prod_beta r1_def [symmetric] stepOk_def r1)
  next
    case False
    then show ?thesis using f pub
      by (auto simp: handleRemoved_def R Let_def case_prod_beta r1_def [symmetric] stepOk_def r1)
  qed
qed

lemma handleEvent_ok:
  assumes "reporter_inv r"
  shows "stepOk r (handleEvent hash ts ev r)"
proof (cases ev)
  case EvCleared
  then show ?thesis using assms
    by (auto simp: stepOk_def handleEvent_def handleCleared_def reporter_inv_def Cleared_def ClearedEvent_def knownAdapters_def)
qed (use assms handleStored_ok handleRemoved_ok in \<open>auto simp: handleEvent_def\<close>)

lemma stepOk_seq:
  "stepOk r (r1, s1) \<Longrightarrow> stepOk r1 (r2, s2) \<Longrightarrow> stepOk r (r2, s1 @ s2)"
  by (auto simp: stepOk_def)

lemma handleEvents_ok: "reporter_inv r \<Longrightarrow> stepOk r (handleEvents hash ts evs r)"
proof (induction evs arbitrary: r)
  case Nil
  then show ?case by (simp add: stepOk_def)
next
  case (Cons ev evs)
  obtain r1 s1 where e: "handleEvent hash ts ev r = (r1, s1)" by fastforce
  obtain r2 s2 where es: "handleEvents hash ts evs r1 = (r2, s2)" by fastforce
  have ok: "stepOk r (r1, s1)" using handleEvent_ok [OF Cons.prems, of hash ts ev] by (simp add: e)
  then have "stepOk r1 (r2, s2)" using Cons.IH [of r1] by (simp add: es stepOk_def)
  then show ?case using stepOk_seq [OF ok] by (simp add: e es)
qed

lemma reporterRun_ok: "reporter_inv r \<Longrightarrow> stepOk r (reporterRun hash inputs r)"
proof (induction inputs arbitrary: r)
  case Nil
  then show ?case by (simp add: flush_ok reporter_inv_eq)
next
  case (Cons inp inputs)
  obtain r1 s1 where e: "handleInput hash inp r = (r1, s1)" by fastforce
  obtain r2 s2 where es: "reporterRun hash inputs r1 = (r2, s2)" by fastforce
  have "stepOk r (handleInput hash inp r)"
    using Cons.prems by (cases inp) (auto simp: handleInput_def handleEvents_ok flush_ok reporter_inv_eq)
  then have ok: "stepOk r (r1, s1)" by (simp add: e)
  then have "stepOk r1 (r2, s2)" using Cons.IH [of r1] by (simp add: es stepOk_def)
  then show ?case using stepOk_seq [OF ok] by (simp add: e es)
qed

lemma NewReporter_inv: "reporter_inv (NewReporter c [])"
  by (simp add: NewReporter_def Let_def reporter_inv_def newPositionalIndex_def)

subsection \<open>At the server\<close>

definition serveAll :: "(gotime \<times> rpc) list \<Rightarrow> Index \<Rightarrow> Index" where
  "serveAll calls i = fold (\<lambda>(now, c). serve now c) calls i"

lemma serve_publish: "serve now (Publish ev) i = snd (PublishEvent now ev i)"
  by (simp add: serve_def)

lemma serve_adds: "cu_TenantId u \<noteq> ProbeTenantID \<Longrightarrow> serve now (SendAdds u) i = Ingest i now (updateFromProto u)"
  by (simp add: serve_def)

lemma idx_inv_serve: "idx_inv i \<Longrightarrow> idx_inv (serve now c i)"
  by (cases c)
    (auto simp: serve_def PublishEvent_def idx_inv_Ingest idx_inv_ApplyEvent split: option.splits)

lemma idx_inv_serveAll: "idx_inv i \<Longrightarrow> idx_inv (serveAll calls i)"
  by (induction calls arbitrary: i) (auto simp: serveAll_def idx_inv_serve)

lemma serve_evicted:
  assumes "prefix_inv i" and "cf_TenantID c \<noteq> ProbeTenantID"
  shows "held (serve now (Publish (EvictedEvent c h ad ts)) i)
      (PrefixKey (cf_TenantID c) (cf_ModelID c) scheme ad h) (cf_ReplicaID c) = None"
  using assms
  by (simp add: serve_publish PublishEvent_def EvictedEvent_def eventTypeFromProto_def
      held_ApplyEvent evictMatch_def)

lemma serve_publish_removes: "idx_inv i \<Longrightarrow> held i k r = None \<Longrightarrow> held (serve now (Publish ev) i) k r = None"
  using PublishEvent_spec(4) [of i now ev k r] by (auto simp: serve_publish idx_inv_def)

lemma serve_publishes_none:
  assumes "idx_inv i" and "held i k r = None" and "list_all (\<lambda>(_, c). \<exists>ev. c = Publish ev) calls"
  shows "held (serveAll calls i) k r = None"
  using assms
  by (induction calls arbitrary: i) (auto simp: serveAll_def idx_inv_serve serve_publish_removes)

lemma map_snd_split:
  "map snd calls = a @ x # b \<Longrightarrow> \<exists>before now after. calls = before @ (now, x) # after \<and> map snd after = b"
proof (induction a arbitrary: calls)
  case Nil
  then show ?case by (cases calls) (auto intro: exI [of _ "[]"])
next
  case (Cons y a)
  then obtain c cs where "calls = c # cs" "map snd cs = a @ x # b" by (cases calls) auto
  then show ?case using Cons.IH [of cs] by (metis append_Cons)
qed

text \<open>After an eviction is forwarded nothing of the evicted blocks is held, buffered stores included.\<close>

lemma evictions_effective:
  assumes "idx_inv i" and "cf_TenantID (rep_cfg r) \<noteq> ProbeTenantID" and "\<not> rep_l2TierPresent r"
    and "map snd calls = snd (handleRemoved tsS ts hashes r)"
    and "b \<in> set hashes" and "map_of (rep_pos r) b = Some pe"
  shows "held (serveAll calls i)
      (PrefixKey (cf_TenantID (rep_cfg r)) (cf_ModelID (rep_cfg r)) scheme (po_adapter pe) (hashBytes (po_prefixHash pe)))
      (cf_ReplicaID (rep_cfg r)) = None"
proof -
  let ?c = "rep_cfg r"
  obtain out p where R: "Removed (rep_pos r) hashes = (out, p)" by fastforce
  note rs = Removed_spec [of "rep_pos r" hashes, unfolded R fst_conv snd_conv]
  let ?pub = "\<lambda>ep. Publish (EvictedEvent ?c (ep_PrefixHash ep) (ep_AdapterID ep) tsS)"
  have sent: "snd (handleRemoved tsS ts hashes r) = snd (flush (r\<lparr>rep_pos := p\<rparr>)) @ map ?pub out"
    using assms(3) by (simp add: handleRemoved_def R Let_def case_prod_beta)
  obtain ep where ep: "ep \<in> set out" "ep_PrefixHash ep = hashBytes (po_prefixHash pe)" "ep_AdapterID ep = po_adapter pe"
    using rs assms(5,6) by blast
  then obtain xs ys where "out = xs @ ep # ys" by (meson split_list)
  then have "map snd calls = (snd (flush (r\<lparr>rep_pos := p\<rparr>)) @ map ?pub xs) @ ?pub ep # map ?pub ys"
    using assms(4) sent by simp
  then have "\<exists>before now after. calls = before @ (now, ?pub ep) # after \<and> map snd after = map ?pub ys"
    by (rule map_snd_split)
  then obtain before now after where calls: "calls = before @ (now, ?pub ep) # after"
      and rest: "map snd after = map ?pub ys"
    by (elim exE conjE)
  have inv: "idx_inv (serveAll before i)" using assms(1) by (rule idx_inv_serveAll)
  have img: "snd ` set after = ?pub ` set ys" using arg_cong [OF rest, of set] by simp
  have "\<exists>ev. snd x = Publish ev" if "x \<in> set after" for x
    using imageI [OF that, of snd] unfolding img by (rule imageE) (rule exI)
  then have "list_all (\<lambda>(_, c). \<exists>ev. c = Publish ev) after" by (simp add: list_all_iff case_prod_beta)
  moreover have "held (serve now (?pub ep) (serveAll before i))
      (PrefixKey (cf_TenantID ?c) (cf_ModelID ?c) scheme (po_adapter pe) (hashBytes (po_prefixHash pe))) (cf_ReplicaID ?c) = None"
    using serve_evicted [OF _ assms(2)] inv ep by (simp add: idx_inv_def)
  ultimately show ?thesis
    using serve_publishes_none [OF idx_inv_serve [OF inv]] by (simp add: calls serveAll_def)
qed

end
