(* ===== verification/End_To_End.thy ===== *)
theory End_To_End
  imports Subscriber_Facts
begin

text \<open>
  From the engine to the answer: the tokens an engine stores, fingerprinted by the subscriber
  and ingested by the server, are found by a lookup on a prompt that begins with them.
\<close>

subsection \<open>What an update stores\<close>

lemma held_after_report:
  assumes "idx_inv i" and "fits i now (updateFromProto u)" and "cu_HashScheme u \<noteq> []"
    and "p \<in> set (cu_Prefixes u)" and "pe_BlockHashes p = []" and "pe_BlockTokenCounts p = []" and "cu_AdapterId u = []"
  shows "\<exists>e. held (Ingest i now (updateFromProto u))
      (PrefixKey (cu_TenantId u) (cu_ModelId u) (cu_HashScheme u) (pe_AdapterId p) (pe_PrefixHash p)) (cu_ReplicaId u) = Some e \<and>
    re_lastSeen e = ingestTime now (updateFromProto u)"
proof -
  let ?u = "updateFromProto u"
  let ?k = "PrefixKey (cu_TenantId u) (cu_ModelId u) (cu_HashScheme u) (pe_AdapterId p) (pe_PrefixHash p)"
  let ?p = "\<lparr>pr_PrefixHash = pe_PrefixHash p, pr_TokenCount = pe_TokenCount p,
      pr_BlockHashes = pe_BlockHashes p, pr_BlockTokenCounts = pe_BlockTokenCounts p,
      pr_Tier = cacheTierFromProto (pe_Tier p), pr_Adapter = pe_AdapterId p\<rparr>"
  have "?p \<in> set (u_Prefixes ?u)" using assms(4) by (auto simp: updateFromProto_def)
  moreover have "?k \<in> fst ` set (prefixOps ?u ?p)"
    using assms(5-7) by (simp add: prefixOps_def Let_def updateFromProto_def)
  ultimately have "?k \<in> fst ` set (ingestOps ?u)"
    using assms(3) by (fastforce simp: ingestOps_def updateFromProto_def)
  then obtain c t where "map_of (rev (ingestOps ?u)) ?k = Some (c, t)"
    using mem_keys [of ?k "rev (ingestOps ?u)"] by (auto simp: image_iff)
  from held_stored [OF this, of i now] show ?thesis
    unfolding held_Ingest_fits [OF assms(1,2)]
    by (auto simp: updateFromProto_def entryView_def map_option_eq_Some)
qed

subsection \<open>What a lookup finds\<close>

lemma sum_map_const: "\<forall>x \<in> set xs. f x = c \<Longrightarrow> sum_list (map f xs) = int (length xs) * c"
  by (induction xs) (auto simp: distrib_right)

text \<open>A chain of positive counts that fits an \<open>int32\<close>: whoever holds the first block fresh is scored.\<close>

lemma lookup_complete:
  assumes "prefix_inv i" and "lr_HashScheme req \<noteq> []" and "lr_BlockHashes req = h # hs"
    and "length (lr_BlockTokenCounts req) = length (lr_BlockHashes req)"
    and "\<forall>n \<in> set (lr_BlockTokenCounts req). n = b" and "0 < b" and "int (length (lr_BlockHashes req)) * b < 2 ^ 31"
    and "held i (requestKey req h) r = Some e"
    and "\<not> flt_le (freshnessAt now (re_lastSeen e) (ttlFor i (lr_Tenant req))) (Fin 0)"
  shows "r \<in> sc_ReplicaID ` set (fst (lookupWithHits i now req))"
proof -
  let ?L = "leadOf i req now r"
  have "look i req now r h = Some e" using assms(8,9) by (simp add: look_def freshFor_def)
  moreover obtain n ns where counts: "lr_BlockTokenCounts req = n # ns" using assms(3,4) by (cases "lr_BlockTokenCounts req") auto
  ultimately have ne: "0 < length ?L" by (simp add: leadOf_def leadingRun_def blocksOf_def assms(3))
  have sub: "set ?L \<subseteq> set (blocksOf req)" and len: "length ?L \<le> length (lr_BlockHashes req)"
    using set_takeWhileD length_takeWhile_le [of _ "blocksOf req"] assms(4)
    unfolding leadOf_def leadingRun_def blocksOf_def by (fastforce, metis length_zip min.idem)
  have "snd x = b" if "x \<in> set ?L" for x
  proof -
    have "(fst x, snd x) \<in> set (zip (lr_BlockHashes req) (lr_BlockTokenCounts req))"
      using that sub by (auto simp: blocksOf_def)
    from set_zip_rightD [OF this] show ?thesis using assms(5) by simp
  qed
  then have sum: "sum_list (map snd ?L) = int (length ?L) * b" by (intro sum_map_const) simp
  have "int (length ?L) * b \<le> int (length (lr_BlockHashes req)) * b"
    using len assms(6) by (intro mult_right_mono) auto
  moreover have "0 < int (length ?L) * b" using ne assms(6) by simp
  ultimately have "0 < runTokens i req now r"
    using assms(7) by (simp add: runTokens_def sum is_int32_def)
  moreover have "b \<le> int (length (lr_BlockHashes req)) * b"
    using assms(3,6) by (simp add: mult_le_cancel_right2)
  then have "is_int32 b" using assms(6,7) unfolding is_int32_def by linarith
  then have "\<forall>n \<in> set (lr_BlockTokenCounts req). is_int32 n" using assms(5) by metis
  ultimately have "r \<in> sc_ReplicaID ` set (fst (lookupChain i now req))"
    using lookupChain_replicas [OF assms(1)] by blast
  then show ?thesis using assms(2-4) by (simp add: lookupWithHits_def)
qed

subsection \<open>The service on resolved tokens\<close>

definition tokenRequest :: "Config \<Rightarrow> string \<Rightarrow> token list \<Rightarrow> LookupRouteRequest" where
  "tokenRequest c ad toks =
     \<lparr>rq_ModelId = cf_ModelID c, rq_TenantId = cf_TenantID c, rq_PrefixHash = [], rq_PrefixTokenCount = 0,
      rq_HashScheme = cf_HashScheme c, rq_Slo = None, rq_BlockHashes = [], rq_BlockTokenCounts = [],
      rq_TokenIds = toks, rq_PromptText = [], rq_AdapterId = ad\<rparr>"

text \<open>A call with no deadline and no policy store, on an index nothing else touches meanwhile.\<close>

definition calmEnv :: "Index \<Rightarrow> gotime \<Rightarrow> callEnv" where
  "calmEnv i now =
     \<lparr>ce_callerDeadline = False, ce_err0 = False, ce_resolved = True, ce_err1 = False, ce_looked = True,
      ce_err2 = False, ce_lookupElapsed = 0, ce_elapsed = 0, ce_inFlight = 0,
      ce_lookupFn = LookupRoute i now, ce_affinity = AffinityHint i\<rparr>"

lemma no_policies:
  "svc_policies s = None \<Longrightarrow> delivered s req inp res = res"
  by (simp add: delivered_def applyLookupStrategyGates_def policyTenantHotEnabled_def DefaultEnableTenantHot_def
      resultStages_def prefixGate_def policyMinimumPrefixTokens_def applyMatchedTokensFloor_def
      policyMinimumMatchedTokens_def scoreFloor_def policyRoutingFloorScore_def)

lemma Chain_counts: "\<forall>n \<in> set (snd (Chain hash toks bs)). n = wrap32 bs"
  by (auto simp: Chain_def Let_def)

lemma Chain_lengths:
  "length (snd (Chain hash toks bs)) = length (fst (Chain hash toks bs))"
  "0 < bs \<Longrightarrow> length (fst (Chain hash toks bs)) = length toks div nat bs"
  using length_tokenBlocks [of "nat bs" toks]
  by (auto simp: Chain_def Let_def PrefixHashes_def PrefixHashesFrom_roll simp del: length_tokenBlocks)

lemma Chain_head:
  assumes "0 < bs" and "nat bs \<le> length toks"
  shows "hd (fst (Chain hash (toks @ extra) bs)) = hd (fst (Chain hash toks bs))"
proof -
  have hd: "hd (fst (Chain hash ts bs)) = hashBytes (ContentHash hash (take (nat bs) ts))" if "nat bs \<le> length ts" for ts
  proof -
    have "0 < length ts div nat bs" using that assms(1) by (simp add: div_greater_zero_iff)
    then obtain n where "length ts div nat bs = Suc n" by (cases "length ts div nat bs") auto
    then have "tokenBlocks (nat bs) ts = take (nat bs) ts # map (\<lambda>i. take (nat bs) (drop (i * nat bs) ts)) [1..<Suc n]"
      unfolding tokenBlocks_def by (simp add: upt_conv_Cons del: upt_Suc)
    then show ?thesis
      using assms(1) by (simp add: Chain_def PrefixHashes_def PrefixHashesFrom_roll Let_def rollStep_def)
  qed
  show ?thesis using assms(2) by (simp add: hd)
qed

lemma resolve_tokens:
  assumes "toks \<noteq> []" and "length toks \<le> MaxLookupTokens" and "fst (Chain hash toks (svc_blockSize s)) \<noteq> []"
  shows "in_blockHashes (resolveLookupChain hash s env (tokenRequest c ad toks) True) = fst (Chain hash toks (svc_blockSize s))"
    and "in_blockTokenCounts (resolveLookupChain hash s env (tokenRequest c ad toks) True) = snd (Chain hash toks (svc_blockSize s))"
    and "\<not> in_failOpen (resolveLookupChain hash s env (tokenRequest c ad toks) True)"
  using assms
  by (simp_all add: resolveLookupChain_def tokenRequest_def fingerprintInputs_def case_prod_beta Let_def
      chainHashesIfEnabled_def chainCountsIfEnabled_def)

text \<open>
  The server answers PREFIX_MATCH with every replica that holds the first block of the tokens.
\<close>

lemma service_finds:
  assumes "prefix_inv i" and "svc_policies s = None" and "0 < svc_blockSize s" and "svc_blockSize s < 2 ^ 20"
    and "cf_TenantID c \<noteq> []" and "cf_TenantID c \<noteq> ProbeTenantID" and "cf_ModelID c \<noteq> []" and "cf_HashScheme c \<noteq> []"
    and "nat (svc_blockSize s) \<le> length toks" and "length toks \<le> MaxLookupTokens"
    and "held i (PrefixKey (cf_TenantID c) (cf_ModelID c) (cf_HashScheme c) ad (hd (fst (Chain hash toks (svc_blockSize s)))))
      r = Some e"
    and "\<not> flt_le (freshnessAt now (re_lastSeen e) (ttlFor i (cf_TenantID c))) (Fin 0)"
  defines "resp \<equiv> fst (fst (serviceLookupRoute hash s (calmEnv i now) (tokenRequest c ad toks) i))"
  shows "rp_ReasonCode resp = reasonPrefixMatch" and "r \<in> ps_ReplicaId ` set (rp_ReplicaScores resp)"
proof -
  let ?bs = "svc_blockSize s" and ?env = "calmEnv i now" and ?req = "tokenRequest c ad toks"
  have "0 < length toks div nat ?bs" using assms(3,9) by (simp add: div_greater_zero_iff)
  then have ne: "fst (Chain hash toks ?bs) \<noteq> []" using Chain_lengths(2) [OF assms(3), of hash toks] by auto
  have "toks \<noteq> []" using assms(3,9) by auto
  define inp where "inp = resolveLookupChain hash s ?env ?req True"
  note inp = resolve_tokens [OF \<open>toks \<noteq> []\<close> assms(10) ne, of ?env c ad, folded inp_def]
  define lreq where "lreq = lookupRequest ?req inp True"
  have lreq: "lr_BlockHashes lreq = fst (Chain hash toks ?bs)" "lr_BlockTokenCounts lreq = snd (Chain hash toks ?bs)"
      "lr_Tenant lreq = cf_TenantID c" "lr_Model lreq = cf_ModelID c" "lr_HashScheme lreq = cf_HashScheme c"
      "requestKey lreq h = PrefixKey (cf_TenantID c) (cf_ModelID c) (cf_HashScheme c) ad h" for h
    by (simp_all add: lreq_def lookupRequest_def inp tokenRequest_def requestKey_def)
  have bs: "wrap32 ?bs = ?bs" using assms(3,4) by (intro wrap32_id) (simp add: is_int32_def)
  have found: "r \<in> sc_ReplicaID ` set (fst (lookupWithHits i now lreq))"
  proof (rule lookup_complete [OF assms(1)])
    show "lr_BlockHashes lreq = hd (fst (Chain hash toks ?bs)) # tl (fst (Chain hash toks ?bs))" using ne by (simp add: lreq)
    show "\<forall>n \<in> set (lr_BlockTokenCounts lreq). n = ?bs" using Chain_counts [of hash toks ?bs] by (simp add: lreq bs)
    have "length toks div nat ?bs * nat ?bs \<le> length toks" by simp
    then have "int (length toks div nat ?bs) * ?bs \<le> int (length toks)"
      using assms(3) by (metis int_nat_eq of_nat_le_iff of_nat_mult order_less_imp_le)
    also have "\<dots> < 2 ^ 31" using assms(10) by (simp add: MaxLookupTokens_def)
    finally show "int (length (lr_BlockHashes lreq)) * ?bs < 2 ^ 31" by (simp add: lreq Chain_lengths(2) [OF assms(3)])
  qed (use assms in \<open>simp_all add: lreq Chain_lengths(1)\<close>)
  then have scores: "fst (lookupWithHits i now lreq) \<noteq> []" by auto
  define res where "res = LookupRoute i now lreq"
  have res: "res = \<lparr>res_Scores = fst (lookupWithHits i now lreq), res_Strategy = StrategyPrefixMatch,
      res_hits = snd (lookupWithHits i now lreq)\<rparr>"
    using scores ne assms(5-8) by (simp add: res_def LookupRoute_def LookupRouteAt_def lreq Chain_lengths(1) case_prod_beta Let_def)
  have "serviceLookupRoute hash s ?env ?req i =
      buildLookupResponse s ?env ?req (cf_ModelID c) (cf_TenantID c) (applyLookupStrategyGates s res (cf_TenantID c)) 0 inp i"
    using assms(2,6) \<open>toks \<noteq> []\<close> inp(3)
    by (simp add: serviceLookupRoute_def Let_def calmEnv_def tokenRequest_def policyChainRequired_def DefaultRequireChain_def
        hasDeadline_def policyTimeout_def willTokenize_def policyChainMatchingEnabled_def DefaultEnableChainMatching_def
        policyMinimumPrefixTokens_def inp_def [unfolded calmEnv_def tokenRequest_def, symmetric] res_def lreq_def)
  moreover have "resultStages s (cf_TenantID c) inp (applyLookupStrategyGates s res (cf_TenantID c)) = res"
    using no_policies [OF assms(2), of ?req inp res] by (simp add: delivered_def tokenRequest_def)
  ultimately have resp: "resp = fst (resultAnswer ?req (cf_ModelID c) res 0 inp)"
    by (simp add: resp_def buildLookupResponse_def Let_def resultAnswer_def res)
  show "rp_ReasonCode resp = reasonPrefixMatch" by (simp add: resp resultAnswer_def res reasonForStrategy_def)
  show "r \<in> ps_ReplicaId ` set (rp_ReplicaScores resp)"
    using found by (force simp: resp resultAnswer_def res scoreToProto_def)
qed

subsection \<open>From the engine's events to the answer\<close>

lemma Stored_shape:
  "\<forall>x \<in> set (fst (Stored hash p ev ad)). pe_AdapterId x = ad \<and> pe_BlockHashes x = [] \<and> pe_BlockTokenCounts x = []"
proof (cases rule: Stored_cases [of hash p ev ad])
  case (some xs t)
  then show ?thesis using storedStep_entries [of "bs_BlockSize ev" ad xs "[]" t p] by auto
qed simp

lemma feed_shape:
  "\<forall>x \<in> set (fst (feed hash bs ad parent pieces p)). pe_AdapterId x = ad \<and> pe_BlockHashes x = [] \<and> pe_BlockTokenCounts x = []"
proof (induction hash bs ad parent pieces p rule: feed.induct)
  case (2 hash bs ad parent blocks toks pieces p)
  let ?ev = "\<lparr>bs_BlockHashes = blocks, bs_ParentBlockHash = parent, bs_TokenIDs = toks, bs_BlockSize = bs, bs_LoRAID = None\<rparr>"
  obtain out q where S: "Stored hash p ?ev ad = (out, q)" by fastforce
  show ?case using "2.IH" [OF S [symmetric] refl] Stored_shape [of hash p ?ev ad]
    by (auto simp: S Let_def case_prod_beta)
qed simp

lemma stored_then_found:
  assumes "idx_inv i" and "wholePieces (svc_blockSize s) pieces" and "pieces \<noteq> []"
    and "configUpdate c ts (fst (feed hash (svc_blockSize s) ad parent pieces p)) = Some u"
    and "Option.bind parent (map_of p) = None"
    and "fits i now (updateFromProto u)" and "j = Ingest i now (updateFromProto u)"
    and "svc_policies s = None" and "svc_blockSize s < 2 ^ 20"
    and "cf_TenantID c \<noteq> []" and "cf_TenantID c \<noteq> ProbeTenantID" and "cf_ModelID c \<noteq> []" and "cf_HashScheme c \<noteq> []"
    and "prompt = concat (map snd pieces) @ extra" and "length prompt \<le> MaxLookupTokens"
    and "\<not> flt_le (freshnessAt now' (ingestTime now (updateFromProto u)) (ttlFor j (cf_TenantID c))) (Fin 0)"
  defines "resp \<equiv> fst (fst (serviceLookupRoute hash s (calmEnv j now') (tokenRequest c ad prompt) j))"
  shows "rp_ReasonCode resp = reasonPrefixMatch \<and> cf_ReplicaID c \<in> ps_ReplicaId ` set (rp_ReplicaScores resp)"
proof -
  let ?bs = "svc_blockSize s" and ?es = "fst (feed hash (svc_blockSize s) ad parent pieces p)"
  let ?toks = "concat (map snd pieces)"
  have bs: "0 < ?bs" using assms(2) by (simp add: wholePieces_def)
  have u: "cu_ReplicaId u = cf_ReplicaID c" "cu_TenantId u = cf_TenantID c" "cu_ModelId u = cf_ModelID c"
      "cu_HashScheme u = cf_HashScheme c" "cu_Prefixes u = ?es" "cu_AdapterId u = []" "?es \<noteq> []"
    using assms(4) by (auto simp: configUpdate_def split: if_splits)
  have chain: "map pe_PrefixHash ?es = fst (Chain hash ?toks ?bs)" by (rule feed_chain [OF assms(2,5)])
  then have "fst (Chain hash ?toks ?bs) \<noteq> []" using u(7) by (metis map_is_Nil_conv)
  then have "0 < length ?toks div nat ?bs" using Chain_lengths(2) [OF bs, of hash ?toks] by (metis length_greater_0_conv)
  then have long: "nat ?bs \<le> length ?toks" by (simp add: div_greater_zero_iff)
  have "hd ?es \<in> set ?es" using u(7) by simp
  then obtain e where e: "held j (PrefixKey (cf_TenantID c) (cf_ModelID c) (cf_HashScheme c) ad (pe_PrefixHash (hd ?es)))
      (cf_ReplicaID c) = Some e" "re_lastSeen e = ingestTime now (updateFromProto u)"
    using held_after_report [OF assms(1,6), of "hd ?es"] feed_shape [of hash ?bs ad parent pieces p] assms(7,13)
    unfolding u by auto
  have key: "pe_PrefixHash (hd ?es) = hd (fst (Chain hash prompt ?bs))"
    using chain u(7) Chain_head [OF bs long, of hash extra] assms(14) by (metis hd_map)
  have inv: "prefix_inv j" using idx_inv_Ingest [OF assms(1)] assms(7) by (simp add: idx_inv_def)
  have len: "nat ?bs \<le> length prompt" using long assms(14) by simp
  have fresh: "\<not> flt_le (freshnessAt now' (re_lastSeen e) (ttlFor j (cf_TenantID c))) (Fin 0)" using assms(16) e(2) by simp
  show ?thesis
    using service_finds [OF inv assms(8) bs assms(9-13) len assms(15) e(1) [unfolded key] fresh]
    by (simp add: resp_def)
qed

end
