(* ===== verification/Service_Properties.thy ===== *)
theory Service_Properties
  imports Examples End_To_End
begin

text \<open>
  The theorems about the gRPC service, the policy store and the content fingerprint: what an
  answer may say, what a match is worth, which hits are credited, which traffic cannot reach the
  probe's tenant, and what a fingerprint identifies.
\<close>

subsection \<open>An example call\<close>

definition exService :: inferenceCacheService where
  "exService = newInferenceCacheService None"

definition exRoute :: LookupRouteRequest where
  "exRoute =
     \<lparr>rq_ModelId = ''m'', rq_TenantId = ''t'', rq_PrefixHash = ''a'', rq_PrefixTokenCount = 10,
      rq_HashScheme = ''s'', rq_Slo = None, rq_BlockHashes = [], rq_BlockTokenCounts = [],
      rq_TokenIds = [], rq_PromptText = [], rq_AdapterId = []\<rparr>"

definition exHash :: hashSeed where
  "exHash bytes seed = word_of_int (fold (\<lambda>c n. 31 * n + byte_val c) bytes (uint seed))"

definition exCall :: "answer \<times> Index" where
  "exCall = serviceLookupRoute exHash exService (calmEnv exIndex 5) exRoute exIndex"

definition exResponse :: LookupRouteResponse where
  "exResponse = fst (fst exCall)"

lemma exResponse_view:
  "(rp_ReasonCode exResponse, map ps_ReplicaId (rp_ReplicaScores exResponse)) = (reasonPrefixMatch, [''r''])"
  by code_simp

lemma exCall_eq: "serviceLookupRoute exHash exService (calmEnv exIndex 5) exRoute exIndex = ((exResponse, snd (fst exCall)), snd exCall)"
  by (simp add: exResponse_def exCall_def)

lemma calm_lookup: "ce_lookupFn (calmEnv i now) = LookupRouteAt i i i now now"
  by (simp add: calmEnv_def fun_eq_iff LookupRoute_def)

subsection \<open>Answers\<close>

text \<open>
  C23. Every answer of LookupRoute keeps the contract, whatever happens to the index between the
  moments it is read: its reason is one of the nine documented ones, it lists replicas exactly when
  the reason is a hint, and exactly one observation is recorded, with the same reason, hit flag
  and latency as the response.
\<close>

theorem route_answer_contract:
  assumes "reachable i1" and "ce_lookupFn env = LookupRouteAt i1 i2 i3 now1 now2"
    and "serviceLookupRoute hash s env req i = ((resp, obs), i')"
  shows "rp_ReasonCode resp \<in> {reasonPrefixMatch, reasonTenantHot, reasonAffinityHint, reasonNoHint, reasonTimeout,
      reasonPolicyRequiresChain, reasonUnknownTenant, reasonUnknownModel, reasonUnknownHashScheme} \<and>
    (rp_ReplicaScores resp \<noteq> [] \<longleftrightarrow> rp_ReasonCode resp \<in> {reasonPrefixMatch, reasonTenantHot, reasonAffinityHint}) \<and>
    (\<exists>d. obs = [ObserveLookup (rq_ModelId req) (rp_ReasonCode resp) (rp_ReplicaScores resp \<noteq> []) d] \<and>
      rp_LookupLatencyUs resp = microseconds d)"
  using service_vocabulary [OF reachable_prefix_inv [OF assms(1)] assms(2,3)]
    service_observes [of req hash s env i] assms(3)
  by (simp add: contractReasons_def hintReasons_def observes_def)

theorem route_answer_contract_witness:
  "rp_ReasonCode exResponse = reasonPrefixMatch \<and> rp_ReplicaScores exResponse \<noteq> []"
  using route_answer_contract [OF reachable_exIndex calm_lookup exCall_eq] exResponse_view by simp

text \<open>
  C24. A PREFIX_MATCH is sound and honours the policy: every listed replica held, fresh at the moment of the
  lookup, an entry in the request's own tenant, model, scheme and adapter partition; it covers the
  policy's minimum of matched tokens; and the best score reaches the policy's routing floor.
\<close>

theorem prefix_match_sound:
  assumes "reachable i1" and "ce_lookupFn env = LookupRouteAt i1 i2 i3 now1 now2"
    and "serviceLookupRoute hash s env req i = ((resp, obs), i')"
    and "rp_ReasonCode resp = reasonPrefixMatch" and "sc \<in> set (rp_ReplicaScores resp)"
  shows "(\<exists>h e. held i1 (PrefixKey (rq_TenantId req) (rq_ModelId req) (rq_HashScheme req) (rq_AdapterId req) h)
        (ps_ReplicaId sc) = Some e \<and>
      \<not> flt_le (freshnessAt now1 (re_lastSeen e) (ttlFor i1 (rq_TenantId req))) (Fin 0)) \<and>
    (0 < policyMinimumMatchedTokens s (rq_TenantId req) \<longrightarrow>
      policyMinimumMatchedTokens s (rq_TenantId req) \<le> ps_MatchedTokens sc) \<and>
    (flt_lt (Fin 0) (policyRoutingFloorScore s (rq_TenantId req)) \<longrightarrow>
      \<not> flt_lt (ps_Score (hd (rp_ReplicaScores resp))) (policyRoutingFloorScore s (rq_TenantId req))) \<and>
    rq_TenantId req \<noteq> ProbeTenantID"
  using service_match [OF reachable_prefix_inv [OF assms(1)] assms(2-5)] by auto

theorem prefix_match_sound_witness:
  "\<exists>h e. held exIndex (PrefixKey ''t'' ''m'' ''s'' [] h) ''r'' = Some e"
proof -
  have reason: "rp_ReasonCode exResponse = reasonPrefixMatch" using exResponse_view by blast
  have "map ps_ReplicaId (rp_ReplicaScores exResponse) = [''r'']" using exResponse_view by blast
  then obtain sc where sc: "rp_ReplicaScores exResponse = [sc]" "ps_ReplicaId sc = ''r''"
    by (auto simp: map_eq_Cons_conv)
  then have "sc \<in> set (rp_ReplicaScores exResponse)" by simp
  note t = prefix_match_sound [OF reachable_exIndex calm_lookup exCall_eq reason this, THEN conjunct1]
  have "rq_TenantId exRoute = ''t''" "rq_ModelId exRoute = ''m''" "rq_HashScheme exRoute = ''s''" "rq_AdapterId exRoute = []"
    by (simp_all add: exRoute_def)
  then show ?thesis using t unfolding sc(2) by metis
qed

text \<open>
  C25. Only delivered hits are credited, even when the entry a lookup pointed at was removed or replaced
  before the credit: if serving a request changes an entry at all, the answer was a PREFIX_MATCH,
  the entry's replica is listed in it, and the entry lies in the request's own partition.
\<close>

theorem credit_only_delivered_hits:
  assumes "reachable i1" and "later i1 i" and "ce_lookupFn env = LookupRouteAt i1 i2 i3 now1 now2"
    and "serviceLookupRoute hash s env req i = ((resp, obs), i')" and "held i' k r \<noteq> held i k r"
  shows "rp_ReasonCode resp = reasonPrefixMatch \<and> r \<in> ps_ReplicaId ` set (rp_ReplicaScores resp) \<and>
    (\<exists>h. k = PrefixKey (rq_TenantId req) (rq_ModelId req) (rq_HashScheme req) (rq_AdapterId req) h)"
  using service_credit [OF assms] by blast

definition exLFU :: Index where
  "exLFU = Ingest (New [WithEvictionResolver (\<lambda>_. ''lfu'')]) 5 (exUpdate ''t'' ''r'' [exRef ''a'' 10])"

lemma reachable_exLFU: "reachable exLFU"
  unfolding exLFU_def
  by (rule reachable.step [OF reachable.start index_step.ingest]) (simp add: isOption.intros)

theorem credit_only_delivered_hits_witness:
  "\<exists>resp obs i'. serviceLookupRoute exHash exService (calmEnv exLFU 5) exRoute exLFU = ((resp, obs), i') \<and>
     held i' (exKey ''a'') ''r'' \<noteq> held exLFU (exKey ''a'') ''r'' \<and> rp_ReasonCode resp = reasonPrefixMatch"
proof -
  obtain resp obs i' where call: "serviceLookupRoute exHash exService (calmEnv exLFU 5) exRoute exLFU = ((resp, obs), i')"
    by (metis surj_pair)
  have "held (snd (serviceLookupRoute exHash exService (calmEnv exLFU 5) exRoute exLFU)) (exKey ''a'') ''r'' \<noteq>
      held exLFU (exKey ''a'') ''r''" by code_simp
  then have "held i' (exKey ''a'') ''r'' \<noteq> held exLFU (exKey ''a'') ''r''" using call by simp
  then show ?thesis
    using call credit_only_delivered_hits [OF reachable_exLFU later.same calm_lookup call] by blast
qed

end
