(* ===== verification/Contract_Properties.thy ===== *)
theory Contract_Properties
  imports Examples End_To_End
begin

text \<open>
  The theorems about what the service's peers rely on: policy propagation, the write handlers,
  the tier enum, the affinity seed and the content fingerprint.
\<close>

subsection \<open>Policy propagation\<close>

lemma find_rev_map:
  "(\<And>p. g (f p) = g p) \<Longrightarrow> find (\<lambda>p. g p = k) (rev (map f ps)) = map_option f (find (\<lambda>p. g p = k) (rev ps))"
  by (induction ps) (auto simp: find_append split: option.splits)

definition normalizeFor :: "int \<Rightarrow> ResolvedPolicy \<Rightarrow> ResolvedPolicy" where
  "normalizeFor v p =
     (if PolicyPropagationVersion \<le> v then p
      else
        (let p = (if v < 4 \<and> rp_MinimumMatchedTokens p = 0
                  then p\<lparr>rp_MinimumMatchedTokens := DefaultMinimumMatchedTokens\<rparr> else p);
             p = (if v < 5 \<and> rp_RoutingFloorScore p = None
                  then p\<lparr>rp_RoutingFloorScore := Some DefaultRoutingFloorScore\<rparr> else p);
             p = (if v < 6 then applyResolvedLookupStrategyDefaults p else p)
         in if v < 7 \<and> rp_AffinityRouting p = None
            then p\<lparr>rp_AffinityRouting := Some DefaultAffinityRoutingEnabled\<rparr> else p))"

lemma normalize_map:
  "ps_Policies (normalizePolicySnapshotForVersion snap) = map (normalizeFor (ps_Version snap)) (ps_Policies snap)"
proof (cases "PolicyPropagationVersion \<le> ps_Version snap")
  case True
  then have "normalizeFor (ps_Version snap) = (\<lambda>p. p)" by (simp add: normalizeFor_def fun_eq_iff)
  then show ?thesis using True by (simp add: normalizePolicySnapshotForVersion_def)
next
  case False
  then show ?thesis by (auto simp: normalizePolicySnapshotForVersion_def mapPolicies_def normalizeFor_def Let_def
      PolicyPropagationVersion_def)
qed

lemma normalizeFor_frame [simp]:
  "rp_Namespace (normalizeFor v p) = rp_Namespace p" "rp_EvictionTTL (normalizeFor v p) = rp_EvictionTTL p"
  "rp_Eviction (normalizeFor v p) = rp_Eviction p" "rp_MinimumPrefixTokens (normalizeFor v p) = rp_MinimumPrefixTokens p"
  "rp_LookupTimeoutMs (normalizeFor v p) = rp_LookupTimeoutMs p"
  by (simp_all add: normalizeFor_def applyResolvedLookupStrategyDefaults_def Let_def)

lemma lookup_normalized:
  "policyLookup (ReplaceSnapshot (ps_Policies (normalizePolicySnapshotForVersion snap)) ts s) k =
     map_option (normalizeFor (ps_Version snap)) (policyLookup (ReplaceSnapshot (ps_Policies snap) ts s) k)"
  by (simp add: ReplaceSnapshot_policies normalize_map find_rev_map)

lemma default_floor_nonneg: "\<not> flt_lt DefaultRoutingFloorScore (Fin 0)"
  by code_simp

lemma normalizeFor_resolved:
  "rp_RoutingFloorScore (normalizeFor v p) \<in> {rp_RoutingFloorScore p} \<union>
     (if rp_RoutingFloorScore p = None then {Some DefaultRoutingFloorScore} else {})"
  "rp_AffinityRouting (normalizeFor v p) \<in> {rp_AffinityRouting p} \<union>
     (if rp_AffinityRouting p = None then {Some DefaultAffinityRoutingEnabled} else {})"
  "rp_MinimumMatchedTokens (normalizeFor v p) =
     (if v < 4 \<and> rp_MinimumMatchedTokens p = 0 then DefaultMinimumMatchedTokens else rp_MinimumMatchedTokens p)"
  by (auto simp: normalizeFor_def applyResolvedLookupStrategyDefaults_def Let_def PolicyPropagationVersion_def)

text \<open>The value of a strategy flag, absent blocks and absent flags meaning the default.\<close>

definition flagOr :: "(ResolvedLookupStrategy \<Rightarrow> bool option) \<Rightarrow> bool \<Rightarrow> ResolvedPolicy \<Rightarrow> bool" where
  "flagOr f d p = (case Option.bind (rp_Strategy p) f of None \<Rightarrow> d | Some v \<Rightarrow> v)"

lemma strategyField_flagOr:
  "strategyField s t f d = (case policyLookup s t of None \<Rightarrow> d | Some p \<Rightarrow> flagOr f d p)"
  by (auto simp: strategyField_def flagOr_def split: option.splits)

lemma flagOr_defaults:
  "flagOr ls_EnableChainMatching DefaultEnableChainMatching (applyResolvedLookupStrategyDefaults p) =
     flagOr ls_EnableChainMatching DefaultEnableChainMatching p"
  "flagOr ls_RequireChain DefaultRequireChain (applyResolvedLookupStrategyDefaults p) = flagOr ls_RequireChain DefaultRequireChain p"
  "flagOr ls_EnableTenantHot DefaultEnableTenantHot (applyResolvedLookupStrategyDefaults p) =
     flagOr ls_EnableTenantHot DefaultEnableTenantHot p"
  by (cases "rp_Strategy p"; simp add: flagOr_def applyResolvedLookupStrategyDefaults_def Let_def split: option.split)+

lemma defaults_strategy_cong:
  "rp_Strategy p = rp_Strategy q \<Longrightarrow>
     rp_Strategy (applyResolvedLookupStrategyDefaults p) = rp_Strategy (applyResolvedLookupStrategyDefaults q)"
  by (simp add: applyResolvedLookupStrategyDefaults_def Let_def)

lemma flagOr_cong: "rp_Strategy p = rp_Strategy q \<Longrightarrow> flagOr f d p = flagOr f d q"
  by (simp add: flagOr_def)

lemma normalizeFor_strategy:
  "rp_Strategy (normalizeFor v p) \<in> {rp_Strategy p, rp_Strategy (applyResolvedLookupStrategyDefaults p)}"
  by (simp add: normalizeFor_def Let_def) (intro impI conjI disjI2 defaults_strategy_cong; simp)

lemma normalizeFor_flags:
  "flagOr ls_EnableChainMatching DefaultEnableChainMatching (normalizeFor v p) =
     flagOr ls_EnableChainMatching DefaultEnableChainMatching p"
  "flagOr ls_RequireChain DefaultRequireChain (normalizeFor v p) = flagOr ls_RequireChain DefaultRequireChain p"
  "flagOr ls_EnableTenantHot DefaultEnableTenantHot (normalizeFor v p) =
     flagOr ls_EnableTenantHot DefaultEnableTenantHot p"
  using normalizeFor_strategy [of v p] flagOr_defaults [of p] flagOr_cong [of "normalizeFor v p" p]
    flagOr_cong [of "normalizeFor v p" "applyResolvedLookupStrategyDefaults p"] by (simp_all, blast+)

lemma resolved_normalized:
  assumes eq: "policyLookup a t = map_option (normalizeFor v) (policyLookup b t)"
  shows "policyTTL a t = policyTTL b t \<and>
    policyEviction a t = policyEviction b t \<and>
    MinimumPrefixTokens a t = MinimumPrefixTokens b t \<and>
    RoutingFloorScore a t = RoutingFloorScore b t \<and>
    AffinityRoutingEnabled a t = AffinityRoutingEnabled b t \<and>
    LookupTimeout a t = LookupTimeout b t \<and>
    ChainMatchingEnabled a t = ChainMatchingEnabled b t \<and>
    ChainRequired a t = ChainRequired b t \<and>
    TenantHotEnabled a t = TenantHotEnabled b t \<and>
    MinimumMatchedTokens a t =
      (if v < 4 \<and> map_option rp_MinimumMatchedTokens (policyLookup b t) = Some 0
       then DefaultMinimumMatchedTokens else MinimumMatchedTokens b t)"
proof (cases "policyLookup b t")
  case None
  then show ?thesis
    using eq by (simp add: policyTTL_def policyEviction_def MinimumPrefixTokens_def RoutingFloorScore_def
        AffinityRoutingEnabled_def LookupTimeout_def ChainMatchingEnabled_def ChainRequired_def TenantHotEnabled_def
        MinimumMatchedTokens_def strategyField_def)
next
  case (Some p)
  have "(case rp_RoutingFloorScore (normalizeFor v p) of None \<Rightarrow> DefaultRoutingFloorScore
        | Some x \<Rightarrow> if flt_lt x (Fin 0) then Fin 0 else x) =
      (case rp_RoutingFloorScore p of None \<Rightarrow> DefaultRoutingFloorScore | Some x \<Rightarrow> if flt_lt x (Fin 0) then Fin 0 else x)"
    "(case rp_AffinityRouting (normalizeFor v p) of None \<Rightarrow> DefaultAffinityRoutingEnabled | Some x \<Rightarrow> x) =
      (case rp_AffinityRouting p of None \<Rightarrow> DefaultAffinityRoutingEnabled | Some x \<Rightarrow> x)" for v
    using normalizeFor_resolved(1,2) [of v p] default_floor_nonneg by (auto split: option.splits if_splits)
  then show ?thesis
    using eq Some by (simp add: policyTTL_def policyEviction_def MinimumPrefixTokens_def RoutingFloorScore_def
        AffinityRoutingEnabled_def LookupTimeout_def ChainMatchingEnabled_def ChainRequired_def TenantHotEnabled_def
        MinimumMatchedTokens_def strategyField_flagOr normalizeFor_flags normalizeFor_resolved(3)
        DefaultMinimumMatchedTokens_def)
qed

text \<open>
  C26. Older wire versions mean the same policy: normalizing a snapshot of any version changes no
  value the server resolves from the store, except that before version 4 a minimum of zero matched tokens,
  which such a sender cannot have meant, resolves to the default.
\<close>

theorem policy_normalization_transparent:
  "let a = ReplaceSnapshot (ps_Policies (normalizePolicySnapshotForVersion snap)) ts s;
       b = ReplaceSnapshot (ps_Policies snap) ts s
   in policyTTL a t = policyTTL b t \<and>
    policyEviction a t = policyEviction b t \<and>
    MinimumPrefixTokens a t = MinimumPrefixTokens b t \<and>
    RoutingFloorScore a t = RoutingFloorScore b t \<and>
    AffinityRoutingEnabled a t = AffinityRoutingEnabled b t \<and>
    LookupTimeout a t = LookupTimeout b t \<and>
    ChainMatchingEnabled a t = ChainMatchingEnabled b t \<and>
    ChainRequired a t = ChainRequired b t \<and>
    TenantHotEnabled a t = TenantHotEnabled b t \<and>
    MinimumMatchedTokens a t =
      (if ps_Version snap < 4 \<and> map_option rp_MinimumMatchedTokens (policyLookup b t) = Some 0
       then DefaultMinimumMatchedTokens else MinimumMatchedTokens b t)"
  unfolding Let_def by (rule resolved_normalized [OF lookup_normalized])

text \<open>
  C27. The policy endpoint replaces all or nothing: a request it refuses (method, body, version) leaves the
  store as it was; an accepted one makes the store's quotas those of the snapshot, the last entry
  of a tenant counting, negative quotas clamped to zero, the probe's tenant exempt.
\<close>

theorem policy_endpoint_all_or_nothing:
  assumes "policyHandler meth decoded s = (status, s')"
  shows "(status \<noteq> StatusNoContent \<longrightarrow> s' = s) \<and>
    (status = StatusNoContent \<longrightarrow> meth \<in> {''POST'', ''PUT''} \<and>
      (\<exists>snap. decoded = Inr snap \<and> PolicyMinimumAcceptedVersion \<le> ps_Version snap \<and>
        ps_Version snap \<le> PolicyPropagationVersion \<and>
        (\<forall>t. TenantQuota s' t =
          (if t = ProbeTenantID \<or> t = '''' then None
           else map_option (\<lambda>q. max 0 (rt_MaxIndexEntries q)) (find (\<lambda>q. rt_TenantID q = t) (rev (ps_Tenants snap)))))))"
proof -
  have "ps_Tenants (normalizePolicySnapshotForVersion snap) = ps_Tenants snap" for snap
    by (simp add: normalizePolicySnapshotForVersion_def mapPolicies_def Let_def)
  then show ?thesis
    using assms by (auto simp: policyHandler_def Let_def TenantQuota_replaced split: if_splits sum.splits)
qed

definition exPolicies :: PolicySnapshot where
  "exPolicies =
     \<lparr>ps_Version = PolicyPropagationVersion, ps_Policies = [],
      ps_Tenants = [\<lparr>rt_TenantID = ''t'', rt_MaxIndexEntries = -5, rt_IsolationMode = ''''\<rparr>]\<rparr>"

theorem policy_endpoint_all_or_nothing_witness:
  "TenantQuota (snd (policyHandler ''PUT'' (Inr exPolicies) NewPolicyStore)) ''t'' = Some 0 \<and>
   snd (policyHandler ''GET'' (Inr exPolicies) NewPolicyStore) = NewPolicyStore"
proof -
  let ?h = "\<lambda>m. policyHandler m (Inr exPolicies) NewPolicyStore"
  have st: "fst (?h ''PUT'') = StatusNoContent" "fst (?h ''GET'') \<noteq> StatusNoContent" by code_simp+
  have split: "?h m = (fst (?h m), snd (?h m))" for m by simp
  have "snd (?h ''GET'') = NewPolicyStore"
    using policy_endpoint_all_or_nothing [OF split, of "''GET''"] st(2) by blast
  moreover have "\<forall>t. TenantQuota (snd (?h ''PUT'')) t =
      (if t = ProbeTenantID \<or> t = '''' then None
       else map_option (\<lambda>q. max 0 (rt_MaxIndexEntries q)) (find (\<lambda>q. rt_TenantID q = t) (rev (ps_Tenants exPolicies))))"
    using policy_endpoint_all_or_nothing [OF split, of "''PUT''"] st(1) by auto
  ultimately show ?thesis by (simp add: exPolicies_def ProbeTenantID_def)
qed

subsection \<open>The write handlers\<close>









subsection \<open>Encodings\<close>

text \<open>
  C30. Tiers survive the wire: what a report says about a tier is what a lookup says about it, an unset tier
  meaning the warmest; a value outside the enum never comes back as a warm tier and never makes a
  run of blocks warmer.
\<close>

theorem tier_round_trip_safe:
  "cacheTierToProto (normalizeIngestTier (cacheTierFromProto t)) =
     (if t = 0 then 1 else if t \<in> {1, 2, 3} then t else 0) \<and>
   0 < normalizeIngestTier (cacheTierFromProto t)"
  using tier_round_trip [of t] tier_stored_positive [of t] by auto

text \<open>
  C31. The affinity seed of a block chain is injective: two chains (of blocks shorter than 2^32 bytes) with the
  same seed are the same chain, whatever bytes the hashes contain.
\<close>

theorem affinity_seed_injective:
  assumes "in_blockHashes a \<noteq> []" and "in_blockHashes b \<noteq> []" and "canonicalAffinitySeed a = canonicalAffinitySeed b"
    and "list_all (\<lambda>x. length x < 2 ^ 32) (in_blockHashes a @ in_blockHashes b)"
  shows "in_blockHashes a = in_blockHashes b"
  using seedBytes_inj [of "in_blockHashes a" "in_blockHashes b"] assms
  by (simp add: canonicalAffinitySeed_def seedBytes_def list_all_iff)

definition exInputs :: "string list \<Rightarrow> lookupInputs" where
  "exInputs bh = \<lparr>in_blockHashes = bh, in_blockTokenCounts = map (\<lambda>_. 16) bh, in_exactPrefixHash = [], in_exactTokenCount = 0,
     in_echoTokens = [], in_failOpen = False\<rparr>"

theorem affinity_seed_injective_witness:
  "canonicalAffinitySeed (exInputs [''ab'', ''c'']) \<noteq> canonicalAffinitySeed (exInputs [''a'', ''bc''])"
  using affinity_seed_injective [of "exInputs [''ab'', ''c'']" "exInputs [''a'', ''bc'']"] by (auto simp: exInputs_def)

text \<open>
  C32. A prefix hash identifies its tokens: if two token sequences have the same key at some depth of their chains,
  they agree on all tokens up to there, or the content hash collides on two of the byte strings it was
  given while computing the two chains.
\<close>

theorem fingerprint_identifies_prefix:
  assumes "0 < bs" and "k < length xs div nat bs" and "k < length ys div nat bs"
    and "fst (Chain hash xs bs) ! k = fst (Chain hash ys bs) ! k"
  shows "take (Suc k * nat bs) xs = take (Suc k * nat bs) ys \<or>
    collides hash (rollInputs hash None (take (Suc k) (tokenBlocks (nat bs) xs)) \<union>
                   rollInputs hash None (take (Suc k) (tokenBlocks (nat bs) ys)))"
proof -
  have chain: "fst (Chain hash zs bs) ! k = hashBytes (rollHashes hash None (tokenBlocks (nat bs) zs) ! k)"
    if "k < length zs div nat bs" for zs
  proof -
    have "tokenBlocks (nat bs) zs \<noteq> []" using that length_tokenBlocks [of "nat bs" zs] by (metis list.size(3) not_less_zero)
    then show ?thesis using that assms(1) by (simp add: Chain_def PrefixHashes_def PrefixHashesFrom_roll Let_def)
  qed
  have "rollHashes hash None (tokenBlocks (nat bs) xs) ! k = rollHashes hash None (tokenBlocks (nat bs) ys) ! k"
    using assms(4) unfolding chain [OF assms(2)] chain [OF assms(3)] hashBytes_inj .
  then show ?thesis
    using hash_prefix_or_collision [of "nat bs" "Suc k" xs ys hash None] assms(1-3) by auto
qed

theorem fingerprint_identifies_prefix_witness:
  "fst (Chain (\<lambda>bytes _. word_of_int (be_val (take 8 bytes))) [1, 2] 1) ! 0 \<noteq>
   fst (Chain (\<lambda>bytes _. word_of_int (be_val (take 8 bytes))) [3, 2] 1) ! 0"
proof
  let ?h = "\<lambda>bytes _. word_of_int (be_val (take 8 bytes)) :: u64"
  assume eq: "fst (Chain ?h [1, 2] 1) ! 0 = fst (Chain ?h [3, 2] 1) ! 0"
  have blocks: "take (Suc 0) (tokenBlocks (nat 1) [1, 2]) = [[1 :: token]]" "take (Suc 0) (tokenBlocks (nat 1) [3, 2]) = [[3 :: token]]"
    by code_simp+
  have bytes: "blockInput [1] = [char_of (1 :: int), char_of (0 :: int), char_of (0 :: int), char_of (0 :: int)]"
    "blockInput [3] = [char_of (3 :: int), char_of (0 :: int), char_of (0 :: int), char_of (0 :: int)]" by code_simp+
  have "?h (blockInput [1]) Seed \<noteq> ?h (blockInput [3]) Seed" unfolding bytes by code_simp
  then have "\<not> collides ?h (rollInputs ?h None [[1]] \<union> rollInputs ?h None [[3]])"
    by (simp add: collides_def stepInputs_def)
  then show False
    using fingerprint_identifies_prefix [of 1 0 "[1, 2]" "[3, 2]" ?h, OF _ _ _ eq] unfolding blocks by simp
qed

end
