(* ===== verification/Probe.thy ===== *)
theory Probe
  imports Service_Facts Index_Spec
begin

text \<open>
  \<open>internal/server/probe.go\<close> and \<open>internal/controlplaneapi/probe.go\<close>: the functional probe the
  controller drives. It writes one synthetic block under a reserved tenant, reads it back through
  the direct and the routed lookup, optionally exercises the tier-2 store, and cleans up.

  Other goroutines use the index while a probe runs: what they did between the probe's calls is
  an argument (\<open>pv_others1\<close> to \<open>pv_others3\<close>), as are the clock readings. The mutex of
  \<open>lockForRun\<close> only excludes a second run for the same backend and model. The tier-2 client is an
  interface: a function field. The text of an operator message is kept as a constructor naming
  the format and its arguments.
\<close>

subsection \<open>Constants and messages\<close>

definition ProbeReplicaPrefix :: string where "ProbeReplicaPrefix = ''__probe-''"
definition ProbeTokenCount :: int where "ProbeTokenCount = 16"
definition BackendTypeLMCache :: string where "BackendTypeLMCache = ''LMCache''"

type_synonym ProbeStageResult = string

definition ProbeStageOK :: ProbeStageResult where "ProbeStageOK = ''ok''"
definition ProbeStageFailed :: ProbeStageResult where "ProbeStageFailed = ''failed''"
definition ProbeStageSkipped :: ProbeStageResult where "ProbeStageSkipped = ''skipped''"
definition ProbeStageIngest :: string where "ProbeStageIngest = ''ingest''"
definition ProbeStageRouting :: string where "ProbeStageRouting = ''routing''"
definition ProbeStageT2 :: string where "ProbeStageT2 = ''t2''"

lemmas stage_defs = ProbeStageOK_def ProbeStageFailed_def ProbeStageSkipped_def

record ProbeRequest =
  pq_Backend :: string
  pq_Model :: string
  pq_HashScheme :: string
  pq_BackendType :: string

datatype probeMessage =
    MsgNotIngested
  | MsgNotRouted string
  | MsgReplicaMissing string
  | MsgT2Failed string

record ProbeStageError =
  pse_Stage :: string
  pse_Message :: probeMessage

record ProbeResult =
  pb_Backend :: string
  pb_Ingest :: ProbeStageResult
  pb_Routing :: ProbeStageResult
  pb_T2 :: ProbeStageResult
  pb_Errors :: "ProbeStageError list"

definition stagePassed :: "ProbeStageResult \<Rightarrow> bool" where
  "stagePassed stage \<longleftrightarrow> stage = ProbeStageOK \<or> stage = ProbeStageSkipped"

definition AllPassed :: "ProbeResult \<Rightarrow> bool" where
  "AllPassed r \<longleftrightarrow> stagePassed (pb_Ingest r) \<and> stagePassed (pb_Routing r) \<and> stagePassed (pb_T2 r)"

text \<open>An error of the tier-2 client: a \<open>*T2ProbeError\<close> (possibly a nil one) or any other.\<close>

datatype t2Error = T2ProbeError string "string option" | T2ProbeErrorNil | OtherError string

definition t2ErrorMessage :: "t2Error \<Rightarrow> string" where
  "t2ErrorMessage e =
     (case e of
        T2ProbeErrorNil \<Rightarrow> []
      | T2ProbeError phase None \<Rightarrow> phase @ '' failed''
      | T2ProbeError phase (Some err) \<Rightarrow> phase @ '' failed: '' @ err
      | OtherError err \<Rightarrow> err)"

subsection \<open>The prober\<close>

record Prober =
  pbr_t2 :: "(string \<Rightarrow> string \<Rightarrow> t2Error option) option"
  pbr_ingestFn :: "Index \<Rightarrow> gotime \<Rightarrow> Update \<Rightarrow> Index"
  pbr_routeFn :: "Index \<Rightarrow> gotime \<Rightarrow> LookupRequest \<Rightarrow> LookupResult"

definition NewProber :: "(string \<Rightarrow> string \<Rightarrow> t2Error option) option \<Rightarrow> Prober" where
  "NewProber t2 = \<lparr>pbr_t2 = t2, pbr_ingestFn = Ingest, pbr_routeFn = LookupRoute\<rparr>"

definition ProbeReplicaID :: "string \<Rightarrow> string" where
  "ProbeReplicaID backend = ProbeReplicaPrefix @ backend"

definition probeHashWriteField :: "string \<Rightarrow> string" where
  "probeHashWriteField s = be_bytes 4 (int (length s) mod 2 ^ 32) @ s"

definition probeHashInput :: "string \<Rightarrow> string \<Rightarrow> string \<Rightarrow> string" where
  "probeHashInput backend model hashScheme =
     ''inferencecache.io/probe/v1'' @ [CHR 0x0A] @
     probeHashWriteField hashScheme @ probeHashWriteField model @ probeHashWriteField backend"

definition ProbeHash :: "string \<Rightarrow> string \<Rightarrow> string \<Rightarrow> string" where
  "ProbeHash backend model hashScheme = sha256_sum (probeHashInput backend model hashScheme)"

definition probePayload :: "string \<Rightarrow> string" where
  "probePayload probeHash = ''probe-payload-v1'' @ [CHR 0x0A] @ probeHash"

definition replicaInScores :: "ReplicaScore list \<Rightarrow> string \<Rightarrow> bool" where
  "replicaInScores scores replicaID = list_ex (\<lambda>s. sc_ReplicaID s = replicaID) scores"

record probeEnv =
  pv_now :: gotime
  pv_ingestNow :: gotime
  pv_lookupNow :: gotime
  pv_routeNow :: gotime
  pv_cleanNow :: gotime
  pv_others1 :: "Index \<Rightarrow> Index"
  pv_others2 :: "Index \<Rightarrow> Index"
  pv_others3 :: "Index \<Rightarrow> Index"

definition probeUpdate :: "gotime \<Rightarrow> ProbeRequest \<Rightarrow> Update" where
  "probeUpdate now req =
     \<lparr>u_ReplicaID = ProbeReplicaID (pq_Backend req), u_Model = pq_Model req, u_Tenant = ProbeTenantID,
      u_HashScheme = pq_HashScheme req, u_Adapter = [], u_Timestamp = now,
      u_Prefixes =
        [\<lparr>pr_PrefixHash = [], pr_TokenCount = 0,
          pr_BlockHashes = [ProbeHash (pq_Backend req) (pq_Model req) (pq_HashScheme req)],
          pr_BlockTokenCounts = [ProbeTokenCount], pr_Tier = 0, pr_Adapter = []\<rparr>],
      u_Stats = Some \<lparr>rs_ReplicaID = ProbeReplicaID (pq_Backend req), rs_CacheMemoryBytes = 0, rs_HitRate = Fin 1,
                      rs_Pressure = Fin 0, rs_T2HitTokens = 0, rs_T2QueryTokens = 0\<rparr>\<rparr>"

definition probeLookup :: "ProbeRequest \<Rightarrow> LookupRequest" where
  "probeLookup req =
     \<lparr>lr_Model = pq_Model req, lr_Tenant = ProbeTenantID, lr_HashScheme = pq_HashScheme req, lr_Adapter = [],
      lr_PrefixHash = [], lr_TokenCount = 0,
      lr_BlockHashes = [ProbeHash (pq_Backend req) (pq_Model req) (pq_HashScheme req)],
      lr_BlockTokenCounts = [ProbeTokenCount], lr_TTFTBudgetMs = 0, lr_TBTBudgetMs = 0\<rparr>"

definition probeT2 :: "Prober \<Rightarrow> ProbeRequest \<Rightarrow> ProbeResult \<Rightarrow> ProbeResult" where
  "probeT2 p req result =
     (let runT2 = (pq_BackendType req = BackendTypeLMCache \<or> pq_BackendType req = [])
      in case (if runT2 then pbr_t2 p else None) of
           None \<Rightarrow> result\<lparr>pb_T2 := ProbeStageSkipped\<rparr>
         | Some put \<Rightarrow>
             (case put (pq_Backend req)
                     (probePayload (ProbeHash (pq_Backend req) (pq_Model req) (pq_HashScheme req))) of
                Some err \<Rightarrow>
                  result\<lparr>pb_T2 := ProbeStageFailed,
                         pb_Errors := pb_Errors result @
                           [\<lparr>pse_Stage = ProbeStageT2, pse_Message = MsgT2Failed (t2ErrorMessage err)\<rparr>]\<rparr>
              | None \<Rightarrow> result\<lparr>pb_T2 := ProbeStageOK\<rparr>))"

definition probeRouting :: "LookupResult \<Rightarrow> string \<Rightarrow> ProbeResult \<Rightarrow> ProbeResult" where
  "probeRouting routeRes replicaID result =
     (if res_Strategy routeRes \<noteq> StrategyPrefixMatch then
        result\<lparr>pb_Routing := ProbeStageFailed,
               pb_Errors := pb_Errors result @
                 [\<lparr>pse_Stage = ProbeStageRouting,
                   pse_Message = MsgNotRouted (reasonForStrategy (res_Strategy routeRes))\<rparr>]\<rparr>
      else if \<not> replicaInScores (res_Scores routeRes) replicaID then
        result\<lparr>pb_Routing := ProbeStageFailed,
               pb_Errors := pb_Errors result @
                 [\<lparr>pse_Stage = ProbeStageRouting, pse_Message = MsgReplicaMissing replicaID\<rparr>]\<rparr>
      else result)"

text \<open>The stages of \<open>Run\<close> up to its deferred cleanup.\<close>

definition probeStages :: "Prober \<Rightarrow> probeEnv \<Rightarrow> ProbeRequest \<Rightarrow> Index \<Rightarrow> ProbeResult \<times> Index" where
  "probeStages p env req i =
     (let replicaID = ProbeReplicaID (pq_Backend req);
          result = \<lparr>pb_Backend = pq_Backend req, pb_Ingest = [], pb_Routing = [], pb_T2 = [], pb_Errors = []\<rparr>;
          i = pbr_ingestFn p i (pv_ingestNow env) (probeUpdate (pv_now env) req);
          i = pv_others1 env i
      in if \<not> replicaInScores (Lookup i (pv_lookupNow env) (probeLookup req)) replicaID then
           (result\<lparr>pb_Ingest := ProbeStageFailed,
                   pb_Errors := [\<lparr>pse_Stage = ProbeStageIngest, pse_Message = MsgNotIngested\<rparr>],
                   pb_Routing := ProbeStageSkipped, pb_T2 := ProbeStageSkipped\<rparr>, i)
         else
           (let result = result\<lparr>pb_Ingest := ProbeStageOK\<rparr>;
                i = pv_others2 env i;
                result = probeRouting (pbr_routeFn p i (pv_routeNow env) (probeLookup req)) replicaID result
            in if pb_Routing result = ProbeStageFailed then (result\<lparr>pb_T2 := ProbeStageSkipped\<rparr>, i)
               else (probeT2 p req (result\<lparr>pb_Routing := ProbeStageOK\<rparr>), i)))"

definition cleanup :: "gotime \<Rightarrow> string \<Rightarrow> string \<Rightarrow> Index \<Rightarrow> Index" where
  "cleanup now model replicaID i =
     ApplyEvent i now
       \<lparr>ev_Type = EventAllCleared, ev_ReplicaID = replicaID, ev_Model = model, ev_Tenant = ProbeTenantID,
        ev_PrefixHash = [], ev_Adapter = [], ev_Timestamp = now\<rparr>"

definition probeRun :: "Prober \<Rightarrow> probeEnv \<Rightarrow> ProbeRequest \<Rightarrow> Index \<Rightarrow> ProbeResult \<times> Index" where
  "probeRun p env req i =
     (let (result, i) = probeStages p env req i
      in (result, cleanup (pv_cleanNow env) (pq_Model req) (ProbeReplicaID (pq_Backend req)) (pv_others3 env i)))"

text \<open>
  The HTTP handler; \<open>decoded\<close> is what the first \<open>Decode\<close> yields, \<open>trailing\<close> whether the second
  finds anything but the end of the body.
\<close>

datatype probeStatus = ProbeBadRequest | ProbeMethodNotAllowed | ProbeAnswer ProbeResult

definition probeHandler ::
  "Prober \<Rightarrow> probeEnv \<Rightarrow> string \<Rightarrow> string + ProbeRequest \<Rightarrow> bool \<Rightarrow> Index \<Rightarrow> probeStatus \<times> Index" where
  "probeHandler p env meth decoded trailing i =
     (if meth \<noteq> ''POST'' then (ProbeMethodNotAllowed, i)
      else
        (case decoded of
           Inl err \<Rightarrow> (ProbeBadRequest, i)
         | Inr req \<Rightarrow>
             (if trailing then (ProbeBadRequest, i)
              else if pq_Backend req = [] \<or> pq_Model req = [] \<or> pq_HashScheme req = [] then (ProbeBadRequest, i)
              else (let (result, i) = probeRun p env req i in (ProbeAnswer result, i)))))"

end
