(* ===== verification/Probe_Facts.thy ===== *)
theory Probe_Facts
  imports Probe End_To_End
begin

text \<open>
  The functional probe passes on a healthy index whatever the wire handlers do meanwhile, leaves
  none of its own entries behind, and touches nobody else's.
\<close>

subsection \<open>What other calls keep\<close>

lemma idx_inv_step: "idx_inv i \<Longrightarrow> index_step i j \<Longrightarrow> idx_inv j"
  by (erule index_stepE)
    (simp_all add: idx_inv_Ingest idx_inv_ApplyEvent evictExpired_spec(1) idx_inv_CreditHits)

lemma later_config: "later i j \<Longrightarrow> idx_inv i \<Longrightarrow> idx_inv j \<and> configOf j = configOf i"
proof (induction rule: later.induct)
  case (more i j k)
  then show ?case using step_simulates [of j k] idx_inv_step [of j k] by metis
qed simp

lemma configOf_eq:
  "configOf j = configOf i \<Longrightarrow>
     ttlFor j t = ttlFor i t \<and> isReservedTenant j t = isReservedTenant i t \<and> maxEntries j = maxEntries i \<and>
     tenantQuotaFor j t = tenantQuotaFor i t"
  by (simp add: configOf_def)

text \<open>What a goroutine may do to the index between two calls of a probe of replica \<open>rid\<close>.\<close>

definition keepsProbe :: "string \<Rightarrow> Index \<Rightarrow> Index \<Rightarrow> bool" where
  "keepsProbe rid i j \<longleftrightarrow>
     idx_inv j \<and> configOf j = configOf i \<and>
     (\<forall>k. pk_tenant k = ProbeTenantID \<longrightarrow> map_option re_lastSeen (held j k rid) = map_option re_lastSeen (held i k rid))"

definition harmless :: "string \<Rightarrow> (Index \<Rightarrow> Index) \<Rightarrow> bool" where
  "harmless rid f \<longleftrightarrow> (\<forall>i. idx_inv i \<and> isReservedTenant i ProbeTenantID \<longrightarrow> keepsProbe rid i (f i))"

lemma harmless_id [simp]: "harmless rid (\<lambda>i. i)"
  by (simp add: harmless_def keepsProbe_def)

lemma harmless_comp: "harmless rid f \<Longrightarrow> harmless rid g \<Longrightarrow> harmless rid (\<lambda>i. g (f i))"
  unfolding harmless_def keepsProbe_def by (metis configOf_eq)

lemma harmless_report: "harmless rid (\<lambda>i. case ReportCacheState rs i of None \<Rightarrow> i | Some (_, j) \<Rightarrow> j)"
  unfolding harmless_def
proof (intro allI impI)
  fix i assume i: "idx_inv i \<and> isReservedTenant i ProbeTenantID"
  show "keepsProbe rid i (case ReportCacheState rs i of None \<Rightarrow> i | Some (_, j) \<Rightarrow> j)"
  proof (cases "ReportCacheState rs i")
    case (Some a)
    then obtain ack j where "ReportCacheState rs i = Some (ack, j)" by (cases a) auto
    then show ?thesis
      using ReportCacheState_spec [of rs i ack j] later_config [OF ReportCacheState_later] i
      by (simp add: keepsProbe_def)
  qed (use i in \<open>simp add: keepsProbe_def\<close>)
qed

lemma harmless_publish: "harmless rid (\<lambda>i. snd (PublishEvent now ev i))"
  unfolding harmless_def
proof (intro allI impI)
  fix i assume i: "idx_inv i \<and> isReservedTenant i ProbeTenantID"
  then have inv: "prefix_inv i" by (simp add: idx_inv_def)
  show "keepsProbe rid i (snd (PublishEvent now ev i))"
    using PublishEvent_spec [OF inv] later_config [of i "snd (PublishEvent now ev i)"] i
    by (simp add: keepsProbe_def)
qed

lemma harmless_credit: "harmless rid (CreditHits res)"
  by (auto simp: harmless_def keepsProbe_def idx_inv_CreditHits configOf_credit held_CreditHits bumpBy_def
      option.map_comp o_def)

subsection \<open>The probe's write\<close>

abbreviation probeKey :: "ProbeRequest \<Rightarrow> prefixKey" where
  "probeKey req \<equiv> PrefixKey ProbeTenantID (pq_Model req) (pq_HashScheme req) []
     (ProbeHash (pq_Backend req) (pq_Model req) (pq_HashScheme req))"

lemma probe_ops:
  "pq_HashScheme req \<noteq> [] \<Longrightarrow> ingestOps (probeUpdate now req) = [(probeKey req, 16, normalizeIngestTier 0)]"
  by (simp add: ingestOps_def prefixOps_def probeUpdate_def ProbeTokenCount_def wrap32_def Let_def)

lemma probe_time: "now \<noteq> 0 \<Longrightarrow> ingestTime now' (probeUpdate now req) = now"
  by (simp add: ingestTime_def probeUpdate_def)

lemma probe_effective:
  fixes i :: Index and now t :: gotime and req :: ProbeRequest
  assumes "idx_inv i" and "isReservedTenant i ProbeTenantID"
  defines "j \<equiv> ingestStored i now (probeUpdate t req)"
  shows "totalEntries j - reservedEntries j = totalEntries i - reservedEntries i"
proof -
  have inv: "prefix_inv i" "prefix_inv j" using assms idx_inv_stored [OF assms(1)] by (simp_all add: idx_inv_def)
  have "held j k r = held i k r" if "\<not> isReservedTenant i (pk_tenant k)" for k r
  proof -
    have "pk_tenant k \<noteq> ProbeTenantID" using that assms(2) by auto
    then have "scopeOf k \<noteq> ScopeKey (u_Tenant (probeUpdate t req)) (u_Model (probeUpdate t req)) (u_HashScheme (probeUpdate t req))"
      by (auto simp: scopeOf_def probeUpdate_def)
    then show ?thesis by (simp add: j_def held_stored_other)
  qed
  then have "{(k, r). \<not> isReservedTenant i (pk_tenant k) \<and> held j k r \<noteq> None} =
      {(k, r). \<not> isReservedTenant i (pk_tenant k) \<and> held i k r \<noteq> None}" by auto
  moreover have "isReservedTenant j = isReservedTenant i" using configOf_stored [of i now "probeUpdate t req"]
    by (simp add: j_def configOf_def)
  ultimately have "capUsed (configOf j) (storeOf j) = capUsed (configOf i) (storeOf i)"
    by (simp add: capUsed_def configOf_def)
  then show ?thesis using capUsed_storeOf [OF inv(1)] capUsed_storeOf [OF inv(2)] by simp
qed

text \<open>A state in which a probe can be expected to pass.\<close>

definition healthy :: "Index \<Rightarrow> bool" where
  "healthy i \<longleftrightarrow> idx_inv i \<and> isReservedTenant i ProbeTenantID \<and> tenantQuotaFor i ProbeTenantID = None \<and>
     (0 < maxEntries i \<longrightarrow> totalEntries i - reservedEntries i \<le> maxEntries i)"

lemma probe_fits: "healthy i \<Longrightarrow> fits i now (probeUpdate t req)"
  using probe_effective [of i now t req] by (auto simp: healthy_def fits_def probeUpdate_def)

lemma probe_held:
  assumes "healthy i" and "pq_HashScheme req \<noteq> []" and "t \<noteq> 0"
  shows "map_option re_lastSeen (held (Ingest i now (probeUpdate t req)) (probeKey req) (ProbeReplicaID (pq_Backend req))) = Some t"
proof -
  let ?u = "probeUpdate t req"
  have "map_of (rev (ingestOps ?u)) (probeKey req) = Some (16, normalizeIngestTier 0)"
    using assms(2) by (simp add: probe_ops)
  from held_stored [OF this, of i now] have
    "map_option entryView (held (ingestStored i now ?u) (probeKey req) (u_ReplicaID ?u)) =
      Some (16, t, normalizeIngestTier 0, hitCount (held i (probeKey req) (u_ReplicaID ?u)))"
    using assms(3) by (simp add: probe_time)
  then have "map_option re_lastSeen (held (ingestStored i now ?u) (probeKey req) (u_ReplicaID ?u)) = Some t"
    by (auto simp: entryView_def)
  moreover have "idx_inv i" using assms(1) by (simp add: healthy_def)
  ultimately show ?thesis using held_Ingest_fits [OF _ probe_fits [OF assms(1)]] by (simp add: probeUpdate_def)
qed

lemma probe_found:
  assumes "idx_inv i" and "pq_HashScheme req \<noteq> []"
    and "map_option re_lastSeen (held i (probeKey req) rid) = Some t"
    and "\<not> flt_le (freshnessAt now t (ttlFor i ProbeTenantID)) (Fin 0)"
  shows "rid \<in> sc_ReplicaID ` set (fst (lookupWithHits i now (probeLookup req)))"
proof -
  obtain e where e: "held i (probeKey req) rid = Some e" "re_lastSeen e = t" using assms(3) by auto
  show ?thesis
  proof (rule lookup_complete [where b = ProbeTokenCount])
    show "held i (requestKey (probeLookup req) (ProbeHash (pq_Backend req) (pq_Model req) (pq_HashScheme req))) rid = Some e"
      using e(1) by (simp add: requestKey_def probeLookup_def)
  qed (use assms e in \<open>simp_all add: idx_inv_def probeLookup_def ProbeTokenCount_def\<close>)
qed

subsection \<open>A healthy probe passes\<close>

lemma probe_passes:
  fixes i :: Index and env :: probeEnv and req :: ProbeRequest and t2 :: "(string \<Rightarrow> string \<Rightarrow> t2Error option) option"
  assumes "healthy i" and "pq_HashScheme req \<noteq> []" and "pq_Model req \<noteq> []" and "pv_now env \<noteq> 0"
    and "harmless (ProbeReplicaID (pq_Backend req)) (pv_others1 env)"
    and "harmless (ProbeReplicaID (pq_Backend req)) (pv_others2 env)"
    and "\<not> flt_le (freshnessAt (pv_lookupNow env) (pv_now env) (ttlFor i ProbeTenantID)) (Fin 0)"
    and "\<not> flt_le (freshnessAt (pv_routeNow env) (pv_now env) (ttlFor i ProbeTenantID)) (Fin 0)"
  defines "res \<equiv> fst (probeRun (NewProber t2) env req i)"
  shows "pb_Ingest res = ProbeStageOK" and "pb_Routing res = ProbeStageOK"
    and "t2 = None \<Longrightarrow> AllPassed res \<and> pb_Errors res = []"
proof -
  let ?rid = "ProbeReplicaID (pq_Backend req)"
  define j where "j = Ingest i (pv_ingestNow env) (probeUpdate (pv_now env) req)"
  define j1 where "j1 = pv_others1 env j"
  define j2 where "j2 = pv_others2 env j1"
  have inv: "idx_inv i" "isReservedTenant i ProbeTenantID" using assms(1) by (simp_all add: healthy_def)
  have j: "idx_inv j" "configOf j = configOf i"
    using idx_inv_Ingest [OF inv(1)] configOf_Ingest [OF inv(1)] by (simp_all add: j_def)
  then have k1: "keepsProbe ?rid j j1"
    using assms(5) configOf_eq [OF j(2)] inv(2) by (simp add: harmless_def j1_def)
  then have c1: "idx_inv j1" "configOf j1 = configOf i" using j(2) by (simp_all add: keepsProbe_def)
  then have k2: "keepsProbe ?rid j1 j2"
    using assms(6) configOf_eq [OF c1(2)] inv(2) by (simp add: harmless_def j2_def)
  then have c2: "idx_inv j2" "configOf j2 = configOf i" using c1(2) by (simp_all add: keepsProbe_def)
  have "map_option re_lastSeen (held j (probeKey req) ?rid) = Some (pv_now env)"
    unfolding j_def by (rule probe_held [OF assms(1,2,4)])
  then have h1: "map_option re_lastSeen (held j1 (probeKey req) ?rid) = Some (pv_now env)"
    using k1 by (simp add: keepsProbe_def)
  then have h2: "map_option re_lastSeen (held j2 (probeKey req) ?rid) = Some (pv_now env)"
    using k2 by (simp add: keepsProbe_def)
  have l1: "?rid \<in> sc_ReplicaID ` set (fst (lookupWithHits j1 (pv_lookupNow env) (probeLookup req)))"
    using probe_found [OF c1(1) assms(2) h1] assms(7) configOf_eq [OF c1(2)] by simp
  have l2: "?rid \<in> sc_ReplicaID ` set (fst (lookupWithHits j2 (pv_routeNow env) (probeLookup req)))"
    using probe_found [OF c2(1) assms(2) h2] assms(8) configOf_eq [OF c2(2)] by simp
  then have "fst (lookupWithHits j2 (pv_routeNow env) (probeLookup req)) \<noteq> []" by auto
  then have "res_Strategy (LookupRoute j2 (pv_routeNow env) (probeLookup req)) = StrategyPrefixMatch"
    and "res_Scores (LookupRoute j2 (pv_routeNow env) (probeLookup req)) =
      fst (lookupWithHits j2 (pv_routeNow env) (probeLookup req))"
    using assms(2,3) by (simp_all add: LookupRoute_def LookupRouteAt_def probeLookup_def ProbeTenantID_def case_prod_beta)
  then have route: "probeRouting (LookupRoute j2 (pv_routeNow env) (probeLookup req)) ?rid r = r" for r
    using l2 by (auto simp: probeRouting_def replicaInScores_def list_ex_iff)
  have "replicaInScores (Lookup j1 (pv_lookupNow env) (probeLookup req)) ?rid"
    using l1 by (auto simp: Lookup_def replicaInScores_def list_ex_iff)
  then have res: "res = probeT2 (NewProber t2) req
      \<lparr>pb_Backend = pq_Backend req, pb_Ingest = ProbeStageOK, pb_Routing = ProbeStageOK, pb_T2 = [], pb_Errors = []\<rparr>"
    using route by (simp add: res_def probeRun_def probeStages_def NewProber_def Let_def case_prod_beta
        j_def [symmetric] j1_def [symmetric] j2_def [symmetric] stage_defs)
  show "pb_Ingest res = ProbeStageOK" and "pb_Routing res = ProbeStageOK"
    unfolding res by (simp_all add: probeT2_def Let_def split: option.splits)
  show "t2 = None \<Longrightarrow> AllPassed res \<and> pb_Errors res = []"
    unfolding res by (simp add: probeT2_def NewProber_def AllPassed_def stagePassed_def)
qed

subsection \<open>Nothing is left behind\<close>

lemma probe_cleans:
  assumes "idx_inv (pv_others3 env (snd (probeStages p env req i)))"
    and "pk_tenant k = ProbeTenantID" and "pk_model k = pq_Model req"
  shows "held (snd (probeRun p env req i)) k (ProbeReplicaID (pq_Backend req)) = None"
proof -
  have "prefix_inv (pv_others3 env (snd (probeStages p env req i)))" using assms(1) by (simp add: idx_inv_def)
  from held_ApplyEvent [OF this] show ?thesis
    using assms(2,3) by (simp add: probeRun_def case_prod_beta cleanup_def clearMatch_def)
qed

definition quiet :: "probeEnv \<Rightarrow> bool" where
  "quiet env \<longleftrightarrow> pv_others1 env = (\<lambda>i. i) \<and> pv_others2 env = (\<lambda>i. i) \<and> pv_others3 env = (\<lambda>i. i)"

lemma quiet_stages:
  "quiet env \<Longrightarrow> snd (probeStages (NewProber t2) env req i) = Ingest i (pv_ingestNow env) (probeUpdate (pv_now env) req)"
  by (simp add: probeStages_def NewProber_def quiet_def Let_def)

lemma probe_others_untouched:
  assumes "healthy i" and "quiet env"
    and "pk_tenant k \<noteq> ProbeTenantID \<or> pk_model k \<noteq> pq_Model req \<or> r \<noteq> ProbeReplicaID (pq_Backend req)"
  shows "held (snd (probeRun (NewProber t2) env req i)) k r = held i k r"
proof -
  let ?j = "Ingest i (pv_ingestNow env) (probeUpdate (pv_now env) req)"
  have inv: "idx_inv i" using assms(1) by (simp add: healthy_def)
  have "scopeOf k \<noteq> ScopeKey (u_Tenant (probeUpdate (pv_now env) req)) (u_Model (probeUpdate (pv_now env) req))
        (u_HashScheme (probeUpdate (pv_now env) req)) \<or> r \<noteq> u_ReplicaID (probeUpdate (pv_now env) req)"
    using assms(3) by (auto simp: scopeOf_def probeUpdate_def)
  then have "held ?j k r = held i k r"
    using held_Ingest_fits [OF inv probe_fits [OF assms(1)]] held_stored_other by metis
  moreover have "prefix_inv ?j" using idx_inv_Ingest [OF inv] by (simp add: idx_inv_def)
  moreover have "snd (probeRun (NewProber t2) env req i) =
      cleanup (pv_cleanNow env) (pq_Model req) (ProbeReplicaID (pq_Backend req)) ?j"
    using quiet_stages [OF assms(2)] assms(2) by (simp add: probeRun_def case_prod_beta quiet_def)
  ultimately show ?thesis using assms(3) by (auto simp: cleanup_def held_ApplyEvent clearMatch_def)
qed

lemma probe_handler_rejects:
  "meth \<noteq> ''POST'' \<or> (\<exists>e. decoded = Inl e) \<or> trailing \<or>
     (\<exists>req. decoded = Inr req \<and> (pq_Backend req = [] \<or> pq_Model req = [] \<or> pq_HashScheme req = [])) \<Longrightarrow>
   snd (probeHandler p env meth decoded trailing i) = i \<and>
   fst (probeHandler p env meth decoded trailing i) \<in> {ProbeBadRequest, ProbeMethodNotAllowed}"
  by (auto simp: probeHandler_def split: sum.splits)

subsection \<open>The probe's hash input\<close>

lemma field_inj:
  assumes "length x < 2 ^ 32" and "length y < 2 ^ 32"
    and "probeHashWriteField x @ u = probeHashWriteField y @ v"
  shows "x = y \<and> u = v"
proof -
  have nat: "int (length s) mod 2 ^ 32 = int (length s)" if "length s < 2 ^ 32" for s :: string
    using that by (simp flip: of_nat_less_iff)
  have "be_bytes 4 (int (length x)) = be_bytes 4 (int (length y))" and rest: "x @ u = y @ v"
    using assms nat [of x] nat [of y] by (auto simp: probeHashWriteField_def append_eq_append_conv)
  moreover have "int (length x) < 256 ^ 4" "int (length y) < 256 ^ 4" using assms(1,2) by simp_all
  ultimately have "length x = length y" using be_bytes_inj [of "int (length x)" 4 "int (length y)"] by simp
  then show ?thesis using rest by simp
qed

lemma probeHashInput_inj:
  assumes "list_all (\<lambda>s. length s < 2 ^ 32) [b, m, h, b', m', h']"
    and "probeHashInput b m h = probeHashInput b' m' h'"
  shows "b = b' \<and> m = m' \<and> h = h'"
proof -
  have eq: "probeHashWriteField h @ probeHashWriteField m @ probeHashWriteField b @ [] =
      probeHashWriteField h' @ probeHashWriteField m' @ probeHashWriteField b' @ []"
    using assms(2) by (simp add: probeHashInput_def)
  have "h = h' \<and> probeHashWriteField m @ probeHashWriteField b @ [] = probeHashWriteField m' @ probeHashWriteField b' @ []"
    by (rule field_inj [OF _ _ eq]) (use assms(1) in simp_all)
  moreover from this have "m = m' \<and> probeHashWriteField b @ [] = probeHashWriteField b' @ []"
    by (intro field_inj) (use assms(1) in simp_all)
  moreover from this have "b = b' \<and> [] = ([] :: string)"
    by (intro field_inj) (use assms(1) in simp_all)
  ultimately show ?thesis by simp
qed

end
