(* ===== verification/Subscriber_Properties.thy ===== *)
theory Subscriber_Properties
  imports Examples Probe_Facts
begin

text \<open>
  The theorems that span components: the keys the subscriber derives from engine events are the
  keys the service looks for, what the reporter sends and in which order, the way of a prefix from
  an engine event to an answer, and the functional probe.
\<close>

subsection \<open>The subscriber\<close>

definition exSum :: hashSeed where
  "exSum bytes seed = word_of_int (fold (\<lambda>c n. 31 * n + byte_val c) bytes (uint seed))"


definition exPieces :: "(string list \<times> token list) list" where
  "exPieces = [([''x''], [1, 2]), ([''y'', ''z''], [3, 4, 5, 6])]"

text \<open>
  C33. Writer and reader derive the same keys: when an engine reports a token sequence in any number of pieces,
  each chained to the last block of the one before, the keys the subscriber reports are, in order,
  the keys the service computes from the whole sequence at once.
\<close>

theorem subscriber_keys_are_service_keys:
  assumes "wholePieces bs pieces" and "Option.bind parent (map_of p) = None"
  shows "map pe_PrefixHash (fst (feed hash bs ad parent pieces p)) = fst (Chain hash (concat (map snd pieces)) bs)"
  by (rule feed_chain [OF assms])

theorem subscriber_keys_are_service_keys_witness:
  "map pe_PrefixHash (fst (feed exSum 2 [] (Some ''root'') exPieces newPositionalIndex)) =
     fst (Chain exSum [1, 2, 3, 4, 5, 6] 2) \<and>
   length (fst (Chain exSum [1, 2, 3, 4, 5, 6] 2)) = 3"
proof -
  have "wholePieces 2 exPieces" by (simp add: wholePieces_def exPieces_def)
  moreover have "Option.bind (Some ''root'') (map_of newPositionalIndex) = None" by (simp add: newPositionalIndex_def)
  ultimately have "map pe_PrefixHash (fst (feed exSum 2 [] (Some ''root'') exPieces newPositionalIndex)) =
      fst (Chain exSum (concat (map snd exPieces)) 2)" by (rule subscriber_keys_are_service_keys)
  then show ?thesis by (simp add: exPieces_def Chain_lengths(2))
qed








subsection \<open>From an engine event to an answer\<close>




definition exOne :: "string \<Rightarrow> CacheStateUpdate" where
  "exOne h =
     \<lparr>cu_ReplicaId = ''r'', cu_ModelId = ''m'', cu_TenantId = ''t'', cu_HashScheme = ''s'', cu_TimestampUs = 7,
      cu_Prefixes = [\<lparr>pe_PrefixHash = h, pe_TokenCount = 2, pe_BlockHashes = [], pe_BlockTokenCounts = [], pe_Tier = 1,
                      pe_AdapterId = []\<rparr>],
      cu_Stats = None, cu_AdapterId = []\<rparr>"




subsection \<open>The functional probe\<close>

text \<open>
  C37. The functional probe has no false alarms: on a healthy index, while report streams, events and lookups run
  between its steps (anything that keeps the probe's own entries), and while its entry is fresh, it reports its
  ingest and routing stages as passed, and without a tier-2 client passes as a whole, with no error.
\<close>

theorem probe_has_no_false_alarm:
  assumes "healthy i" and "pq_HashScheme req \<noteq> []" and "pq_Model req \<noteq> []" and "pv_now env \<noteq> 0"
    and "harmless (ProbeReplicaID (pq_Backend req)) (pv_others1 env)"
    and "harmless (ProbeReplicaID (pq_Backend req)) (pv_others2 env)"
    and "\<not> flt_le (freshnessAt (pv_lookupNow env) (pv_now env) (ttlFor i ProbeTenantID)) (Fin 0)"
    and "\<not> flt_le (freshnessAt (pv_routeNow env) (pv_now env) (ttlFor i ProbeTenantID)) (Fin 0)"
  shows "pb_Ingest (fst (probeRun (NewProber t2) env req i)) = ProbeStageOK \<and>
    pb_Routing (fst (probeRun (NewProber t2) env req i)) = ProbeStageOK \<and>
    (t2 = None \<longrightarrow> AllPassed (fst (probeRun (NewProber t2) env req i)) \<and> pb_Errors (fst (probeRun (NewProber t2) env req i)) = [])"
  using probe_passes [OF assms] by blast

definition exProbeIndex :: Index where
  "exProbeIndex = New [WithReservedTenants [ProbeTenantID], WithMaxEntries 2]"

definition exProbeEnv :: probeEnv where
  "exProbeEnv =
     \<lparr>pv_now = 9, pv_ingestNow = 9, pv_lookupNow = 9, pv_routeNow = 9, pv_cleanNow = 9,
      pv_others1 = (\<lambda>i. case ReportCacheState [RecvUpdate 5 (exOne ''h''), RecvEOF] i of None \<Rightarrow> i | Some (_, j) \<Rightarrow> j),
      pv_others2 = (\<lambda>i. i), pv_others3 = (\<lambda>i. i)\<rparr>"

definition exProbeRequest :: ProbeRequest where
  "exProbeRequest = \<lparr>pq_Backend = ''b'', pq_Model = ''m'', pq_HashScheme = ''s'', pq_BackendType = []\<rparr>"

lemma healthy_exProbeIndex: "healthy exProbeIndex"
proof -
  have "idx_inv exProbeIndex"
    unfolding exProbeIndex_def using blank_inv [OF blank_New] by (simp add: isOption.intros)
  moreover have "isReservedTenant exProbeIndex ProbeTenantID" "tenantQuotaFor exProbeIndex ProbeTenantID = None"
    "totalEntries exProbeIndex - reservedEntries exProbeIndex \<le> maxEntries exProbeIndex" by code_simp+
  ultimately show ?thesis by (simp add: healthy_def)
qed

lemma exProbe_fresh: "freshnessAt 9 9 (ttlFor exProbeIndex ProbeTenantID) = Fin 1"
  by code_simp

theorem probe_has_no_false_alarm_witness:
  "AllPassed (fst (probeRun (NewProber None) exProbeEnv exProbeRequest exProbeIndex))"
proof -
  have "harmless r (pv_others1 exProbeEnv)" "harmless r (pv_others2 exProbeEnv)" for r
    unfolding exProbeEnv_def by (simp_all only: probeEnv.simps harmless_report harmless_id)
  moreover have "pv_now exProbeEnv = 9" "pv_lookupNow exProbeEnv = 9" "pv_routeNow exProbeEnv = 9"
    "pq_HashScheme exProbeRequest \<noteq> []" "pq_Model exProbeRequest \<noteq> []"
    by (simp_all add: exProbeEnv_def exProbeRequest_def)
  ultimately show ?thesis
    using probe_has_no_false_alarm [OF healthy_exProbeIndex, of exProbeRequest exProbeEnv None]
    by (simp add: exProbe_fresh)
qed

text \<open>
  C38. A probe leaves no trace: after it the index holds no entry of the probe's replica for its model under the reserved
  tenant, and every entry of every other tenant, and of every other replica, is what it was.
\<close>

theorem probe_leaves_no_trace:
  assumes "healthy i" and "quiet env"
  shows "held (snd (probeRun (NewProber t2) env req i)) k r =
    (if pk_tenant k = ProbeTenantID \<and> pk_model k = pq_Model req \<and> r = ProbeReplicaID (pq_Backend req) then None
     else held i k r)"
proof (cases "pk_tenant k = ProbeTenantID \<and> pk_model k = pq_Model req \<and> r = ProbeReplicaID (pq_Backend req)")
  case False
  then show ?thesis using probe_others_untouched [OF assms, of k req r t2] by auto
next
  case True
  have "idx_inv (pv_others3 env (snd (probeStages (NewProber t2) env req i)))"
    using quiet_stages [OF assms(2)] idx_inv_Ingest assms by (simp add: quiet_def healthy_def)
  then show ?thesis using probe_cleans [of env "NewProber t2" req i k] True by simp
qed

theorem probe_leaves_no_trace_witness:
  "held (snd (probeRun (NewProber None) (exProbeEnv\<lparr>pv_others1 := (\<lambda>i. i)\<rparr>) exProbeRequest exProbeIndex))
     (PrefixKey ProbeTenantID ''m'' ''s'' '''' (ProbeHash ''b'' ''m'' ''s'')) (ProbeReplicaID ''b'') = None"
proof -
  have "quiet (exProbeEnv\<lparr>pv_others1 := (\<lambda>i. i)\<rparr>)" by (simp add: quiet_def exProbeEnv_def)
  then show ?thesis
    using probe_leaves_no_trace [OF healthy_exProbeIndex, of "exProbeEnv\<lparr>pv_others1 := (\<lambda>i. i)\<rparr>" None exProbeRequest
        "PrefixKey ProbeTenantID ''m'' ''s'' '''' (ProbeHash ''b'' ''m'' ''s'')" "ProbeReplicaID ''b''"]
    by (simp add: exProbeRequest_def)
qed

end
