(* ===== verification/Control_Plane.thy ===== *)
theory Control_Plane
  imports Policy Go_Text
begin

text \<open>
  The control plane's side of policy propagation. \<open>api/v1alpha1\<close>: the fields of CachePolicy and
  CacheTenant the code reads. \<open>internal/webhook/v1alpha1/cachepolicy_webhook.go\<close> and
  \<open>cachetenant_webhook.go\<close>: what admission accepts. \<open>internal/controller/controlplane_controller.go\<close>:
  how the resources of the cluster are flattened into the snapshot pushed to \<open>/policy\<close>.

  The API server is outside: a listing is an argument. Error details are constructors that carry
  what the code formats into the message; two messages of the code are equal exactly when the
  constructors are, since names are quoted.
\<close>

subsection \<open>Resources\<close>

record CachePolicyStrategySpec =
  css_EnableChainMatching :: "bool option"
  css_RequireChain :: "bool option"
  css_EnableTenantHot :: "bool option"

record CachePolicySpec =
  cps_Eviction :: string
  cps_EvictionTTL :: "duration option"
  cps_MinimumPrefixTokens :: "int option"
  cps_MinimumMatchedTokens :: "int option"
  cps_RoutingFloorScore :: "string option"
  cps_LookupTimeoutMs :: "int option"
  cps_Strategy :: "CachePolicyStrategySpec option"
  cps_AffinityRouting :: "string option"

record CachePolicy =
  cp_Namespace :: string
  cp_Name :: string
  cp_Spec :: CachePolicySpec

definition CachePolicyEvictionAlgorithmLRU :: string where "CachePolicyEvictionAlgorithmLRU = ''LRU''"
definition CachePolicyAffinityRoutingEnabled :: string where "CachePolicyAffinityRoutingEnabled = ''Enabled''"

record CacheTenantQuotaSpec =
  ctq_MaxIndexEntries :: "int option"

record CacheTenantSpec =
  cts_TenantID :: string
  cts_Quota :: "CacheTenantQuotaSpec option"
  cts_IsolationMode :: string

record CacheTenant =
  ct_Namespace :: string
  ct_Name :: string
  ct_Generation :: int
  ct_Spec :: CacheTenantSpec

subsection \<open>Admission errors\<close>

datatype errorType = ErrorTypeInvalid | ErrorTypeForbidden | ErrorTypeRequired

datatype badValue = NoBadValue | BadDuration duration | BadBool bool | BadString string

text \<open>A \<open>field.Error\<close>: its type, the path of the field, the value rejected and the detail.\<close>

datatype 'd fieldError = FieldError errorType "string list" badValue 'd

datatype detail =
    TTLMustBePositive
  | RequireChainNeedsMatching
  | NamespaceHasPolicy string string
  | TenantIDReserved
  | TenantIDClaimed string string

datatype admissionFailure = NilReader | ListingFailed string string

datatype 'd verdict = Admitted | Invalid string "'d fieldError list" | Failed admissionFailure

text \<open>
  Errors are compared by type, field, bad value and detail; the code compares the values as
  formatted, which on one field and detail is injective.
\<close>

definition filterIntroducedErrors :: "'e list \<Rightarrow> 'e list \<Rightarrow> 'e list" where
  "filterIntroducedErrors oldErrs newErrs = filter (\<lambda>e. e \<notin> set oldErrs) newErrs"

subsection \<open>The CachePolicy webhook\<close>

type_synonym CachePolicyValidationRule = "CachePolicy \<Rightarrow> detail fieldError list"

text \<open>The live reader, when wired: the listing of a namespace.\<close>

record CachePolicyValidator =
  cpv_Reader :: "(string \<Rightarrow> string + CachePolicy list) option"
  cpv_Rules :: "CachePolicyValidationRule list"

definition rejectNonPositiveEvictionTTL :: CachePolicyValidationRule where
  "rejectNonPositiveEvictionTTL cp =
     (case cps_EvictionTTL (cp_Spec cp) of
        None \<Rightarrow> []
      | Some d \<Rightarrow>
          if 0 < d then []
          else [FieldError ErrorTypeInvalid [''spec'', ''evictionTTL''] (BadDuration d) TTLMustBePositive])"

definition rejectIncoherentStrategy :: CachePolicyValidationRule where
  "rejectIncoherentStrategy cp =
     (case cps_Strategy (cp_Spec cp) of
        None \<Rightarrow> []
      | Some strategy \<Rightarrow>
          (case (css_EnableChainMatching strategy, css_RequireChain strategy) of
             (Some enable, Some require) \<Rightarrow>
               if enable \<or> \<not> require then []
               else [FieldError ErrorTypeInvalid [''spec'', ''strategy'', ''requireChain''] (BadBool require)
                       RequireChainNeedsMatching]
           | _ \<Rightarrow> []))"

definition DefaultCachePolicyValidationRules :: "CachePolicyValidationRule list" where
  "DefaultCachePolicyValidationRules = [rejectNonPositiveEvictionTTL, rejectIncoherentStrategy]"

definition collectCachePolicySpecErrors ::
  "CachePolicyValidationRule list \<Rightarrow> CachePolicy \<Rightarrow> detail fieldError list" where
  "collectCachePolicySpecErrors rules cp =
     concat (map (\<lambda>rule. rule cp) (if length rules = 0 then DefaultCachePolicyValidationRules else rules))"

text \<open>The loop over the siblings keeps the least name other than the object's own.\<close>

definition leastOther :: "string \<Rightarrow> string list \<Rightarrow> string" where
  "leastOther name others =
     fold (\<lambda>other conflict.
             if other = name then conflict
             else if conflict = '''' \<or> other < conflict then other else conflict)
       others ''''"

definition checkSinglePolicyPerNamespace ::
  "CachePolicyValidator \<Rightarrow> CachePolicy \<Rightarrow> admissionFailure + detail fieldError list" where
  "checkSinglePolicyPerNamespace v cp =
     (case cpv_Reader v of
        None \<Rightarrow> Inl NilReader
      | Some reader \<Rightarrow>
          (case reader (cp_Namespace cp) of
             Inl err \<Rightarrow> Inl (ListingFailed (cp_Namespace cp) err)
           | Inr items \<Rightarrow>
               (let conflict = leastOther (cp_Name cp) (map cp_Name items)
                in if conflict = '''' then Inr []
                   else Inr [FieldError ErrorTypeForbidden [''metadata'', ''name''] NoBadValue
                               (NamespaceHasPolicy (cp_Namespace cp) conflict)])))"

definition policyValidateCreate :: "CachePolicyValidator \<Rightarrow> CachePolicy \<Rightarrow> detail verdict" where
  "policyValidateCreate v cp =
     (let errs = collectCachePolicySpecErrors (cpv_Rules v) cp
      in case checkSinglePolicyPerNamespace v cp of
           Inl err \<Rightarrow> Failed err
         | Inr siblingErrs \<Rightarrow>
             if length (errs @ siblingErrs) = 0 then Admitted else Invalid (cp_Name cp) (errs @ siblingErrs))"

definition policyValidateUpdate :: "CachePolicyValidator \<Rightarrow> CachePolicy \<Rightarrow> CachePolicy \<Rightarrow> detail verdict" where
  "policyValidateUpdate v oldCP newCP =
     (let newErrs = collectCachePolicySpecErrors (cpv_Rules v) newCP
      in if length newErrs = 0 then Admitted
         else
           (let oldErrs = collectCachePolicySpecErrors (cpv_Rules v) oldCP;
                introduced = filterIntroducedErrors oldErrs newErrs
            in if length introduced = 0 then Admitted else Invalid (cp_Name newCP) introduced))"

subsection \<open>The CacheTenant webhook\<close>

type_synonym CacheTenantValidationRule = "CacheTenant \<Rightarrow> detail fieldError list"

record CacheTenantValidator =
  ctv_Reader :: "(string \<Rightarrow> string + CacheTenant list) option"
  ctv_Rules :: "CacheTenantValidationRule list"

definition rejectReservedProbeTenantID :: CacheTenantValidationRule where
  "rejectReservedProbeTenantID ct =
     (if cts_TenantID (ct_Spec ct) \<noteq> ProbeTenantID then []
      else [FieldError ErrorTypeInvalid [''spec'', ''tenantID''] (BadString (cts_TenantID (ct_Spec ct))) TenantIDReserved])"

definition DefaultCacheTenantValidationRules :: "CacheTenantValidationRule list" where
  "DefaultCacheTenantValidationRules = [rejectReservedProbeTenantID]"

definition collectCacheTenantSpecErrors ::
  "CacheTenantValidationRule list \<Rightarrow> CacheTenant \<Rightarrow> detail fieldError list" where
  "collectCacheTenantSpecErrors rules ct =
     concat (map (\<lambda>rule. rule ct) (if length rules = 0 then DefaultCacheTenantValidationRules else rules))"

definition checkTenantIDUniqueness ::
  "CacheTenantValidator \<Rightarrow> CacheTenant \<Rightarrow> admissionFailure + detail fieldError list" where
  "checkTenantIDUniqueness v ct =
     (case ctv_Reader v of
        None \<Rightarrow> Inl NilReader
      | Some reader \<Rightarrow>
          (case reader (ct_Namespace ct) of
             Inl err \<Rightarrow> Inl (ListingFailed (ct_Namespace ct) err)
           | Inr items \<Rightarrow>
               (let conflict = leastOther (ct_Name ct)
                      (map ct_Name (filter (\<lambda>other. cts_TenantID (ct_Spec other) = cts_TenantID (ct_Spec ct)) items))
                in if conflict = '''' then Inr []
                   else Inr [FieldError ErrorTypeInvalid [''spec'', ''tenantID''] (BadString (cts_TenantID (ct_Spec ct)))
                               (TenantIDClaimed conflict (ct_Namespace ct))])))"

definition tenantValidateCreate :: "CacheTenantValidator \<Rightarrow> CacheTenant \<Rightarrow> detail verdict" where
  "tenantValidateCreate v ct =
     (let errs = collectCacheTenantSpecErrors (ctv_Rules v) ct
      in case checkTenantIDUniqueness v ct of
           Inl err \<Rightarrow> Failed err
         | Inr dupErrs \<Rightarrow> if length (errs @ dupErrs) = 0 then Admitted else Invalid (ct_Name ct) (errs @ dupErrs))"

definition tenantValidateUpdate :: "CacheTenantValidator \<Rightarrow> CacheTenant \<Rightarrow> CacheTenant \<Rightarrow> detail verdict" where
  "tenantValidateUpdate v oldCT newCT =
     (let newErrs = collectCacheTenantSpecErrors (ctv_Rules v) newCT;
          oldErrs = collectCacheTenantSpecErrors (ctv_Rules v) oldCT;
          errs = filterIntroducedErrors oldErrs newErrs;
          dup =
            (if cts_TenantID (ct_Spec newCT) \<noteq> cts_TenantID (ct_Spec oldCT) then checkTenantIDUniqueness v newCT
             else Inr [])
      in case dup of
           Inl err \<Rightarrow> Failed err
         | Inr dupErrs \<Rightarrow> if length (errs @ dupErrs) = 0 then Admitted else Invalid (ct_Name newCT) (errs @ dupErrs))"

subsection \<open>Resolving the resources\<close>

text \<open>\<open>nil\<close> keeps the zero value, anything unparsable, non-finite or negative falls back to the default.\<close>

definition resolveScore :: "string \<Rightarrow> flt" where
  "resolveScore s =
     (case ParseFloat32 s of
        None \<Rightarrow> DefaultRoutingFloorScore
      | Some f \<Rightarrow> if \<not> flt_finite f \<or> flt_lt f (Fin 0) then DefaultRoutingFloorScore else f)"

definition resolveOnePolicy :: "CachePolicy \<Rightarrow> ResolvedPolicy" where
  "resolveOnePolicy cp =
     (let spec = cp_Spec cp
      in \<lparr>rp_Namespace = cp_Namespace cp,
          rp_EvictionTTL = (case cps_EvictionTTL spec of None \<Rightarrow> 0 | Some d \<Rightarrow> d),
          rp_MinimumPrefixTokens = (case cps_MinimumPrefixTokens spec of None \<Rightarrow> 0 | Some n \<Rightarrow> n),
          rp_MinimumMatchedTokens = (case cps_MinimumMatchedTokens spec of None \<Rightarrow> 0 | Some n \<Rightarrow> n),
          rp_RoutingFloorScore = map_option resolveScore (cps_RoutingFloorScore spec),
          rp_LookupTimeoutMs = (case cps_LookupTimeoutMs spec of None \<Rightarrow> 0 | Some n \<Rightarrow> n),
          rp_AffinityRouting =
            map_option (\<lambda>a. a = CachePolicyAffinityRoutingEnabled) (cps_AffinityRouting spec),
          rp_Eviction =
            map lowerChar
              (if cps_Eviction spec \<noteq> '''' then cps_Eviction spec else CachePolicyEvictionAlgorithmLRU),
          rp_Strategy =
            map_option (\<lambda>st. \<lparr>ls_EnableChainMatching = css_EnableChainMatching st,
                             ls_RequireChain = css_RequireChain st,
                             ls_EnableTenantHot = css_EnableTenantHot st\<rparr>) (cps_Strategy spec)\<rparr>)"

definition policyLess :: "CachePolicy \<Rightarrow> CachePolicy \<Rightarrow> bool" where
  "policyLess a b \<longleftrightarrow>
     (if cp_Namespace a \<noteq> cp_Namespace b then cp_Namespace a < cp_Namespace b else cp_Name a < cp_Name b)"

text \<open>The loop skips an entry whose namespace is that of the entry before it.\<close>

fun firstPerNamespace :: "string option \<Rightarrow> CachePolicy list \<Rightarrow> CachePolicy list" where
  "firstPerNamespace prev [] = []"
| "firstPerNamespace prev (p # ps) =
     (if prev = Some (cp_Namespace p) then firstPerNamespace (Some (cp_Namespace p)) ps
      else p # firstPerNamespace (Some (cp_Namespace p)) ps)"

definition resolvePolicies :: "CachePolicy list \<Rightarrow> ResolvedPolicy list" where
  "resolvePolicies items =
     (if length items = 0 then []
      else map resolveOnePolicy (firstPerNamespace None (sort_slice policyLess items)))"

definition resolveOneTenant :: "CacheTenant \<Rightarrow> ResolvedTenant option" where
  "resolveOneTenant ct =
     (if cts_TenantID (ct_Spec ct) = '''' then None
      else
        (case cts_Quota (ct_Spec ct) of
           None \<Rightarrow> None
         | Some q \<Rightarrow>
             (case ctq_MaxIndexEntries q of
                None \<Rightarrow> None
              | Some n \<Rightarrow>
                  Some \<lparr>rt_TenantID = cts_TenantID (ct_Spec ct), rt_MaxIndexEntries = n,
                        rt_IsolationMode = cts_IsolationMode (ct_Spec ct)\<rparr>)))"

definition tenantLess :: "CacheTenant \<Rightarrow> CacheTenant \<Rightarrow> bool" where
  "tenantLess a b \<longleftrightarrow>
     (if ct_Namespace a \<noteq> ct_Namespace b then ct_Namespace a < ct_Namespace b else ct_Name a < ct_Name b)"

definition tenantStep ::
  "CacheTenant \<Rightarrow> ResolvedTenant list \<times> (string, unit) gomap \<Rightarrow> ResolvedTenant list \<times> (string, unit) gomap" where
  "tenantStep ct = (\<lambda>(out, seen).
     (case resolveOneTenant ct of
        None \<Rightarrow> (out, seen)
      | Some rt \<Rightarrow>
          if map_of seen (rt_TenantID rt) \<noteq> None then (out, seen)
          else (out @ [rt], AList.update (rt_TenantID rt) () seen)))"

definition resolveTenants :: "CacheTenant list \<Rightarrow> ResolvedTenant list" where
  "resolveTenants items = fst (fold tenantStep (sort_slice tenantLess items) ([], []))"

subsection \<open>Pushing the snapshot\<close>

text \<open>A listing of the cluster: the kind is not installed, the call failed, or the items.\<close>

datatype 'a listing = ListNotFound | ListFailed string | Listed "'a list"

datatype pushError =
    ListPoliciesFailed string | ListTenantsFailed string | MarshalFailed | PushFailed | UnexpectedStatus int

text \<open>\<open>json.Marshal\<close> fails exactly on the floats JSON cannot write.\<close>

definition jsonEncodable :: "PolicySnapshot \<Rightarrow> bool" where
  "jsonEncodable snap \<longleftrightarrow>
     list_all (\<lambda>p. case rp_RoutingFloorScore p of None \<Rightarrow> True | Some v \<Rightarrow> flt_finite v) (ps_Policies snap)"

text \<open>The snapshot the controller posts; \<open>Inr None\<close> when the CachePolicy kind is not installed.\<close>

definition policyRequest ::
  "CachePolicy listing \<Rightarrow> CacheTenant listing \<Rightarrow> pushError + PolicySnapshot option" where
  "policyRequest policyList tenantList =
     (case policyList of
        ListNotFound \<Rightarrow> Inr None
      | ListFailed err \<Rightarrow> Inl (ListPoliciesFailed err)
      | Listed cps \<Rightarrow>
          (case tenantList of
             ListFailed err \<Rightarrow> Inl (ListTenantsFailed err)
           | _ \<Rightarrow>
               (let snap = \<lparr>ps_Version = PolicyPropagationVersion, ps_Policies = resolvePolicies cps,
                            ps_Tenants = resolveTenants (case tenantList of Listed cts \<Rightarrow> cts | _ \<Rightarrow> [])\<rparr>
                in if jsonEncodable snap then Inr (Some snap) else Inl MarshalFailed)))"

text \<open>\<open>post\<close> is the HTTP exchange: \<open>None\<close> for a transport error, or the status code of the answer.\<close>

definition pushSnapshot ::
  "(PolicySnapshot \<Rightarrow> int option) \<Rightarrow> CachePolicy listing \<Rightarrow> CacheTenant listing \<Rightarrow> pushError option" where
  "pushSnapshot post policyList tenantList =
     (case policyRequest policyList tenantList of
        Inl err \<Rightarrow> Some err
      | Inr None \<Rightarrow> None
      | Inr (Some snap) \<Rightarrow>
          (case post snap of
             None \<Rightarrow> Some PushFailed
           | Some status \<Rightarrow> if status div 100 \<noteq> 2 then Some (UnexpectedStatus status) else None))"

end
