(* ===== verification/Control_Plane_Facts.thy ===== *)
theory Control_Plane_Facts
  imports Control_Plane
begin

text \<open>
  What the webhooks and the resolution guarantee: sorting by (namespace, name) makes the pick per
  namespace and per tenant the least resource that qualifies, whatever order the API server lists
  them in; the routing floor that is pushed is always a finite non-negative number; and the pushed
  snapshot is what the server's resolvers answer from.
\<close>

subsection \<open>Sorting by a rank\<close>

context ranked_order
begin

lemma insert_slice_insort: "insert_slice lt x xs = insort_key rank x xs"
  by (induction xs) (auto simp: lt_rank not_less)

lemma sort_slice_sort_key: "sort_slice lt xs = sort_key rank xs"
  by (induction xs) (auto simp: insert_slice_insort)

lemma sort_slice_filter: "sort_slice lt (filter Q xs) = filter Q (sort_slice lt xs)"
  by (simp add: sort_slice_sort_key filter_sort)

text \<open>The first element with a property is a least one.\<close>

lemma find_sort_least:
  assumes "find Q (sort_slice lt xs) = Some x"
  shows "x \<in> set xs" and "Q x" and "\<forall>y \<in> set xs. Q y \<longrightarrow> rank x \<le> rank y"
proof -
  obtain i where i: "i < length (sort_slice lt xs)" "Q (sort_slice lt xs ! i)" "x = sort_slice lt xs ! i"
    "\<forall>j < i. \<not> Q (sort_slice lt xs ! j)"
    using assms by (auto simp: find_Some_iff)
  show "x \<in> set xs" "Q x" using i nth_mem set_sort_slice by metis+
  show "\<forall>y \<in> set xs. Q y \<longrightarrow> rank x \<le> rank y"
  proof (intro ballI impI)
    fix y
    assume "y \<in> set xs" "Q y"
    then obtain j where j: "j < length (sort_slice lt xs)" "y = sort_slice lt xs ! j"
      by (metis in_set_conv_nth set_sort_slice)
    with \<open>Q y\<close> i(4) have "i \<le> j" by (meson not_le)
    then show "rank x \<le> rank y"
      using sorted_wrt_nth_less [OF sorted_rank, of i j xs] j i(3) by (cases "i = j") auto
  qed
qed

lemma find_sort_None: "find Q (sort_slice lt xs) = None \<longleftrightarrow> (\<forall>y \<in> set xs. \<not> Q y)"
  by (auto simp: find_None_iff)

end

interpretation policy_sort: ranked_order policyLess "\<lambda>p. (cp_Namespace p, cp_Name p)"
  by unfold_locales (auto simp: policyLess_def less_prod_def)

interpretation tenant_sort: ranked_order tenantLess "\<lambda>t. (ct_Namespace t, ct_Name t)"
  by unfold_locales (auto simp: tenantLess_def less_prod_def)

subsection \<open>The pick per namespace\<close>

lemma find_None_key: "find (\<lambda>x. g x = k) xs = None \<longleftrightarrow> k \<notin> g ` set xs"
  by (auto simp: find_None_iff)

lemma find_rev_distinct: "distinct (map g xs) \<Longrightarrow> find (\<lambda>x. g x = k) (rev xs) = find (\<lambda>x. g x = k) xs"
proof (induction xs)
  case (Cons x xs)
  show ?case
  proof (cases "g x = k")
    case True
    with Cons.prems have "find (\<lambda>x. g x = k) xs = None" by (auto simp: find_None_key)
    with True Cons show ?thesis by (simp add: find_append)
  next
    case False
    with Cons show ?thesis by (simp add: find_append split: option.splits)
  qed
qed simp

lemma find_map: "find P (map f xs) = map_option f (find (\<lambda>x. P (f x)) xs)"
  by (induction xs) auto

lemma set_firstPerNamespace: "set (firstPerNamespace prev ps) \<subseteq> set ps"
  by (induction prev ps rule: firstPerNamespace.induct) auto

text \<open>On a list sorted by namespace the skipped entries are those whose namespace was emitted.\<close>

lemma firstPerNamespace_sorted:
  assumes "sorted_wrt (\<lambda>a b. cp_Namespace a \<le> cp_Namespace b) ps"
    and "\<forall>p \<in> set ps. case prev of None \<Rightarrow> True | Some n \<Rightarrow> n \<le> cp_Namespace p"
  shows "distinct (map cp_Namespace (firstPerNamespace prev ps)) \<and>
    (\<forall>k. find (\<lambda>p. cp_Namespace p = k) (firstPerNamespace prev ps) =
      (if prev = Some k then None else find (\<lambda>p. cp_Namespace p = k) ps)) \<and>
    (\<forall>p \<in> set (firstPerNamespace prev ps). prev \<noteq> Some (cp_Namespace p))"
  using assms
proof (induction prev ps rule: firstPerNamespace.induct)
  case (2 prev p ps)
  show ?case
  proof (cases "prev = Some (cp_Namespace p)")
    case True
    with 2 show ?thesis by auto
  next
    case False
    have IH: "distinct (map cp_Namespace (firstPerNamespace (Some (cp_Namespace p)) ps))"
      "find (\<lambda>p. cp_Namespace p = k) (firstPerNamespace (Some (cp_Namespace p)) ps) =
        (if cp_Namespace p = k then None else find (\<lambda>p. cp_Namespace p = k) ps)"
      "\<forall>q \<in> set (firstPerNamespace (Some (cp_Namespace p)) ps). cp_Namespace p \<noteq> cp_Namespace q" for k
      using "2.IH"(2) [OF False] "2.prems" by auto
    have "n \<noteq> cp_Namespace q" if "prev = Some n" "q \<in> set ps" for n q
    proof -
      have "n \<le> cp_Namespace p" "n \<noteq> cp_Namespace p" "cp_Namespace p \<le> cp_Namespace q"
        using "2.prems" that False by auto
      then show ?thesis by auto
    qed
    then have later: "\<forall>q \<in> set ps. prev \<noteq> Some (cp_Namespace q)" by auto
    then have "find (\<lambda>q. cp_Namespace q = k) ps = None" if "prev = Some k" for k
      using that by (auto simp: find_None_iff)
    note none = this
    have fp: "firstPerNamespace prev (p # ps) = p # firstPerNamespace (Some (cp_Namespace p)) ps" using False by simp
    show ?thesis
      unfolding fp
    proof (intro conjI allI ballI)
      show "distinct (map cp_Namespace (p # firstPerNamespace (Some (cp_Namespace p)) ps))" using IH(1,3) by auto
      show "find (\<lambda>p. cp_Namespace p = k) (p # firstPerNamespace (Some (cp_Namespace p)) ps) =
          (if prev = Some k then None else find (\<lambda>p. cp_Namespace p = k) (p # ps))" for k
        using IH(2) [of k] False none by (cases "cp_Namespace p = k") auto
      show "prev \<noteq> Some (cp_Namespace q)" if "q \<in> set (p # firstPerNamespace (Some (cp_Namespace p)) ps)" for q
        using that False later set_firstPerNamespace [of "Some (cp_Namespace p)" ps] by auto
    qed
  qed
qed auto

lemma resolvePolicies_find:
  "distinct (map rp_Namespace (resolvePolicies items)) \<and>
   find (\<lambda>p. rp_Namespace p = k) (resolvePolicies items) =
     map_option resolveOnePolicy (find (\<lambda>p. cp_Namespace p = k) (sort_slice policyLess items))"
proof -
  have ns: "rp_Namespace (resolveOnePolicy p) = cp_Namespace p" for p by (simp add: resolveOnePolicy_def Let_def)
  have "sorted_wrt (\<lambda>a b. cp_Namespace a \<le> cp_Namespace b) (sort_slice policyLess items)"
    by (rule sorted_wrt_mono_rel [OF _ policy_sort.sorted_rank]) (auto simp: less_eq_prod_def)
  from firstPerNamespace_sorted [OF this, of None] show ?thesis
    by (auto simp: resolvePolicies_def find_map ns comp_def)
qed

subsection \<open>The pick per tenant\<close>

lemma resolveOneTenant_id: "resolveOneTenant ct = Some rt \<Longrightarrow> rt_TenantID rt = cts_TenantID (ct_Spec ct)"
  by (auto simp: resolveOneTenant_def split: if_splits option.splits)

definition budgetFor :: "string \<Rightarrow> CacheTenant \<Rightarrow> bool" where
  "budgetFor t ct \<longleftrightarrow> cts_TenantID (ct_Spec ct) = t \<and> resolveOneTenant ct \<noteq> None"

lemma tenant_fold:
  assumes "set (map fst seen) = rt_TenantID ` set out" and "distinct (map rt_TenantID out)"
  shows "let out' = fst (fold tenantStep cts (out, seen))
    in distinct (map rt_TenantID out') \<and>
       find (\<lambda>rt. rt_TenantID rt = t) out' =
         (case find (\<lambda>rt. rt_TenantID rt = t) out of
            Some rt \<Rightarrow> Some rt
          | None \<Rightarrow> Option.bind (find (budgetFor t) cts) resolveOneTenant)"
  using assms
proof (induction cts arbitrary: out seen)
  case Nil
  then show ?case by (simp split: option.splits)
next
  case (Cons ct cts)
  show ?case
  proof (cases "resolveOneTenant ct")
    case None
    then have "tenantStep ct (out, seen) = (out, seen)" "\<not> budgetFor t ct" by (simp_all add: tenantStep_def budgetFor_def)
    with Cons.IH [OF Cons.prems] show ?thesis by (simp cong: option.case_cong)
  next
    case (Some rt)
    note id = resolveOneTenant_id [OF Some]
    show ?thesis
    proof (cases "rt_TenantID rt \<in> rt_TenantID ` set out")
      case True
      then have "map_of seen (rt_TenantID rt) \<noteq> None" using Cons.prems(1) by (metis map_of_eq_None_iff set_map)
      then have step: "tenantStep ct (out, seen) = (out, seen)" by (simp add: tenantStep_def Some)
      have "find (\<lambda>x. rt_TenantID x = t) out \<noteq> None" if "budgetFor t ct"
        using that True id by (simp add: budgetFor_def find_None_key)
      then show ?thesis using Cons.IH [OF Cons.prems] step by (auto simp: Let_def split: option.splits)
    next
      case False
      then have new: "rt_TenantID rt \<notin> fst ` set seen" using Cons.prems(1) by (metis set_map)
      then have "map_of seen (rt_TenantID rt) = None" by (simp add: map_of_eq_None_iff)
      then have step: "tenantStep ct (out, seen) = (out @ [rt], seen @ [(rt_TenantID rt, ())])"
        using new by (simp add: tenantStep_def Some update_notin)
      have "find (\<lambda>x. rt_TenantID x = t) out = None" if "rt_TenantID rt = t"
        using that False by (simp add: find_None_key)
      then show ?thesis
        using Cons.IH [of "seen @ [(rt_TenantID rt, ())]" "out @ [rt]"] Cons.prems False step id Some
        by (auto simp: Let_def budgetFor_def find_append split: option.splits)
    qed
  qed
qed

lemma resolveTenants_find:
  "distinct (map rt_TenantID (resolveTenants items))"
  "find (\<lambda>rt. rt_TenantID rt = t) (resolveTenants items) =
     Option.bind (find (budgetFor t) (sort_slice tenantLess items)) resolveOneTenant"
  using tenant_fold [of "[]" "[]" "sort_slice tenantLess items" t] by (simp_all add: resolveTenants_def Let_def)

subsection \<open>The routing floor\<close>

lemma default_floor: "flt_finite DefaultRoutingFloorScore" "\<not> flt_lt DefaultRoutingFloorScore (Fin 0)"
  by code_simp+

lemma resolveScore_sane: "flt_finite (resolveScore s)" "\<not> flt_lt (resolveScore s) (Fin 0)"
  using default_floor by (auto simp: resolveScore_def split: option.splits)

lemma policyRequest_encodable: "policyRequest ps ts \<noteq> Inl MarshalFailed"
proof -
  have "jsonEncodable \<lparr>ps_Version = v, ps_Policies = resolvePolicies cps, ps_Tenants = cts\<rparr>" for v cps cts
    using resolveScore_sane(1)
    by (auto simp: jsonEncodable_def resolvePolicies_def list_all_iff resolveOnePolicy_def Let_def split: option.splits)
  then show ?thesis by (auto simp: policyRequest_def split: listing.splits)
qed

subsection \<open>What the server enforces after a push\<close>

lemma normalize_current: "ps_Version snap = PolicyPropagationVersion \<Longrightarrow> normalizePolicySnapshotForVersion snap = snap"
  by (simp add: normalizePolicySnapshotForVersion_def)

lemma pushed_policy:
  assumes "policyRequest (Listed cps) (Listed cts) = Inr (Some snap)"
    and "policyHandler ''POST'' (Inr snap) s = (status, s')"
  shows "status = StatusNoContent"
    and "ns \<noteq> '''' \<Longrightarrow> policyLookup s' ns =
      map_option resolveOnePolicy (find (\<lambda>p. cp_Namespace p = ns) (sort_slice policyLess cps))"
    and "TenantQuota s' t =
      (if t = ProbeTenantID \<or> t = '''' then None
       else map_option (\<lambda>rt. max 0 (rt_MaxIndexEntries rt))
              (Option.bind (find (budgetFor t) (sort_slice tenantLess cts)) resolveOneTenant))"
proof -
  have snap: "snap = \<lparr>ps_Version = PolicyPropagationVersion, ps_Policies = resolvePolicies cps, ps_Tenants = resolveTenants cts\<rparr>"
    using assms(1) by (auto simp: policyRequest_def Let_def split: if_splits)
  have "PolicyMinimumAcceptedVersion \<le> PolicyPropagationVersion" by code_simp
  then have s': "status = StatusNoContent" "s' = ReplaceSnapshot (resolvePolicies cps) (resolveTenants cts) s"
    using assms(2) by (auto simp: policyHandler_def snap normalize_current Let_def)
  show "status = StatusNoContent" by (rule s'(1))
  show "policyLookup s' ns = map_option resolveOnePolicy (find (\<lambda>p. cp_Namespace p = ns) (sort_slice policyLess cps))"
    if "ns \<noteq> ''''"
    using resolvePolicies_find [of cps ns] that by (simp add: s'(2) ReplaceSnapshot_policies find_rev_distinct)
  show "TenantQuota s' t =
      (if t = ProbeTenantID \<or> t = '''' then None
       else map_option (\<lambda>rt. max 0 (rt_MaxIndexEntries rt))
              (Option.bind (find (budgetFor t) (sort_slice tenantLess cts)) resolveOneTenant))"
    by (simp add: s'(2) TenantQuota_replaced find_rev_distinct [OF resolveTenants_find(1)] resolveTenants_find(2))
qed

subsection \<open>Admission\<close>

lemma leastOther_empty:
  assumes "'''' \<notin> set others"
  shows "leastOther name others = '''' \<longleftrightarrow> set others \<subseteq> {name}"
proof -
  have "'''' \<notin> set others \<Longrightarrow>
      fold (\<lambda>other conflict. if other = name then conflict
             else if conflict = '''' \<or> other < conflict then other else conflict) others acc = '''' \<longleftrightarrow>
      acc = '''' \<and> set others \<subseteq> {name}" for acc
    by (induction others arbitrary: acc) auto
  then show ?thesis using assms by (simp add: leastOther_def)
qed

lemma leastOther_least:
  assumes "leastOther name others = r" and "r \<noteq> ''''" and "'''' \<notin> set others"
  shows "r \<in> set others" and "r \<noteq> name" and "\<forall>other \<in> set others. other \<noteq> name \<longrightarrow> r \<le> other"
proof -
  let ?f = "\<lambda>other conflict. if other = name then conflict
             else if conflict = '''' \<or> other < conflict then other else conflict"
  have "fold ?f others acc = r \<Longrightarrow> '''' \<notin> set others \<Longrightarrow>
      (r = acc \<or> r \<in> set others \<and> r \<noteq> name) \<and> (\<forall>other \<in> set others. other \<noteq> name \<longrightarrow> r \<le> other) \<and>
      (acc \<noteq> '''' \<longrightarrow> r \<le> acc)" for acc
  proof (induction others arbitrary: acc)
    case (Cons x xs)
    have IH: "(r = ?f x acc \<or> r \<in> set xs \<and> r \<noteq> name) \<and> (\<forall>other \<in> set xs. other \<noteq> name \<longrightarrow> r \<le> other) \<and>
        (?f x acc \<noteq> '''' \<longrightarrow> r \<le> ?f x acc)"
      using Cons by simp
    consider "x = name" | "x \<noteq> name" "acc = '''' \<or> x < acc" | "x \<noteq> name" "acc \<noteq> ''''" "acc \<le> x" by fastforce
    then show ?case
    proof cases
      case 1
      with IH show ?thesis by auto
    next
      case 2
      then have "?f x acc = x" by simp
      with IH Cons.prems(2) have "r \<le> x" by (metis list.set_intros(1))
      with IH 2 \<open>?f x acc = x\<close> show ?thesis by (simp only: list.set) (blast intro: order_trans less_imp_le)
    next
      case 3
      then have "?f x acc = acc" by auto
      with IH 3 have "r \<le> acc" by simp
      with IH 3 \<open>?f x acc = acc\<close> show ?thesis by (simp only: list.set) (blast intro: order_trans)
    qed
  qed simp
  from this [of "''''"] show "r \<in> set others" "r \<noteq> name" "\<forall>other \<in> set others. other \<noteq> name \<longrightarrow> r \<le> other"
    using assms by (simp_all add: leastOther_def)
qed

end
