(* ===== verification/Go_Strings.thy ===== *)
theory Go_Strings
  imports Go_Text "HOL-Library.Sublist"
begin

text \<open>
  The functions of Go's \<open>strings\<close>, \<open>strconv\<close>, \<open>unicode\<close> and \<open>net\<close> packages the control plane
  applies to names, flags and addresses, on bytes. Runes matter in two places: white space and
  control characters are recognised by their UTF-8 encodings, which cannot occur inside the
  encoding of another character. Case mapping is that of the ASCII letters.
\<close>

subsection \<open>Substrings\<close>

definition HasPrefix :: "string \<Rightarrow> string \<Rightarrow> bool" where
  "HasPrefix s p \<longleftrightarrow> prefix p s"

definition HasSuffix :: "string \<Rightarrow> string \<Rightarrow> bool" where
  "HasSuffix s p \<longleftrightarrow> suffix p s"

definition TrimPrefix :: "string \<Rightarrow> string \<Rightarrow> string" where
  "TrimPrefix s p = (if prefix p s then drop (length p) s else s)"

definition TrimSuffix :: "string \<Rightarrow> string \<Rightarrow> string" where
  "TrimSuffix s p = (if suffix p s then take (length s - length p) s else s)"

text \<open>The part before and after the first occurrence of a separator (\<open>Index\<close>, \<open>Cut\<close>).\<close>

fun cutAt :: "string \<Rightarrow> string \<Rightarrow> (string \<times> string) option" where
  "cutAt sep [] = (if sep = [] then Some ([], []) else None)"
| "cutAt sep (c # cs) =
     (if prefix sep (c # cs) then Some ([], drop (length sep) (c # cs))
      else map_option (\<lambda>(a, b). (c # a, b)) (cutAt sep cs))"

definition Contains :: "string \<Rightarrow> string \<Rightarrow> bool" where
  "Contains s sub \<longleftrightarrow> cutAt sub s \<noteq> None"

text \<open>The part before and after the last occurrence of a byte (\<open>LastIndex\<close>).\<close>

definition cutLast :: "char \<Rightarrow> string \<Rightarrow> (string \<times> string) option" where
  "cutLast c s =
     (if c \<in> set s
      then Some (rev (tl (dropWhile (\<lambda>x. x \<noteq> c) (rev s))), rev (takeWhile (\<lambda>x. x \<noteq> c) (rev s)))
      else None)"

fun SplitByte :: "char \<Rightarrow> string \<Rightarrow> string list" where
  "SplitByte sep [] = [[]]"
| "SplitByte sep (c # cs) =
     (if c = sep then [] # SplitByte sep cs
      else (case SplitByte sep cs of [] \<Rightarrow> [[c]] | w # ws \<Rightarrow> (c # w) # ws))"

definition ToLower :: "string \<Rightarrow> string" where
  "ToLower s = map lowerChar s"

subsection \<open>White space and control characters\<close>

text \<open>The encodings of the characters of \<open>unicode.IsSpace\<close>.\<close>

definition spaceEncodings :: "string list" where
  "spaceEncodings =
     map (map char_of)
       ([[9], [10], [11], [12], [13], [32], [194, 133], [194, 160], [225, 154, 128],
         [226, 128, 168], [226, 128, 169], [226, 128, 175], [226, 129, 159], [227, 128, 128]]
        @ map (\<lambda>n. [226, 128, n]) [128..138] :: int list list)"

definition controlEncodings :: "string list" where
  "controlEncodings = map (map char_of) (map (\<lambda>n. [n]) ([0..31] @ [127]) @ map (\<lambda>n. [194, n]) [128..159] :: int list list)"

definition leadingSpace :: "string \<Rightarrow> nat" where
  "leadingSpace s = (case find (\<lambda>e. prefix e s) spaceEncodings of None \<Rightarrow> 0 | Some e \<Rightarrow> length e)"

definition trailingSpace :: "string \<Rightarrow> nat" where
  "trailingSpace s = (case find (\<lambda>e. suffix e s) spaceEncodings of None \<Rightarrow> 0 | Some e \<Rightarrow> length e)"

function trimLeft :: "string \<Rightarrow> string" where
  "trimLeft s = (if leadingSpace s = 0 \<or> s = [] then s else trimLeft (drop (leadingSpace s) s))"
  by pat_completeness auto
termination by (relation "measure length") (auto simp: not_less)

function trimRight :: "string \<Rightarrow> string" where
  "trimRight s = (if trailingSpace s = 0 \<or> s = [] then s else trimRight (take (length s - trailingSpace s) s))"
  by pat_completeness auto
termination by (relation "measure length") (auto simp: not_less)

definition TrimSpace :: "string \<Rightarrow> string" where
  "TrimSpace s = trimRight (trimLeft s)"

definition hasSpaceOrControl :: "string \<Rightarrow> bool" where
  "hasSpaceOrControl s \<longleftrightarrow> list_ex (Contains s) (spaceEncodings @ controlEncodings)"

subsection \<open>Numbers and truth values\<close>

fun readDigits :: "int \<Rightarrow> string \<Rightarrow> int option" where
  "readDigits acc [] = Some acc"
| "readDigits acc (c # cs) =
     (case digitOf False c of None \<Rightarrow> None | Some d \<Rightarrow> readDigits (10 * acc + d) cs)"

definition ParseUint :: "nat \<Rightarrow> string \<Rightarrow> int option" where
  "ParseUint bits s =
     (if s = [] then None
      else (case readDigits 0 s of None \<Rightarrow> None | Some n \<Rightarrow> if n < 2 ^ bits then Some n else None))"

definition ParseInt :: "nat \<Rightarrow> string \<Rightarrow> int option" where
  "ParseInt bits s =
     (let neg = HasPrefix s ''-'';
          digits = (if HasPrefix s ''-'' \<or> HasPrefix s ''+'' then tl s else s)
      in if digits = [] then None
         else
           (case readDigits 0 digits of
              None \<Rightarrow> None
            | Some n \<Rightarrow>
                if neg then (if n \<le> 2 ^ (bits - 1) then Some (- n) else None)
                else if n < 2 ^ (bits - 1) then Some n else None))"

definition FormatInt :: "int \<Rightarrow> string" where
  "FormatInt n = (if n < 0 then CHR ''-'' # showNat (- n) else showNat n)"

definition ParseBool :: "string \<Rightarrow> bool option" where
  "ParseBool s =
     (if s \<in> set [''1'', ''t'', ''T'', ''TRUE'', ''true'', ''True''] then Some True
      else if s \<in> set [''0'', ''f'', ''F'', ''FALSE'', ''false'', ''False''] then Some False
      else None)"

subsection \<open>Host and port\<close>

text \<open>\<open>net.SplitHostPort\<close>; every malformed address is \<open>None\<close>.\<close>

definition SplitHostPort :: "string \<Rightarrow> (string \<times> string) option" where
  "SplitHostPort hostport =
     (case cutLast CHR '':'' hostport of
        None \<Rightarrow> None
      | Some (before, port) \<Rightarrow>
          if HasPrefix hostport ''['' then
            (case cutAt '']'' hostport of
               None \<Rightarrow> None
             | Some (inside, tail) \<Rightarrow>
                 if inside @ '']'' \<noteq> before then None
                 else if Contains (tl hostport) ''['' \<or> Contains tail '']'' then None
                 else Some (tl inside, port))
          else if Contains before '':'' then None
          else if Contains hostport ''['' \<or> Contains hostport '']'' then None
          else Some (before, port))"

subsection \<open>64-bit floating point\<close>

definition ParseFloat64 :: "string \<Rightarrow> flt option" where
  "ParseFloat64 s =
     (let low = map lowerChar s
      in if low \<in> {''inf'', ''+inf'', ''infinity'', ''+infinity''} then Some PInf
         else if low \<in> {''-inf'', ''-infinity''} then Some NInf
         else if low = ''nan'' then Some NaN
         else
           (case readFloat s of
              None \<Rightarrow> None
            | Some q \<Rightarrow> (case rnd binary64 q of Fin r \<Rightarrow> Some (Fin r) | _ \<Rightarrow> None)))"

text \<open>
  \<open>FormatFloat(f, 'f', -1, 64)\<close>: as for \<open>float32\<close>, the least number of decimals at which a neighbour
  of the value rounds to it; at 1074 decimals every \<open>float64\<close> is exact.
\<close>

definition shortAt64 :: "rat \<Rightarrow> int \<Rightarrow> int option" where
  "shortAt64 q k =
     (let s = q * pow10 k; lo = \<lfloor>s\<rfloor>; ok = (\<lambda>c. rnd binary64 (of_int c / pow10 k) = Fin q)
      in if ok lo \<and> (\<not> ok (lo + 1) \<or> s - of_int lo \<le> of_int (lo + 1) - s) then Some lo
         else if ok (lo + 1) then Some (lo + 1)
         else None)"

fun shortSearch64 :: "rat \<Rightarrow> int \<Rightarrow> nat \<Rightarrow> (int \<times> int) option" where
  "shortSearch64 q k 0 = None"
| "shortSearch64 q k (Suc n) =
     (case shortAt64 q k of Some c \<Rightarrow> Some (c, k) | None \<Rightarrow> shortSearch64 q (k + 1) n)"

definition formatPos64 :: "rat \<Rightarrow> string" where
  "formatPos64 q =
     (if q = 0 then ''0''
      else (case shortSearch64 q (- 309) 1384 of None \<Rightarrow> [] | Some (c, k) \<Rightarrow> renderDecimal c k))"

fun FormatFloat64 :: "flt \<Rightarrow> string" where
  "FormatFloat64 (Fin q) = (if q < 0 then ''-'' @ formatPos64 (- q) else formatPos64 q)"
| "FormatFloat64 PInf = ''+Inf''"
| "FormatFloat64 NInf = ''-Inf''"
| "FormatFloat64 NaN = ''NaN''"

end
