(* ===== verification/Cluster_Types.thy ===== *)
theory Cluster_Types
  imports Go_Strings
begin

text \<open>
  The Kubernetes objects the control plane handles. The first section is the part of the core API
  the code reads and writes: containers, volumes and pods. The second is
  \<open>api/v1alpha1/cachebackend_types.go\<close> with the reading helpers of \<open>cachebackend_effective.go\<close>.
  Records hold the fields some modelled function reads or writes; a pointer is an option. A
  \<open>resource.Quantity\<close> is an exact decimal number, with \<open>Sign\<close>, \<open>Cmp\<close> and \<open>Add\<close> its order and
  sum.
\<close>

subsection \<open>Core objects\<close>

type_synonym quantity = rat

record ResourceRequirements =
  rr_Requests :: "(string, quantity) gomap"
  rr_Limits :: "(string, quantity) gomap"
  rr_Claims :: "string list"

record SecretKeySelector =
  sks_Name :: string
  sks_Key :: string
  sks_Optional :: "bool option"

text \<open>The pointer fields of an \<open>EnvVarSource\<close> that are set.\<close>

datatype envSource =
    FieldRef string
  | ResourceFieldRef string
  | ConfigMapKeyRef SecretKeySelector
  | SecretKeyRef SecretKeySelector
  | FileKeyRef string

record EnvVar =
  ev_Name :: string
  ev_Value :: string
  ev_ValueFrom :: "envSource list option"

record VolumeMount =
  vm_Name :: string
  vm_MountPath :: string
  vm_SubPath :: string
  vm_SubPathExpr :: string
  vm_ReadOnly :: bool

text \<open>The API server admits a volume only with exactly one source.\<close>

datatype volumeSource =
    EmptyDir string "quantity option"
  | HostPath string "string option"
  | ConfigMapVolume
  | SecretVolume
  | DownwardAPIVolume
  | ProjectedVolume
  | PersistentVolumeClaim bool
  | CSI "bool option"
  | NFS bool
  | OtherVolume string

record Volume =
  v_Name :: string
  v_Source :: volumeSource

record ContainerPort =
  cpt_Name :: string
  cpt_ContainerPort :: int
  cpt_HostPort :: int

record Probe =
  pb_Path :: string
  pb_Port :: string
  pb_PeriodSeconds :: int
  pb_FailureThreshold :: int
  pb_TimeoutSeconds :: int

record SecurityContext =
  sc_RunAsNonRoot :: "bool option"
  sc_RunAsUser :: "int option"
  sc_RunAsGroup :: "int option"
  sc_AllowPrivilegeEscalation :: "bool option"
  sc_ReadOnlyRootFilesystem :: "bool option"
  sc_DropCapabilities :: "string list"
  sc_SeccompProfile :: "string option"

record Container =
  c_Name :: string
  c_Image :: string
  c_ImagePullPolicy :: string
  c_RestartPolicy :: "string option"
  c_Command :: "string list"
  c_Args :: "string list"
  c_WorkingDir :: string
  c_Ports :: "ContainerPort list"
  c_Env :: "EnvVar list"
  c_Resources :: ResourceRequirements
  c_VolumeMounts :: "VolumeMount list"
  c_StartupProbe :: "Probe option"
  c_ReadinessProbe :: "Probe option"
  c_LivenessProbe :: "Probe option"
  c_SecurityContext :: "SecurityContext option"
  c_TerminationMessagePath :: string
  c_TerminationMessagePolicy :: string

record PodSpec =
  ps_NodeName :: string
  ps_Containers :: "Container list"
  ps_InitContainers :: "Container list"
  ps_Volumes :: "Volume list"

record Pod =
  pod_Namespace :: string
  pod_Name :: string
  pod_Labels :: "(string, string) gomap"
  pod_Annotations :: "(string, string) gomap"
  pod_Spec :: PodSpec

text \<open>The zero values the code fills in.\<close>

definition noResources :: ResourceRequirements where
  "noResources = \<lparr>rr_Requests = [], rr_Limits = [], rr_Claims = []\<rparr>"

definition zeroContainer :: Container where
  "zeroContainer =
     \<lparr>c_Name = [], c_Image = [], c_ImagePullPolicy = [], c_RestartPolicy = None, c_Command = [], c_Args = [],
      c_WorkingDir = [], c_Ports = [], c_Env = [], c_Resources = noResources, c_VolumeMounts = [],
      c_StartupProbe = None, c_ReadinessProbe = None, c_LivenessProbe = None, c_SecurityContext = None,
      c_TerminationMessagePath = [], c_TerminationMessagePolicy = []\<rparr>"

text \<open>Reading a missing key of a \<open>map[string]string\<close> gives the empty string.\<close>

definition gm_str :: "('k, string) gomap \<Rightarrow> 'k \<Rightarrow> string" where
  "gm_str m k = (case map_of m k of None \<Rightarrow> [] | Some v \<Rightarrow> v)"

subsection \<open>CacheBackend\<close>

definition CacheBackendDomainLabel :: string where "CacheBackendDomainLabel = ''inferencecache.io/cache-domain''"

definition CacheBackendRuntimeVLLM :: string where "CacheBackendRuntimeVLLM = ''VLLM''"
definition CacheBackendRuntimeSGLang :: string where "CacheBackendRuntimeSGLang = ''SGLang''"
definition CacheBackendTypeLMCache :: string where "CacheBackendTypeLMCache = ''LMCache''"
definition CacheBackendTypeSGLangHiCache :: string where "CacheBackendTypeSGLangHiCache = ''SGLangHiCache''"
definition RemoteStorageProviderRedis :: string where "RemoteStorageProviderRedis = ''Redis''"
definition OwnershipManaged :: string where "OwnershipManaged = ''Managed''"
definition OwnershipExternal :: string where "OwnershipExternal = ''External''"
definition LMCacheTopologyPodLocal :: string where "LMCacheTopologyPodLocal = ''PodLocal''"
definition LMCacheTopologyNodeLocal :: string where "LMCacheTopologyNodeLocal = ''NodeLocal''"
definition RoleReadOnly :: string where "RoleReadOnly = ''ReadOnly''"
definition RoleWriteOnly :: string where "RoleWriteOnly = ''WriteOnly''"
definition RoleReadWrite :: string where "RoleReadWrite = ''ReadWrite''"
definition ModeOffload :: string where "ModeOffload = ''Offload''"
definition ModeEventsOnly :: string where "ModeEventsOnly = ''EventsOnly''"

record SGLangHiCacheSpec =
  hc_SizeGB :: "int option"
  hc_Ratio :: string
  hc_WritePolicy :: string
  hc_IOBackend :: string
  hc_MemoryLayout :: string

record LMCachePodLocalServerSpec =
  pls_Image :: string
  pls_Port :: int
  pls_L1Capacity :: quantity
  pls_MaxWorkers :: int
  pls_Resources :: ResourceRequirements

record LMCachePodLocalSpec =
  pl_Server :: "LMCachePodLocalServerSpec option"

record LMCacheNodeLocalServerSpec =
  nls_Image :: string
  nls_Port :: int
  nls_HTTPPort :: int
  nls_L1Capacity :: quantity
  nls_MaxGPUWorkers :: int
  nls_MaxCPUWorkers :: int
  nls_Resources :: ResourceRequirements

record LMCacheNodeLocalSpec =
  nl_Server :: "LMCacheNodeLocalServerSpec option"
  nl_IdleRetentionSeconds :: int

record LMCacheEngineSpec =
  lm_Topology :: string
  lm_PodLocal :: "LMCachePodLocalSpec option"
  lm_NodeLocal :: "LMCacheNodeLocalSpec option"
  lm_ChunkSizeTokens :: "int option"

record RemoteStorageTLSSpec =
  tls_CACertificate :: SecretKeySelector
  tls_ServerName :: string

record RedisAuthenticationSpec =
  ra_Username :: "SecretKeySelector option"
  ra_Password :: SecretKeySelector

record RedisRemoteStorageSpec =
  rs_Image :: string
  rs_Resources :: "ResourceRequirements option"
  rs_Authentication :: "RedisAuthenticationSpec option"
  rs_TLS :: "RemoteStorageTLSSpec option"
  rs_Database :: "int option"

text \<open>The managed workload is only tested for presence.\<close>

record CacheBackendRemoteStorageSpec =
  st_Provider :: string
  st_Ownership :: string
  st_Endpoint :: string
  st_Workload :: "unit option"
  st_Redis :: "RedisRemoteStorageSpec option"

record CacheBackendObservationSpec =
  ob_ModelID :: string
  ob_FirstEventTimeout :: "duration option"

record EngineInjectionOverrides =
  eo_Args :: "string list"
  eo_SuppressArgs :: "string list"
  eo_Env :: "EnvVar list"
  eo_SuppressEnv :: "string list"

record CacheBackendIntegrationSpec =
  in_Mode :: string
  in_Role :: string
  in_FailOpen :: "bool option"
  in_EngineOverrides :: "EngineInjectionOverrides option"

record CacheBackendEngineSelector =
  es_MatchLabels :: "(string, string) gomap"

record CacheBackendSpec =
  cbs_Runtime :: string
  cbs_Type :: string
  cbs_LMCache :: "LMCacheEngineSpec option"
  cbs_RemoteStorage :: "CacheBackendRemoteStorageSpec option"
  cbs_Observation :: "CacheBackendObservationSpec option"
  cbs_Integration :: "CacheBackendIntegrationSpec option"
  cbs_EngineSelector :: "CacheBackendEngineSelector option"
  cbs_HiCache :: "SGLangHiCacheSpec option"
  cbs_AllowCrossNamespace :: bool

record CacheBackendRemoteStorageStatus =
  rst_Provider :: string
  rst_Endpoint :: string

record CacheBackendIndexParticipation =
  ip_PrefixCount :: int
  ip_LastEventAt :: "gotime option"
  ip_HitRate :: "string option"
  ip_T2HitRate :: "string option"

record CacheBackendStatus =
  cbst_RemoteStorage :: "CacheBackendRemoteStorageStatus option"
  cbst_IndexParticipation :: "CacheBackendIndexParticipation option"

record CacheBackend =
  cb_Namespace :: string
  cb_Name :: string
  cb_UID :: string
  cb_Generation :: int
  cb_Annotations :: "(string, string) gomap"
  cb_Spec :: CacheBackendSpec
  cb_Status :: CacheBackendStatus

subsection \<open>Effective values\<close>

definition EffectiveCacheType :: "CacheBackendSpec \<Rightarrow> string" where
  "EffectiveCacheType s = (if cbs_Type s = [] then CacheBackendTypeLMCache else cbs_Type s)"

definition EffectiveRemoteStorage :: "CacheBackendSpec \<Rightarrow> CacheBackendRemoteStorageSpec option" where
  "EffectiveRemoteStorage s = cbs_RemoteStorage s"

definition EffectiveObservationModelID :: "CacheBackendSpec \<Rightarrow> string" where
  "EffectiveObservationModelID s = (case cbs_Observation s of None \<Rightarrow> [] | Some ob \<Rightarrow> ob_ModelID ob)"

definition EffectiveFirstEventTimeout :: "CacheBackendSpec \<Rightarrow> duration option" where
  "EffectiveFirstEventTimeout s = (case cbs_Observation s of None \<Rightarrow> None | Some ob \<Rightarrow> ob_FirstEventTimeout ob)"

definition IntegrationFailOpen :: "CacheBackendIntegrationSpec option \<Rightarrow> bool" where
  "IntegrationFailOpen spec =
     (case spec of None \<Rightarrow> True | Some i \<Rightarrow> (case in_FailOpen i of None \<Rightarrow> True | Some b \<Rightarrow> b))"

definition IntegrationMode :: "CacheBackendIntegrationSpec option \<Rightarrow> string" where
  "IntegrationMode spec =
     (case spec of None \<Rightarrow> ModeOffload | Some i \<Rightarrow> if in_Mode i = [] then ModeOffload else in_Mode i)"

definition IsEventsOnly :: "CacheBackendSpec \<Rightarrow> bool" where
  "IsEventsOnly s \<longleftrightarrow> IntegrationMode (cbs_Integration s) = ModeEventsOnly"

definition matchLabels :: "CacheBackend \<Rightarrow> (string, string) gomap" where
  "matchLabels cb = (case cbs_EngineSelector (cb_Spec cb) of None \<Rightarrow> [] | Some s \<Rightarrow> es_MatchLabels s)"

end
