(* ===== verification/Adapter_API.thy ===== *)
theory Adapter_API
  imports Cluster_Types
begin

text \<open>
  The seams between the control plane and its plug-ins. \<open>pkg/adapters/runtime/adapter.go\<close>: the
  interface of a runtime adapter, a record of its methods, and the registry. \<open>pkg/adapters/backend\<close>:
  the remote-storage binding, the provider registry and the shape of an external endpoint.
  \<open>internal/enginebinding\<close>: the annotations and labels admission and the controllers share.

  An optional Go interface (\<open>LMCacheMPRuntimeAdapter\<close>, \<open>PairLister\<close>, \<open>InitContainerProvider\<close>) is an
  optional method. An error of an adapter is a constructor that carries what the code formats into
  its text.
\<close>

subsection \<open>Early returns\<close>

text \<open>The two shapes of \<open>if err != nil { return err }\<close>: after a call with a result, and after a check.\<close>

definition andThen :: "'e + 'a \<Rightarrow> ('a \<Rightarrow> 'e + 'b) \<Rightarrow> 'e + 'b" where
  "andThen r f = (case r of Inl e \<Rightarrow> Inl e | Inr x \<Rightarrow> f x)"

definition unlessError :: "'e option \<Rightarrow> 'e + 'b \<Rightarrow> 'e + 'b" where
  "unlessError err r = (case err of Some e \<Rightarrow> Inl e | None \<Rightarrow> r)"

subsection \<open>Remote storage\<close>

definition ProtocolRESP :: string where "ProtocolRESP = ''resp''"

record RedisBinding =
  rb_Authentication :: "RedisAuthenticationSpec option"
  rb_TLS :: "RemoteStorageTLSSpec option"
  rb_Database :: "int option"

record Binding =
  bi_Protocol :: string
  bi_Endpoint :: string
  bi_Redis :: "RedisBinding option"

text \<open>A storage provider; rendering its workload is not modelled.\<close>

record Provider =
  sp_Supports :: "CacheBackendRemoteStorageSpec \<Rightarrow> bool"

definition SelectProvider :: "Provider list \<Rightarrow> CacheBackendRemoteStorageSpec option \<Rightarrow> Provider option" where
  "SelectProvider providers storage =
     (case storage of None \<Rightarrow> None | Some st \<Rightarrow> find (\<lambda>p. sp_Supports p st) providers)"

definition BindingFor :: "CacheBackendRemoteStorageSpec option \<Rightarrow> string \<Rightarrow> string \<Rightarrow> Binding option" where
  "BindingFor storage protocol resolvedEndpoint =
     (case storage of
        None \<Rightarrow> None
      | Some st \<Rightarrow>
          Some \<lparr>bi_Protocol = protocol, bi_Endpoint = resolvedEndpoint,
                bi_Redis =
                  (if st_Provider st = RemoteStorageProviderRedis
                   then map_option (\<lambda>r. \<lparr>rb_Authentication = rs_Authentication r, rb_TLS = rs_TLS r, rb_Database = rs_Database r\<rparr>)
                          (st_Redis st)
                   else None)\<rparr>)"

text \<open>\<open>None\<close> is the error for an unknown provider.\<close>

definition ProtocolFor :: "CacheBackendRemoteStorageSpec option \<Rightarrow> string option" where
  "ProtocolFor storage =
     (case storage of
        None \<Rightarrow> Some []
      | Some st \<Rightarrow> if st_Provider st = RemoteStorageProviderRedis then Some ProtocolRESP else None)"

datatype endpointError =
    NoEndpointProtocol | EndpointEmpty | EndpointScheme | EndpointSpace | EndpointNotHostPort | EndpointBadPort string

definition ValidateExternalEndpoint :: "string \<Rightarrow> string \<Rightarrow> endpointError option" where
  "ValidateExternalEndpoint provider endpoint =
     (if provider \<noteq> RemoteStorageProviderRedis then Some NoEndpointProtocol
      else
        (let value = TrimSpace endpoint
         in if value = [] then Some EndpointEmpty
            else if Contains value ''://'' then Some EndpointScheme
            else if hasSpaceOrControl value then Some EndpointSpace
            else
              (case SplitHostPort value of
                 None \<Rightarrow> Some EndpointNotHostPort
               | Some (host, port) \<Rightarrow>
                   if host = [] \<or> port = [] then Some EndpointNotHostPort
                   else
                     (case ParseUint 16 port of
                        None \<Rightarrow> Some (EndpointBadPort port)
                      | Some n \<Rightarrow> if n = 0 then Some (EndpointBadPort port) else None))))"

subsection \<open>Runtime adapters\<close>

definition RuntimeVLLM :: string where "RuntimeVLLM = ''vllm''"
definition RuntimeSGLang :: string where "RuntimeSGLang = ''sglang''"

datatype adapterError =
    PodHasNoContainers
  | EngineContainerNotFound "string list" string
  | ConfigurationMissing
  | TopologyNotImplemented string
  | BindingNotSupported string
  | HiCacheConfigInvalid
  | ConflictingArguments
  | ArgumentMalformed string
  | ArgumentConflict string string string
  | ParallelSizeUnsupported string int
  | PageSizeInvalid string
  | ChunkNotMultiple int int
  | RoleUnsupported string
  | NameReserved string
  | MountReserved string
  | ShmNotUsable string
  | ShmTooSmall string
  | ServerConfigInvalid
  | RedisFeatureUnsupported
  | EndpointInvalid string
  | UIDUnsafe
  | OtherError string

record RuntimeAdapter =
  kv_Supports :: "string \<Rightarrow> CacheBackend \<Rightarrow> bool"
  kv_SupportsBinding :: "Binding option \<Rightarrow> bool"
  kv_InjectEngineConfig :: "PodSpec \<Rightarrow> Binding option \<Rightarrow> CacheBackend \<Rightarrow> adapterError + PodSpec"
  kv_ObservationSidecar :: "CacheBackend \<Rightarrow> Pod \<Rightarrow> adapterError + Container option"
  kv_ReservedArgs :: "string list"
  kv_ReservedEnv :: "string list"
  kv_EngineContainerName :: string
  kv_ValidateMPEnginePod :: "(Pod \<Rightarrow> CacheBackend \<Rightarrow> adapterError option) option"
  kv_KernelCheckInitContainer :: "(CacheBackend \<Rightarrow> Pod \<Rightarrow> adapterError + Container option) option"
  kv_SupportedPairs :: "(string \<times> string) list option"

type_synonym Registry = "RuntimeAdapter list"

definition Register :: "Registry \<Rightarrow> RuntimeAdapter option \<Rightarrow> Registry" where
  "Register r adapter = (case adapter of None \<Rightarrow> r | Some a \<Rightarrow> r @ [a])"

definition SelectAdapter :: "Registry \<Rightarrow> string \<Rightarrow> CacheBackend \<Rightarrow> RuntimeAdapter option" where
  "SelectAdapter r runtime cache = find (\<lambda>a. kv_Supports a runtime cache) r"

definition SupportedPairs :: "Registry \<Rightarrow> (string \<times> string) list" where
  "SupportedPairs r =
     fold (\<lambda>p out. if p \<in> set out then out else out @ [p])
       (concat (map (\<lambda>a. case kv_SupportedPairs a of None \<Rightarrow> [] | Some ps \<Rightarrow> ps) r)) []"

definition ResolveRuntimeID :: "CacheBackend \<Rightarrow> string" where
  "ResolveRuntimeID cache = ToLower (cbs_Runtime (cb_Spec cache))"

subsection \<open>Shared metadata\<close>

definition LabelLMCacheMPMetrics :: string where "LabelLMCacheMPMetrics = ''inferencecache.io/lmcache-mp-metrics''"
definition LabelLMCacheMPMetricsEnabled :: string where "LabelLMCacheMPMetricsEnabled = ''true''"
definition AnnotationSkip :: string where "AnnotationSkip = ''inferencecache.io/skip-inject''"
definition AnnotationInjectedBy :: string where "AnnotationInjectedBy = ''inferencecache.io/injected-by''"
definition AnnotationInjectedByUID :: string where "AnnotationInjectedByUID = ''inferencecache.io/injected-by-uid''"
definition AnnotationInjectedGeneration :: string where "AnnotationInjectedGeneration = ''inferencecache.io/injected-generation''"
definition AnnotationInjectSkipped :: string where "AnnotationInjectSkipped = ''inferencecache.io/inject-skipped''"
definition InjectSkippedReasonSkipAnnotation :: string where "InjectSkippedReasonSkipAnnotation = ''skip-inject-annotation''"

definition SubscriberContainerName :: string where "SubscriberContainerName = ''kvevent-subscriber''"
definition LMCacheKernelCheckContainerName :: string where "LMCacheKernelCheckContainerName = ''lmcache-kernel-check''"
definition AnnotationLMCacheKernelCheck :: string where "AnnotationLMCacheKernelCheck = ''inferencecache.io/lmcache-kernel-check''"
definition KernelCheckModeAuto :: string where "KernelCheckModeAuto = ''auto''"
definition KernelCheckModeReportOnly :: string where "KernelCheckModeReportOnly = ''report-only''"
definition KernelCheckModeStrict :: string where "KernelCheckModeStrict = ''strict''"
definition KernelCheckModeOff :: string where "KernelCheckModeOff = ''off''"
definition EnvKernelCheckStrict :: string where "EnvKernelCheckStrict = ''KERNEL_CHECK_STRICT''"

definition IsValidKernelCheckMode :: "string \<Rightarrow> bool" where
  "IsValidKernelCheckMode s \<longleftrightarrow>
     s \<in> set [[], KernelCheckModeAuto, KernelCheckModeReportOnly, KernelCheckModeStrict, KernelCheckModeOff]"

definition SkipAnnotationOptsOut :: "string \<Rightarrow> bool" where
  "SkipAnnotationOptsOut value =
     (if value = [] then False
      else
        (case ParseBool value of
           Some b \<Rightarrow> b
         | None \<Rightarrow> ToLower value \<notin> set [''no'', ''off'', ''disable'', ''disabled'']))"

subsection \<open>Library functions of the Kubernetes packages\<close>

text \<open>
  What the code calls in \<open>k8s.io/apimachinery\<close> and \<open>k8s.io/api\<close>: label selection, JSON encoding of
  a pod, the syntax checks on names and the parsing of quantities.
\<close>

record KubeLib =
  kl_Selects :: "(string, string) gomap \<Rightarrow> (string, string) gomap \<Rightarrow> bool"
  kl_Encodes :: "Pod \<Rightarrow> bool"
  kl_IsValidLabelValue :: "string \<Rightarrow> string list"
  kl_IsQualifiedName :: "string \<Rightarrow> string list"
  kl_IsEnvVarName :: "string \<Rightarrow> string list"
  kl_IsDNS1123Subdomain :: "string \<Rightarrow> string list"
  kl_IsConfigMapKey :: "string \<Rightarrow> string list"
  kl_ParseQuantity :: "string \<Rightarrow> quantity option"
  kl_AsInt64 :: "quantity \<Rightarrow> int option"

text \<open>\<open>labels.SelectorFromSet\<close> matches the label sets that hold every pair of the given set.\<close>

definition selects_spec :: "KubeLib \<Rightarrow> bool" where
  "selects_spec k \<longleftrightarrow> (\<forall>want have. kl_Selects k want have \<longleftrightarrow> (\<forall>(l, v) \<in> set want. map_of have l = Some v))"

end
