(* ===== verification/Overrides.thy ===== *)
theory Overrides
  imports Cluster_Types
begin

text \<open>
  \<open>internal/webhook/pod/overrides.go\<close>: amending the arguments and environment the runtime adapter
  put into the engine container. A set of strings, a \<open>map[string]bool\<close> of the code, is the list of
  its members.
\<close>

subsection \<open>Arguments\<close>

definition argFlagToken :: "string \<Rightarrow> string" where
  "argFlagToken arg =
     (if \<not> HasPrefix arg ''-'' then []
      else (case cutAt ''='' arg of Some (flag, _) \<Rightarrow> flag | None \<Rightarrow> arg))"

text \<open>A bare flag followed by a slot that is no flag: the two-slot form.\<close>

definition takesValue :: "string \<Rightarrow> string list \<Rightarrow> bool" where
  "takesValue arg rest \<longleftrightarrow>
     \<not> Contains arg ''='' \<and> (case rest of [] \<Rightarrow> False | next # _ \<Rightarrow> \<not> HasPrefix next ''-'')"

fun argsByFlagFrom :: "string list \<Rightarrow> (string, string) gomap \<Rightarrow> (string, string) gomap" where
  "argsByFlagFrom [] out = out"
| "argsByFlagFrom (a # rest) out =
     (let token = argFlagToken a
      in if token = [] then argsByFlagFrom rest out
         else if Contains a ''='' then argsByFlagFrom rest (AList.update token (drop (length token + 1) a) out)
         else if takesValue a rest then argsByFlagFrom (tl rest) (AList.update token (hd rest) out)
         else argsByFlagFrom rest (AList.update token [] out))"

definition argsByFlag :: "string list \<Rightarrow> (string, string) gomap" where
  "argsByFlag args = argsByFlagFrom args []"

text \<open>The keys the adapter added or changed, and the keys of the template it left alone.\<close>

definition adapterKeys :: "('k, 'v) gomap \<Rightarrow> ('k, 'v) gomap \<Rightarrow> 'k list" where
  "adapterKeys preMap postMap =
     map fst (filter (\<lambda>(k, postVal). map_of preMap k \<noteq> Some postVal) postMap)"

definition userKeys :: "('k, 'v) gomap \<Rightarrow> ('k, 'v) gomap \<Rightarrow> 'k list" where
  "userKeys preMap postMap = filter (\<lambda>k. k \<notin> set (adapterKeys preMap postMap)) (map fst preMap)"

definition classifyArgFlags :: "string list \<Rightarrow> string list \<Rightarrow> string list \<times> string list" where
  "classifyArgFlags pre post =
     (adapterKeys (argsByFlag pre) (argsByFlag post), userKeys (argsByFlag pre) (argsByFlag post))"

fun suppressLoop :: "string list \<Rightarrow> string list \<Rightarrow> string list" where
  "suppressLoop drp [] = []"
| "suppressLoop drp (a # rest) =
     (if argFlagToken a \<noteq> [] \<and> argFlagToken a \<in> set drp
      then (if takesValue a rest then suppressLoop drp (tl rest) else suppressLoop drp rest)
      else a # suppressLoop drp rest)"

definition suppressArgs :: "string list \<Rightarrow> string list \<Rightarrow> string list \<Rightarrow> string list" where
  "suppressArgs args suppress adapter =
     (if suppress = [] \<or> args = [] \<or> adapter = [] then args
      else
        (let drp = filter (\<lambda>s. s \<in> set adapter) suppress
         in if drp = [] then args else suppressLoop drp args))"

fun replaceArgFlag :: "string list \<Rightarrow> string \<Rightarrow> string list \<Rightarrow> string list" where
  "replaceArgFlag [] flag replacement = replacement"
| "replaceArgFlag (a # rest) flag replacement =
     (if argFlagToken a \<noteq> flag then a # replaceArgFlag rest flag replacement
      else replacement @ (if takesValue a rest then tl rest else rest))"

fun overrideArgs :: "string list \<Rightarrow> string list \<Rightarrow> string list \<Rightarrow> string list \<Rightarrow> string list" where
  "overrideArgs args [] adapter user = args"
| "overrideArgs args (entry # rest) adapter user =
     (let token = argFlagToken entry;
          twoArg = (token \<noteq> [] \<and> takesValue entry rest);
          replacement = (if twoArg then [entry, hd rest] else [entry]);
          args' =
            (if token = [] then args @ replacement
             else if token \<in> set adapter then replaceArgFlag args token replacement
             else if token \<notin> set user then args @ replacement
             else args)
      in overrideArgs args' (if twoArg then tl rest else rest) adapter user)"

subsection \<open>Environment\<close>

definition envByName :: "EnvVar list \<Rightarrow> (string, EnvVar) gomap" where
  "envByName env = fold (\<lambda>e out. AList.update (ev_Name e) e out) env []"

definition classifyEnvNames :: "EnvVar list \<Rightarrow> EnvVar list \<Rightarrow> string list \<times> string list" where
  "classifyEnvNames pre post =
     (adapterKeys (envByName pre) (envByName post), userKeys (envByName pre) (envByName post))"

definition suppressEnv :: "EnvVar list \<Rightarrow> string list \<Rightarrow> string list \<Rightarrow> EnvVar list" where
  "suppressEnv env suppress adapter =
     (if suppress = [] \<or> env = [] \<or> adapter = [] then env
      else
        (let drp = filter (\<lambda>s. s \<in> set adapter) suppress
         in if drp = [] then env else filter (\<lambda>e. ev_Name e \<notin> set drp) env))"

fun replaceEnv :: "EnvVar list \<Rightarrow> EnvVar \<Rightarrow> EnvVar list" where
  "replaceEnv [] ovr = [ovr]"
| "replaceEnv (e # es) ovr = (if ev_Name e = ev_Name ovr then ovr # es else e # replaceEnv es ovr)"

definition overrideEnvStep :: "string list \<Rightarrow> string list \<Rightarrow> EnvVar \<Rightarrow> EnvVar list \<Rightarrow> EnvVar list" where
  "overrideEnvStep adapter user ovr env =
     (if ev_Name ovr \<in> set adapter then replaceEnv env ovr
      else if ev_Name ovr \<notin> set user then env @ [ovr]
      else env)"

definition overrideEnv :: "EnvVar list \<Rightarrow> EnvVar list \<Rightarrow> string list \<Rightarrow> string list \<Rightarrow> EnvVar list" where
  "overrideEnv env overrides adapter user = fold (overrideEnvStep adapter user) overrides env"

subsection \<open>The merge\<close>

definition applyEngineInjectionOverrides ::
  "string list \<Rightarrow> string list \<Rightarrow> EnvVar list \<Rightarrow> EnvVar list \<Rightarrow> EngineInjectionOverrides option \<Rightarrow>
   string list \<times> EnvVar list" where
  "applyEngineInjectionOverrides preArgs postArgs preEnv postEnv overrides =
     (case overrides of
        None \<Rightarrow> (postArgs, postEnv)
      | Some ov \<Rightarrow>
          (let (adapterArgs, userArgs) = classifyArgFlags preArgs postArgs;
               (adapterEnv, userEnv) = classifyEnvNames preEnv postEnv;
               args1 = suppressArgs postArgs (eo_SuppressArgs ov) adapterArgs;
               args2 = overrideArgs args1 (eo_Args ov) adapterArgs userArgs;
               env1 = suppressEnv postEnv (eo_SuppressEnv ov) adapterEnv;
               env2 = overrideEnv env1 (eo_Env ov) adapterEnv userEnv
           in (args2, env2)))"

definition engineOverridesFor :: "CacheBackend \<Rightarrow> EngineInjectionOverrides option" where
  "engineOverridesFor cache =
     (case cbs_Integration (cb_Spec cache) of None \<Rightarrow> None | Some i \<Rightarrow> in_EngineOverrides i)"

fun containerIndexFrom :: "nat \<Rightarrow> Container list \<Rightarrow> string \<Rightarrow> nat option" where
  "containerIndexFrom i [] name = None"
| "containerIndexFrom i (c # cs) name = (if c_Name c = name then Some i else containerIndexFrom (Suc i) cs name)"

definition overrideTargetIndex :: "Container list \<Rightarrow> string \<Rightarrow> nat option" where
  "overrideTargetIndex containers engineContainerName =
     (if engineContainerName = [] then None
      else
        (case containerIndexFrom 0 containers engineContainerName of
           Some i \<Rightarrow> Some i
         | None \<Rightarrow> if length containers = 1 then Some 0 else None))"

end
