(* ===== verification/Pod_Injector.thy ===== *)
theory Pod_Injector
  imports Adapter_API Overrides
begin

text \<open>
  \<open>internal/webhook/pod/podinjector.go\<close>: the admission handler that wires an engine pod to its
  CacheBackend. The decoding of the request is an argument; a patch is the pod it produces, and
  \<open>persisted\<close> is the pod the API server stores. The runtime adapter is a value of the interface, so
  what is proved of the handler holds of every adapter.
\<close>

subsection \<open>Requests and answers\<close>

record admissionRequest =
  req_Operation :: string
  req_Namespace :: string
  req_Object :: "string + Pod"

datatype reason =
    NoOperation
  | DecodeFailed string
  | Skipped
  | LookupFailed string
  | NoMatchingBackend
  | RegistryMissing
  | NoAdapter
  | NotMPAdapter
  | MPCheckFailed adapterError
  | UnsupportedProvider
  | UnsupportedBinding
  | EndpointNotUsable
  | AdapterRejected adapterError
  | NoSubscriber
  | ReencodeFailed

datatype response = Allowed reason | Denied string "string list" | PatchTo Pod

definition persisted :: "admissionRequest \<Rightarrow> response \<Rightarrow> Pod option" where
  "persisted req resp =
     (case resp of
        Allowed _ \<Rightarrow> (case req_Object req of Inr pod \<Rightarrow> Some pod | Inl _ \<Rightarrow> None)
      | Denied _ _ \<Rightarrow> None
      | PatchTo pod \<Rightarrow> Some pod)"

record EngineInjector =
  ei_Reader :: "string \<Rightarrow> string + CacheBackend list"
  ei_Registry :: "Registry option"

subsection \<open>Choosing the backend\<close>

datatype selectError = ListError string | AmbiguousMatch string "string list"

definition selectCacheBackend :: "KubeLib \<Rightarrow> EngineInjector \<Rightarrow> Pod \<Rightarrow> selectError + CacheBackend option" where
  "selectCacheBackend k h pod =
     (case ei_Reader h (pod_Namespace pod) of
        Inl err \<Rightarrow> Inl (ListError err)
      | Inr items \<Rightarrow>
          (let matches = filter (\<lambda>cb. matchLabels cb \<noteq> [] \<and> kl_Selects k (matchLabels cb) (pod_Labels pod))
                 (sort_slice (\<lambda>a b. cb_Name a < cb_Name b) items)
           in case matches of
                [] \<Rightarrow> Inr None
              | [cb] \<Rightarrow> Inr (Some cb)
              | _ \<Rightarrow> Inl (AmbiguousMatch (pod_Namespace pod) (map cb_Name matches))))"

subsection \<open>Answers that inject nothing\<close>

definition failOpen :: "KubeLib \<Rightarrow> Pod \<Rightarrow> reason \<Rightarrow> response" where
  "failOpen k pod why =
     (let ann = pod_Annotations pod
      in if gm_str ann AnnotationInjectedBy = [] \<and> gm_str ann AnnotationInjectedByUID = []
            \<and> gm_str ann AnnotationInjectedGeneration = [] \<and> gm_str ann AnnotationInjectSkipped = []
         then Allowed why
         else
           (let cleared = pod\<lparr>pod_Annotations :=
                  AList.delete AnnotationInjectSkipped (AList.delete AnnotationInjectedGeneration
                    (AList.delete AnnotationInjectedByUID (AList.delete AnnotationInjectedBy ann)))\<rparr>
            in if kl_Encodes k cleared then PatchTo cleared else Allowed why))"

definition skipInjection :: "KubeLib \<Rightarrow> Pod \<Rightarrow> response" where
  "skipInjection k pod =
     (let ann = pod_Annotations pod;
          mutated = pod\<lparr>pod_Annotations :=
            AList.update AnnotationInjectSkipped InjectSkippedReasonSkipAnnotation
              (AList.delete AnnotationInjectedGeneration
                (AList.delete AnnotationInjectedByUID (AList.delete AnnotationInjectedBy ann)))\<rparr>
      in if gm_str ann AnnotationInjectSkipped = InjectSkippedReasonSkipAnnotation
            \<and> gm_str ann AnnotationInjectedBy = [] \<and> gm_str ann AnnotationInjectedByUID = []
            \<and> gm_str ann AnnotationInjectedGeneration = []
         then Allowed Skipped
         else if kl_Encodes k mutated then PatchTo mutated else Allowed Skipped)"

definition effectiveEndpoint :: "CacheBackend \<Rightarrow> string" where
  "effectiveEndpoint cache =
     (let managed =
            (case (cbs_LMCache (cb_Spec cache), cbst_RemoteStorage (cb_Status cache)) of
               (Some lm, Some rst) \<Rightarrow> if lm_Topology lm \<noteq> [] then TrimSpace (rst_Endpoint rst) else []
             | _ \<Rightarrow> [])
      in case EffectiveRemoteStorage (cb_Spec cache) of
           None \<Rightarrow> managed
         | Some storage \<Rightarrow>
             if st_Ownership storage = OwnershipExternal then
               (let ep = TrimSpace (st_Endpoint storage)
                in if ep = [] then []
                   else if ValidateExternalEndpoint (st_Provider storage) (st_Endpoint storage) \<noteq> None then []
                   else ep)
             else managed)"

subsection \<open>Containers by name\<close>

definition hasContainer :: "Container list \<Rightarrow> string \<Rightarrow> bool" where
  "hasContainer containers name \<longleftrightarrow> containerIndexFrom 0 containers name \<noteq> None"

definition removeContainerByName :: "Container list \<Rightarrow> string \<Rightarrow> Container list" where
  "removeContainerByName containers name =
     (case containerIndexFrom 0 containers name of
        None \<Rightarrow> containers
      | Some i \<Rightarrow> take i containers @ drop (Suc i) containers)"

definition setInitContainers :: "Pod \<Rightarrow> Container list \<Rightarrow> Pod" where
  "setInitContainers pod cs = pod\<lparr>pod_Spec := (pod_Spec pod)\<lparr>ps_InitContainers := cs\<rparr>\<rparr>"

definition setContainers :: "Pod \<Rightarrow> Container list \<Rightarrow> Pod" where
  "setContainers pod cs = pod\<lparr>pod_Spec := (pod_Spec pod)\<lparr>ps_Containers := cs\<rparr>\<rparr>"

subsection \<open>Wiring the pod\<close>

text \<open>The adapter's contribution and the overrides scoped to it; skipped for an events-only backend.\<close>

definition wireEngine ::
  "RuntimeAdapter \<Rightarrow> Binding option \<Rightarrow> CacheBackend \<Rightarrow> Pod \<Rightarrow> adapterError + Pod" where
  "wireEngine adapter binding cache pod =
     (if IsEventsOnly (cb_Spec cache) then Inr pod
      else
        (case kv_InjectEngineConfig adapter (pod_Spec pod) binding cache of
           Inl err \<Rightarrow> Inl err
         | Inr spec \<Rightarrow>
             (let mutated = pod\<lparr>pod_Spec := spec\<rparr>
              in case (engineOverridesFor cache, overrideTargetIndex (ps_Containers (pod_Spec pod)) (kv_EngineContainerName adapter)) of
                   (Some ov, Some idx) \<Rightarrow>
                     (let pre = ps_Containers (pod_Spec pod) ! idx;
                          post = ps_Containers spec ! idx;
                          merged = applyEngineInjectionOverrides (c_Args pre) (c_Args post) (c_Env pre) (c_Env post) (Some ov)
                      in Inr (setContainers mutated
                           ((ps_Containers spec)[idx := post\<lparr>c_Args := fst merged, c_Env := snd merged\<rparr>])))
                 | _ \<Rightarrow> Inr mutated)))"

definition applyKernelCheck :: "RuntimeAdapter \<Rightarrow> CacheBackend \<Rightarrow> Pod \<Rightarrow> Pod" where
  "applyKernelCheck adapter cache pod =
     (let inits = ps_InitContainers (pod_Spec pod);
          stripped = setInitContainers pod (removeContainerByName inits LMCacheKernelCheckContainerName)
      in case kv_KernelCheckInitContainer adapter of
           None \<Rightarrow> pod
         | Some render \<Rightarrow>
             if IsEventsOnly (cb_Spec cache) then stripped
             else
               (case render cache pod of
                  Inl _ \<Rightarrow> pod
                | Inr (Some c) \<Rightarrow>
                    (case containerIndexFrom 0 inits (c_Name c) of
                       Some i \<Rightarrow> setInitContainers pod (inits[i := c])
                     | None \<Rightarrow> setInitContainers pod (inits @ [c]))
                | Inr None \<Rightarrow> stripped))"

definition attachSidecar :: "RuntimeAdapter \<Rightarrow> CacheBackend \<Rightarrow> Pod \<Rightarrow> Pod \<times> bool" where
  "attachSidecar adapter cache pod =
     (case kv_ObservationSidecar adapter cache pod of
        Inl _ \<Rightarrow> (pod, False)
      | Inr None \<Rightarrow> (pod, False)
      | Inr (Some sidecar) \<Rightarrow>
          if hasContainer (ps_Containers (pod_Spec pod)) (c_Name sidecar) then (pod, False)
          else (setContainers pod (ps_Containers (pod_Spec pod) @ [sidecar]), True))"

definition stampInjected :: "CacheBackend \<Rightarrow> Pod \<Rightarrow> Pod" where
  "stampInjected cache pod =
     (let stamped = pod\<lparr>pod_Annotations :=
            AList.update AnnotationInjectedGeneration (FormatInt (cb_Generation cache))
              (AList.update AnnotationInjectedByUID (cb_UID cache)
                (AList.update AnnotationInjectedBy (cb_Namespace cache @ ''/'' @ cb_Name cache)
                  (AList.delete AnnotationInjectSkipped (pod_Annotations pod))))\<rparr>
      in case cbs_LMCache (cb_Spec cache) of
           Some lm \<Rightarrow>
             if lm_Topology lm = LMCacheTopologyPodLocal
             then stamped\<lparr>pod_Labels := AList.update LabelLMCacheMPMetrics LabelLMCacheMPMetricsEnabled (pod_Labels stamped)\<rparr>
             else stamped
         | None \<Rightarrow> stamped)"

definition injectWith ::
  "KubeLib \<Rightarrow> RuntimeAdapter \<Rightarrow> Binding option \<Rightarrow> CacheBackend \<Rightarrow> Pod \<Rightarrow> response" where
  "injectWith k adapter binding cache pod =
     (case wireEngine adapter binding cache pod of
        Inl err \<Rightarrow> failOpen k pod (AdapterRejected err)
      | Inr wired \<Rightarrow>
          (let (mutated, sidecarAppended) = attachSidecar adapter cache (applyKernelCheck adapter cache wired)
           in if \<not> (\<not> IsEventsOnly (cb_Spec cache) \<or> sidecarAppended) then failOpen k pod NoSubscriber
              else
                (let final = stampInjected cache mutated
                 in if kl_Encodes k final then PatchTo final else Allowed ReencodeFailed)))"

text \<open>The checks between the choice of the backend and the wiring.\<close>

definition mpEngineError :: "RuntimeAdapter \<Rightarrow> CacheBackend \<Rightarrow> Pod \<Rightarrow> reason option" where
  "mpEngineError adapter cache pod =
     (case cbs_LMCache (cb_Spec cache) of
        None \<Rightarrow> None
      | Some lm \<Rightarrow>
          if lm_Topology lm = [] then None
          else
            (case kv_ValidateMPEnginePod adapter of
               None \<Rightarrow> Some NotMPAdapter
             | Some check \<Rightarrow> map_option MPCheckFailed (check pod cache)))"

definition bindAndInject :: "KubeLib \<Rightarrow> RuntimeAdapter \<Rightarrow> CacheBackend \<Rightarrow> Pod \<Rightarrow> response" where
  "bindAndInject k adapter cache pod =
     (let endpoint = effectiveEndpoint cache;
          storage = EffectiveRemoteStorage (cb_Spec cache)
      in case ProtocolFor storage of
           None \<Rightarrow> failOpen k pod UnsupportedProvider
         | Some protocol \<Rightarrow>
             (let binding = BindingFor storage protocol endpoint
              in if \<not> kv_SupportsBinding adapter binding then failOpen k pod UnsupportedBinding
                 else if (case binding of None \<Rightarrow> False | Some b \<Rightarrow> bi_Endpoint b = [])
                         \<and> \<not> IsEventsOnly (cb_Spec cache)
                 then failOpen k pod EndpointNotUsable
                 else injectWith k adapter binding cache pod))"

definition injectFor :: "KubeLib \<Rightarrow> EngineInjector \<Rightarrow> CacheBackend \<Rightarrow> Pod \<Rightarrow> response" where
  "injectFor k h cache pod =
     (case ei_Registry h of
        None \<Rightarrow> failOpen k pod RegistryMissing
      | Some registry \<Rightarrow>
          (case SelectAdapter registry (ResolveRuntimeID cache) cache of
             None \<Rightarrow> failOpen k pod NoAdapter
           | Some adapter \<Rightarrow>
               (case mpEngineError adapter cache pod of
                  Some why \<Rightarrow> failOpen k pod why
                | None \<Rightarrow> bindAndInject k adapter cache pod)))"

definition Handle :: "KubeLib \<Rightarrow> EngineInjector \<Rightarrow> admissionRequest \<Rightarrow> response" where
  "Handle k h req =
     (if req_Operation req = [] then Allowed NoOperation
      else
        (case req_Object req of
           Inl err \<Rightarrow> Allowed (DecodeFailed err)
         | Inr raw \<Rightarrow>
             (let pod = (if pod_Namespace raw = [] then raw\<lparr>pod_Namespace := req_Namespace req\<rparr> else raw)
              in if SkipAnnotationOptsOut (gm_str (pod_Annotations pod) AnnotationSkip) then skipInjection k pod
                 else
                   (case selectCacheBackend k h pod of
                      Inl (AmbiguousMatch ns names) \<Rightarrow> Denied ns names
                    | Inl (ListError err) \<Rightarrow> failOpen k pod (LookupFailed err)
                    | Inr None \<Rightarrow> failOpen k pod NoMatchingBackend
                    | Inr (Some cache) \<Rightarrow> injectFor k h cache pod))))"

end
