(* ===== verification/Overrides_Facts.thy ===== *)
theory Overrides_Facts
  imports Overrides
begin

text \<open>
  What the override merge does to an argument vector read as entries, and to the environment read
  by name. The value slot of a flag is recognised by position only, so the reading of the merged
  vector is determined entry by entry on vectors whose positional arguments come first
  (\<open>plainArgs\<close>).
\<close>

subsection \<open>Upserting by key\<close>

text \<open>
  The arguments and the environment are merged by the same rule: replace the first item of an
  adapter-owned key, leave the keys of the template alone, append the rest.
\<close>

definition mergeKeyed ::
  "('a \<Rightarrow> 'k) \<Rightarrow> ('a list \<Rightarrow> 'a \<Rightarrow> 'a list) \<Rightarrow> 'k list \<Rightarrow> 'k list \<Rightarrow> 'a \<Rightarrow> 'a list \<Rightarrow> 'a list" where
  "mergeKeyed key replace adapter user r xs =
     (if key r \<in> set adapter then replace xs r else if key r \<notin> set user then xs @ [r] else xs)"

definition atKey :: "('a \<Rightarrow> 'k) \<Rightarrow> 'k \<Rightarrow> 'a list \<Rightarrow> 'a list" where
  "atKey key k xs = filter (\<lambda>x. key x = k) xs"

text \<open>What the items of one key become, given those the merge started from and the overrides.\<close>

definition mergedAt :: "('a \<Rightarrow> 'k) \<Rightarrow> 'k list \<Rightarrow> 'k list \<Rightarrow> 'a list \<Rightarrow> 'k \<Rightarrow> 'a list \<Rightarrow> 'a list" where
  "mergedAt key adapter user rs k base =
     (if k \<in> set adapter then (if atKey key k rs = [] then base else last (atKey key k rs) # tl base)
      else if k \<in> set user then base
      else base @ atKey key k rs)"

locale keyed_slots =
  fixes key :: "'a \<Rightarrow> 'k" and replace :: "'a list \<Rightarrow> 'a \<Rightarrow> 'a list"
  assumes replace_Nil: "replace [] r = [r]"
    and replace_Cons: "replace (x # xs) r = (if key x = key r then r # xs else x # replace xs r)"
begin

lemma replace_at: "atKey key k (replace xs r) = (if key r = k then r # tl (atKey key k xs) else atKey key k xs)"
  by (induction xs) (auto simp: replace_Nil replace_Cons atKey_def)

lemma replace_filter: "\<not> Q (key r) \<Longrightarrow> filter (\<lambda>x. Q (key x)) (replace xs r) = filter (\<lambda>x. Q (key x)) xs"
  by (induction xs) (auto simp: replace_Nil replace_Cons)

lemma merge_at:
  "atKey key k (mergeKeyed key replace adapter user r xs) =
     (if key r = k
      then (if k \<in> set adapter then r # tl (atKey key k xs)
            else if k \<in> set user then atKey key k xs else atKey key k xs @ [r])
      else atKey key k xs)"
proof -
  have "atKey key k (xs @ [r]) = (if key r = k then atKey key k xs @ [r] else atKey key k xs)"
    by (simp add: atKey_def)
  then show ?thesis by (auto simp: mergeKeyed_def replace_at)
qed

lemma fold_merge_at:
  "atKey key k (fold (mergeKeyed key replace adapter user) rs xs) =
     mergedAt key adapter user rs k (atKey key k xs)"
proof (induction rs arbitrary: xs)
  case Nil
  then show ?case by (simp add: mergedAt_def atKey_def)
next
  case (Cons r rs)
  have rs: "atKey key k (r # rs) = (if key r = k then r # atKey key k rs else atKey key k rs)"
    by (simp add: atKey_def)
  show ?case
    unfolding fold_simps Cons.IH merge_at mergedAt_def rs by auto
qed

lemma fold_merge_filter:
  "\<forall>r\<in>set rs. Q (key r) \<longrightarrow> key r \<notin> set adapter \<and> key r \<in> set user \<Longrightarrow>
   filter (\<lambda>x. Q (key x)) (fold (mergeKeyed key replace adapter user) rs xs) = filter (\<lambda>x. Q (key x)) xs"
proof (induction rs arbitrary: xs)
  case (Cons r rs)
  have "filter (\<lambda>x. Q (key x)) (mergeKeyed key replace adapter user r xs) = filter (\<lambda>x. Q (key x)) xs"
    using Cons.prems by (cases "Q (key r)") (auto simp: mergeKeyed_def replace_filter)
  then show ?case using Cons by simp
qed simp

end

subsection \<open>Entries\<close>

fun argEntries :: "string list \<Rightarrow> string list list" where
  "argEntries [] = []"
| "argEntries (a # rest) =
     (if argFlagToken a \<noteq> [] \<and> takesValue a rest then [a, hd rest] # argEntries (tl rest)
      else [a] # argEntries rest)"

definition entryToken :: "string list \<Rightarrow> string" where
  "entryToken e = argFlagToken (hd e)"

definition plainArgs :: "string list \<Rightarrow> bool" where
  "plainArgs args \<longleftrightarrow>
     list_all (\<lambda>e. entryToken e \<noteq> []) (dropWhile (\<lambda>e. entryToken e = []) (argEntries args))"

definition flagEntry :: "string list \<Rightarrow> bool" where
  "flagEntry e \<longleftrightarrow>
     (case e of [a] \<Rightarrow> argFlagToken a \<noteq> []
      | [a, v] \<Rightarrow> argFlagToken a \<noteq> [] \<and> \<not> Contains a ''='' \<and> \<not> HasPrefix v ''-''
      | _ \<Rightarrow> False)"

definition posEntry :: "string list \<Rightarrow> bool" where
  "posEntry e \<longleftrightarrow> (case e of [a] \<Rightarrow> argFlagToken a = [] | _ \<Rightarrow> False)"

lemma argFlagToken_Nil: "argFlagToken a = [] \<longleftrightarrow> \<not> HasPrefix a ''-''"
proof -
  have "cutAt ''='' (CHR ''-'' # b) = Some (x, y) \<Longrightarrow> x \<noteq> []" for b x y
    by (cases "cutAt ''='' b") auto
  then show ?thesis
    by (cases a) (auto simp: argFlagToken_def HasPrefix_def split: option.splits)
qed

lemma takesValue_Nil [simp]: "\<not> takesValue a []"
  by (simp add: takesValue_def)

lemma takesValue_Cons: "takesValue a (b # rest) \<longleftrightarrow> \<not> Contains a ''='' \<and> argFlagToken b = []"
  by (simp add: takesValue_def argFlagToken_Nil)

lemma concat_argEntries [simp]: "concat (argEntries args) = args"
proof (induction args rule: argEntries.induct)
  case (2 a rest)
  then show ?case by (cases rest) (auto simp: takesValue_Cons)
qed simp

lemma argEntries_shape: "e \<in> set (argEntries args) \<Longrightarrow> flagEntry e \<or> posEntry e"
proof (induction args rule: argEntries.induct)
  case (2 a rest)
  then show ?case
    by (cases rest) (auto simp: flagEntry_def posEntry_def takesValue_Cons argFlagToken_Nil split: if_splits)
qed simp

lemma flagEntry_token [simp]: "flagEntry e \<Longrightarrow> entryToken e \<noteq> []"
  by (auto simp: flagEntry_def entryToken_def split: list.splits)

lemma posEntry_token [simp]: "posEntry e \<Longrightarrow> entryToken e = []"
  by (auto simp: posEntry_def entryToken_def split: list.splits)

lemma argEntries_flag: "e \<in> set (argEntries args) \<Longrightarrow> flagEntry e \<longleftrightarrow> entryToken e \<noteq> []"
  using argEntries_shape flagEntry_token posEntry_token by blast

lemma argEntries_pos: "e \<in> set (argEntries args) \<Longrightarrow> posEntry e \<longleftrightarrow> entryToken e = []"
  using argEntries_shape flagEntry_token posEntry_token by blast

subsection \<open>Reading a vector back\<close>

lemma hd_concat_flag: "flagEntry e \<Longrightarrow> \<exists>a r. e = a # r \<and> argFlagToken a \<noteq> []"
  by (auto simp: flagEntry_def split: list.splits)

lemma no_value_before_flags:
  assumes "list_all flagEntry fs"
  shows "\<not> takesValue a (concat fs)"
proof (cases fs)
  case (Cons e es)
  then obtain b r where "e = b # r" "argFlagToken b \<noteq> []"
    using assms hd_concat_flag [of e] by auto
  then show ?thesis using Cons by (simp add: takesValue_Cons)
qed simp

lemma argEntries_flags: "list_all flagEntry fs \<Longrightarrow> argEntries (concat fs) = fs"
proof (induction fs)
  case (Cons e fs)
  have nv: "\<not> takesValue a (concat fs)" for a
    using Cons.prems no_value_before_flags by simp
  have fe: "flagEntry e" using Cons.prems by simp
  then consider a where "e = [a]" "argFlagToken a \<noteq> []"
    | a v where "e = [a, v]" "argFlagToken a \<noteq> []" "\<not> Contains a ''=''" "\<not> HasPrefix v ''-''"
    by (auto simp: flagEntry_def split: list.splits)
  then show ?case
  proof cases
    case 1
    then show ?thesis using Cons nv by simp
  next
    case 2
    then show ?thesis using Cons by (simp add: takesValue_Cons argFlagToken_Nil)
  qed
qed simp

lemma argEntries_plain:
  "list_all posEntry ps \<Longrightarrow> list_all flagEntry fs \<Longrightarrow> argEntries (concat ps @ concat fs) = ps @ fs"
proof (induction ps)
  case (Cons p ps)
  then obtain a where "p = [a]" "argFlagToken a = []"
    by (auto simp: posEntry_def split: list.splits)
  then show ?case using Cons by simp
qed (simp add: argEntries_flags)

lemma list_all_dropWhile_not: "list_all (\<lambda>x. \<not> P x) xs \<Longrightarrow> dropWhile P xs = xs"
  by (cases xs) auto

lemma plainArgs_iff:
  "plainArgs args \<longleftrightarrow>
     (\<exists>ps fs. list_all posEntry ps \<and> list_all flagEntry fs \<and> args = concat ps @ concat fs)"
  (is "_ \<longleftrightarrow> ?R")
proof
  assume "plainArgs args"
  define ps fs where "ps = takeWhile (\<lambda>e. entryToken e = []) (argEntries args)"
    and "fs = dropWhile (\<lambda>e. entryToken e = []) (argEntries args)"
  have "set ps \<subseteq> set (argEntries args)" "set fs \<subseteq> set (argEntries args)"
    by (auto simp: ps_def fs_def dest: set_takeWhileD set_dropWhileD)
  moreover have "\<forall>e\<in>set ps. entryToken e = []"
    unfolding ps_def by (blast dest: set_takeWhileD)
  moreover have "\<forall>e\<in>set fs. entryToken e \<noteq> []"
    using \<open>plainArgs args\<close> unfolding fs_def plainArgs_def list_all_iff .
  ultimately have "list_all posEntry ps" "list_all flagEntry fs"
    unfolding list_all_iff using argEntries_pos argEntries_flag by blast+
  moreover have "args = concat ps @ concat fs"
    by (metis concat_append concat_argEntries fs_def ps_def takeWhile_dropWhile_id)
  ultimately show ?R by blast
next
  assume ?R
  then obtain ps fs where r: "list_all posEntry ps" "list_all flagEntry fs" "args = concat ps @ concat fs"
    by blast
  then have "argEntries args = ps @ fs" by (simp add: argEntries_plain)
  moreover have "dropWhile (\<lambda>e. entryToken e = []) (ps @ fs) = fs"
    using r by (induction ps) (auto simp: list_all_dropWhile_not list_all_iff)
  ultimately show "plainArgs args"
    using r by (auto simp: plainArgs_def list_all_iff)
qed


subsection \<open>The operations on entries\<close>

fun replaceEntry :: "string list list \<Rightarrow> string \<Rightarrow> string list \<Rightarrow> string list list" where
  "replaceEntry [] flag r = [r]"
| "replaceEntry (e # es) flag r = (if entryToken e \<noteq> flag then e # replaceEntry es flag r else r # es)"

definition overrideSlots :: "string list \<Rightarrow> string list \<Rightarrow> string list \<Rightarrow> string list \<Rightarrow> string list" where
  "overrideSlots adapter user r args =
     (if entryToken r = [] then args @ r
      else if entryToken r \<in> set adapter then replaceArgFlag args (entryToken r) r
      else if entryToken r \<notin> set user then args @ r else args)"

definition overrideEntry :: "string list \<Rightarrow> string list \<Rightarrow> string list \<Rightarrow> string list list \<Rightarrow> string list list" where
  "overrideEntry adapter user r es =
     (if entryToken r \<in> set adapter then replaceEntry es (entryToken r) r
      else if entryToken r \<notin> set user then es @ [r] else es)"

lemma suppressLoop_entries:
  "suppressLoop drp args = concat (filter (\<lambda>e. entryToken e = [] \<or> entryToken e \<notin> set drp) (argEntries args))"
proof (induction args rule: argEntries.induct)
  case (2 a rest)
  then show ?case
    by (cases rest) (auto simp: entryToken_def takesValue_Cons)
qed simp

lemma suppressArgs_entries:
  "suppressArgs args suppress adapter =
     concat (filter (\<lambda>e. entryToken e = [] \<or> entryToken e \<notin> set suppress \<inter> set adapter) (argEntries args))"
proof -
  have "set suppress \<inter> set adapter = set (filter (\<lambda>s. s \<in> set adapter) suppress)" by auto
  moreover have "filter (\<lambda>s. s \<in> set adapter) suppress = [] \<Longrightarrow> ?thesis"
    by (simp add: suppressArgs_def calculation)
  ultimately show ?thesis
    by (auto simp: suppressArgs_def suppressLoop_entries Let_def)
qed

lemma replaceArgFlag_entries:
  "flag \<noteq> [] \<Longrightarrow> replaceArgFlag args flag r = concat (replaceEntry (argEntries args) flag r)"
proof (induction args rule: argEntries.induct)
  case (2 a rest)
  show ?case
  proof (cases "argFlagToken a \<noteq> [] \<and> takesValue a rest")
    case True
    then obtain v rest' where "rest = v # rest'" "argFlagToken v = []"
      by (cases rest) (auto simp: takesValue_Cons)
    then show ?thesis using 2 True by (auto simp: entryToken_def)
  next
    case False
    then show ?thesis using 2 by (auto simp: entryToken_def)
  qed
qed simp

lemma overrideArgs_entries:
  "overrideArgs args ovs adapter user = fold (overrideSlots adapter user) (argEntries ovs) args"
proof (induction args ovs adapter user rule: overrideArgs.induct)
  case (2 args entry rest adapter user)
  then show ?case
    by (simp add: Let_def overrideSlots_def entryToken_def)
qed simp

lemma replaceEntry_split:
  "\<forall>p\<in>set ps. entryToken p \<noteq> flag \<Longrightarrow> replaceEntry (ps @ fs) flag r = ps @ replaceEntry fs flag r"
  by (induction ps) auto

lemma replaceEntry_flags: "list_all flagEntry fs \<Longrightarrow> flagEntry r \<Longrightarrow> list_all flagEntry (replaceEntry fs flag r)"
  by (induction fs) auto

lemma override_plain:
  assumes "plainArgs args" "flagEntry r"
  shows "argEntries (overrideSlots adapter user r args) = overrideEntry adapter user r (argEntries args)
    \<and> plainArgs (overrideSlots adapter user r args)"
proof -
  obtain ps fs where pf: "list_all posEntry ps" "list_all flagEntry fs" "args = concat ps @ concat fs"
    using assms plainArgs_iff by blast
  then have ae: "argEntries args = ps @ fs" by (simp add: argEntries_plain)
  have r: "entryToken r \<noteq> []" using assms by simp
  have "\<forall>p\<in>set ps. entryToken p \<noteq> entryToken r" using pf(1) r by (auto simp: list_all_iff)
  then have rep: "replaceEntry (ps @ fs) (entryToken r) r = ps @ replaceEntry fs (entryToken r) r"
    by (rule replaceEntry_split)
  define gs where "gs =
    (if entryToken r \<in> set adapter then replaceEntry fs (entryToken r) r
     else if entryToken r \<notin> set user then fs @ [r] else fs)"
  have g: "list_all flagEntry gs"
    using pf assms by (simp add: gs_def replaceEntry_flags)
  have sl: "overrideSlots adapter user r args = concat ps @ concat gs"
    using r ae [unfolded pf(3)] by (simp add: pf(3) overrideSlots_def gs_def replaceArgFlag_entries rep)
  have en: "overrideEntry adapter user r (argEntries args) = ps @ gs"
    by (simp add: overrideEntry_def gs_def ae rep)
  show ?thesis
    unfolding sl en plainArgs_iff using pf(1) g argEntries_plain by blast
qed

lemma override_plain_fold:
  assumes "plainArgs args" "list_all flagEntry rs"
  shows "argEntries (fold (overrideSlots adapter user) rs args) = fold (overrideEntry adapter user) rs (argEntries args)
    \<and> plainArgs (fold (overrideSlots adapter user) rs args)"
  using assms
proof (induction rs arbitrary: args)
  case (Cons r rs)
  then show ?case using override_plain [of args r adapter user] by simp
qed simp

lemma suppress_plain:
  assumes "plainArgs args"
  shows "argEntries (suppressArgs args suppress adapter)
      = filter (\<lambda>e. entryToken e = [] \<or> entryToken e \<notin> set suppress \<inter> set adapter) (argEntries args)
    \<and> plainArgs (suppressArgs args suppress adapter)"
proof -
  let ?k = "\<lambda>e. entryToken e = [] \<or> entryToken e \<notin> set suppress \<inter> set adapter"
  obtain ps fs where pf: "list_all posEntry ps" "list_all flagEntry fs" "args = concat ps @ concat fs"
    using assms plainArgs_iff by blast
  then have ae: "argEntries args = ps @ fs" by (simp add: argEntries_plain)
  have "filter ?k ps = ps" using pf(1) by (induction ps) auto
  then have sl: "suppressArgs args suppress adapter = concat ps @ concat (filter ?k fs)"
    and fl: "filter ?k (argEntries args) = ps @ filter ?k fs"
    by (simp_all add: suppressArgs_entries ae)
  have "list_all flagEntry (filter ?k fs)" using pf(2) by (auto simp: list_all_iff)
  then show ?thesis
    unfolding sl fl plainArgs_iff using pf(1) argEntries_plain by blast
qed


subsection \<open>The two merges are keyed upserts\<close>

interpretation arg_slots: keyed_slots entryToken "\<lambda>es r. replaceEntry es (entryToken r) r"
  by unfold_locales auto

interpretation env_slots: keyed_slots ev_Name replaceEnv
  by unfold_locales auto

lemma overrideEntry_merge: "overrideEntry = mergeKeyed entryToken (\<lambda>es r. replaceEntry es (entryToken r) r)"
  by (intro ext) (simp add: overrideEntry_def mergeKeyed_def)

lemma overrideEnv_merge: "overrideEnv env ovs adapter user = fold (mergeKeyed ev_Name replaceEnv adapter user) ovs env"
proof -
  have "overrideEnvStep = mergeKeyed ev_Name replaceEnv"
    by (intro ext) (simp add: overrideEnvStep_def mergeKeyed_def)
  then show ?thesis by (simp add: overrideEnv_def)
qed

lemma suppressEnv_filter: "suppressEnv env suppress adapter = filter (\<lambda>e. ev_Name e \<notin> set suppress \<inter> set adapter) env"
proof -
  have "filter (\<lambda>s. s \<in> set adapter) suppress = [] \<Longrightarrow> ?thesis"
    by (auto simp: suppressEnv_def filter_empty_conv intro!: filter_True [symmetric])
  moreover have "filter (\<lambda>s. s \<in> set adapter) suppress \<noteq> [] \<Longrightarrow> ?thesis"
    by (auto simp: suppressEnv_def Let_def intro!: filter_cong)
  ultimately show ?thesis by blast
qed

lemma adapter_user_disjoint: "k \<in> set (userKeys pre post) \<Longrightarrow> k \<notin> set (adapterKeys pre post)"
  by (simp add: userKeys_def)


subsection \<open>Slots\<close>

definition flagSlots :: "(string \<Rightarrow> bool) \<Rightarrow> string list \<Rightarrow> string list" where
  "flagSlots Q args = filter (\<lambda>a. argFlagToken a \<noteq> [] \<and> Q (argFlagToken a)) args"

definition entrySlots :: "(string \<Rightarrow> bool) \<Rightarrow> string list list \<Rightarrow> string list" where
  "entrySlots Q es = map hd (filter (\<lambda>e. entryToken e \<noteq> [] \<and> Q (entryToken e)) es)"

lemma flagSlots_concat:
  "\<forall>e\<in>set es. flagEntry e \<or> posEntry e \<Longrightarrow> flagSlots Q (concat es) = entrySlots Q es"
proof (induction es)
  case (Cons e es)
  have "flagSlots Q e = entrySlots Q [e]"
    using Cons.prems
    by (auto simp: flagSlots_def entrySlots_def flagEntry_def posEntry_def entryToken_def argFlagToken_Nil split: list.splits)
  then show ?case
    using Cons by (simp add: flagSlots_def entrySlots_def)
qed (simp add: flagSlots_def entrySlots_def)

lemma flagSlots_entries: "flagSlots Q args = entrySlots Q (argEntries args)"
  using flagSlots_concat [of "argEntries args" Q] argEntries_shape by auto

lemma suppress_slots:
  assumes "\<forall>s\<in>set suppress \<inter> set adapter. \<not> Q s"
  shows "flagSlots Q (suppressArgs args suppress adapter) = flagSlots Q args"
proof -
  let ?k = "\<lambda>e. entryToken e = [] \<or> entryToken e \<notin> set suppress \<inter> set adapter"
  have "flagSlots Q (concat (filter ?k (argEntries args))) = entrySlots Q (filter ?k (argEntries args))"
    by (rule flagSlots_concat) (auto dest: argEntries_shape)
  also have "\<dots> = entrySlots Q (argEntries args)"
    unfolding entrySlots_def filter_filter using assms by (auto intro!: arg_cong [where f = "map hd"] filter_cong)
  finally show ?thesis by (simp add: suppressArgs_entries flagSlots_entries)
qed

lemma replace_shape:
  "\<forall>e\<in>set es. flagEntry e \<or> posEntry e \<Longrightarrow> flagEntry r \<or> posEntry r \<Longrightarrow>
   e \<in> set (replaceEntry es f r) \<Longrightarrow> flagEntry e \<or> posEntry e"
  by (induction es) (auto split: if_splits)

lemma override_slots:
  assumes r: "r \<in> set (argEntries ovs)"
    and q: "entryToken r \<noteq> [] \<Longrightarrow> Q (entryToken r) \<Longrightarrow> entryToken r \<notin> set adapter \<and> entryToken r \<in> set user"
  shows "flagSlots Q (overrideSlots adapter user r args) = flagSlots Q args"
proof -
  have sh: "flagEntry r \<or> posEntry r" using r argEntries_shape by blast
  have one: "flagSlots Q r = entrySlots Q [r]"
    using flagSlots_concat [of "[r]" Q] sh by simp
  have app: "flagSlots Q (args @ r) = flagSlots Q args" if "\<not> (entryToken r \<noteq> [] \<and> Q (entryToken r))"
    using one that by (auto simp: flagSlots_def entrySlots_def)
  have rep: "flagSlots Q (replaceArgFlag args (entryToken r) r) = flagSlots Q args"
    if n: "entryToken r \<noteq> []" "\<not> Q (entryToken r)"
  proof -
    have "flagSlots Q (concat (replaceEntry (argEntries args) (entryToken r) r))
        = entrySlots Q (replaceEntry (argEntries args) (entryToken r) r)"
      using sh argEntries_shape replace_shape by (intro flagSlots_concat) blast
    also have "\<dots> = entrySlots Q (argEntries args)"
      unfolding entrySlots_def
      using arg_slots.replace_filter [where Q = "\<lambda>t. t \<noteq> [] \<and> Q t" and r = r] n by simp
    finally show ?thesis using n by (simp add: replaceArgFlag_entries flagSlots_entries)
  qed
  show ?thesis
    using q app rep by (cases "Q (entryToken r)") (auto simp: overrideSlots_def)
qed

lemma override_slots_fold:
  assumes "\<forall>r\<in>set rs. r \<in> set (argEntries ovs)"
    and "\<forall>r\<in>set rs. entryToken r \<noteq> [] \<longrightarrow> Q (entryToken r) \<longrightarrow> entryToken r \<notin> set adapter \<and> entryToken r \<in> set user"
  shows "flagSlots Q (fold (overrideSlots adapter user) rs args) = flagSlots Q args"
  using assms
proof (induction rs arbitrary: args)
  case (Cons r rs)
  then show ?case using override_slots [of r ovs Q adapter user args] by simp
qed simp

subsection \<open>The whole merge\<close>

lemma merge_args:
  "fst (applyEngineInjectionOverrides preArgs postArgs preEnv postEnv (Some ov)) =
     fold (overrideSlots (fst (classifyArgFlags preArgs postArgs)) (snd (classifyArgFlags preArgs postArgs)))
       (argEntries (eo_Args ov))
       (suppressArgs postArgs (eo_SuppressArgs ov) (fst (classifyArgFlags preArgs postArgs)))"
  by (simp add: applyEngineInjectionOverrides_def classifyArgFlags_def classifyEnvNames_def overrideArgs_entries)

lemma merge_env:
  "snd (applyEngineInjectionOverrides preArgs postArgs preEnv postEnv (Some ov)) =
     fold (mergeKeyed ev_Name replaceEnv (fst (classifyEnvNames preEnv postEnv)) (snd (classifyEnvNames preEnv postEnv)))
       (eo_Env ov) (suppressEnv postEnv (eo_SuppressEnv ov) (fst (classifyEnvNames preEnv postEnv)))"
  by (simp add: applyEngineInjectionOverrides_def classifyArgFlags_def classifyEnvNames_def overrideEnv_merge)

lemma merged_entries:
  assumes "plainArgs postArgs" "list_all flagEntry (argEntries (eo_Args ov))"
  shows "argEntries (fst (applyEngineInjectionOverrides preArgs postArgs preEnv postEnv (Some ov))) =
     fold (mergeKeyed entryToken (\<lambda>es r. replaceEntry es (entryToken r) r)
             (fst (classifyArgFlags preArgs postArgs)) (snd (classifyArgFlags preArgs postArgs)))
       (argEntries (eo_Args ov))
       (filter (\<lambda>e. entryToken e = [] \<or> entryToken e \<notin> set (eo_SuppressArgs ov) \<inter> set (fst (classifyArgFlags preArgs postArgs)))
          (argEntries postArgs))"
proof -
  let ?a = "fst (classifyArgFlags preArgs postArgs)" and ?u = "snd (classifyArgFlags preArgs postArgs)"
  have s: "argEntries (suppressArgs postArgs (eo_SuppressArgs ov) ?a)
        = filter (\<lambda>e. entryToken e = [] \<or> entryToken e \<notin> set (eo_SuppressArgs ov) \<inter> set ?a) (argEntries postArgs)"
      "plainArgs (suppressArgs postArgs (eo_SuppressArgs ov) ?a)"
    using suppress_plain [OF assms(1)] by blast+
  show ?thesis
    unfolding merge_args
    using override_plain_fold [OF s(2) assms(2), of ?a ?u] s(1) by (simp add: overrideEntry_merge)
qed

lemma atKey_filter_key:
  "atKey key k (filter (\<lambda>x. R (key x)) xs) = (if R k then atKey key k xs else [])"
  by (induction xs) (auto simp: atKey_def)

lemma merged_args_at:
  assumes "plainArgs postArgs" "list_all flagEntry (argEntries (eo_Args ov))" "t \<noteq> []"
  shows "atKey entryToken t (argEntries (fst (applyEngineInjectionOverrides preArgs postArgs preEnv postEnv (Some ov)))) =
     mergedAt entryToken (fst (classifyArgFlags preArgs postArgs)) (snd (classifyArgFlags preArgs postArgs))
       (argEntries (eo_Args ov)) t
       (if t \<in> set (eo_SuppressArgs ov) \<inter> set (fst (classifyArgFlags preArgs postArgs)) then []
        else atKey entryToken t (argEntries postArgs))"
  unfolding merged_entries [OF assms(1,2)] arg_slots.fold_merge_at
  using atKey_filter_key
    [where key = entryToken and k = t and xs = "argEntries postArgs"
       and R = "\<lambda>u. u = [] \<or> u \<notin> set (eo_SuppressArgs ov) \<inter> set (fst (classifyArgFlags preArgs postArgs))"]
    assms(3) by simp

lemma merged_env_at:
  "atKey ev_Name n (snd (applyEngineInjectionOverrides preArgs postArgs preEnv postEnv (Some ov))) =
     mergedAt ev_Name (fst (classifyEnvNames preEnv postEnv)) (snd (classifyEnvNames preEnv postEnv)) (eo_Env ov) n
       (if n \<in> set (eo_SuppressEnv ov) \<inter> set (fst (classifyEnvNames preEnv postEnv)) then []
        else atKey ev_Name n postEnv)"
  unfolding merge_env env_slots.fold_merge_at suppressEnv_filter
  using atKey_filter_key
    [where key = ev_Name and k = n and xs = postEnv
       and R = "\<lambda>u. u \<notin> set (eo_SuppressEnv ov) \<inter> set (fst (classifyEnvNames preEnv postEnv))"]
  by simp

text \<open>A set of flags, or of names, that the overrides cannot reach keeps its items and their order.\<close>

lemma protected_slots:
  assumes "\<forall>s\<in>set (eo_SuppressArgs ov) \<inter> set (fst (classifyArgFlags preArgs postArgs)). \<not> Q s"
    and "\<forall>r\<in>set (argEntries (eo_Args ov)). entryToken r \<noteq> [] \<longrightarrow> Q (entryToken r) \<longrightarrow>
           entryToken r \<notin> set (fst (classifyArgFlags preArgs postArgs)) \<and> entryToken r \<in> set (snd (classifyArgFlags preArgs postArgs))"
  shows "flagSlots Q (fst (applyEngineInjectionOverrides preArgs postArgs preEnv postEnv (Some ov))) = flagSlots Q postArgs"
  unfolding merge_args
  using override_slots_fold [where ovs = "eo_Args ov", OF _ assms(2)] suppress_slots [OF assms(1)] by simp

lemma protected_env:
  assumes "\<forall>s\<in>set (eo_SuppressEnv ov) \<inter> set (fst (classifyEnvNames preEnv postEnv)). \<not> Q s"
    and "\<forall>r\<in>set (eo_Env ov). Q (ev_Name r) \<longrightarrow>
           ev_Name r \<notin> set (fst (classifyEnvNames preEnv postEnv)) \<and> ev_Name r \<in> set (snd (classifyEnvNames preEnv postEnv))"
  shows "filter (\<lambda>e. Q (ev_Name e)) (snd (applyEngineInjectionOverrides preArgs postArgs preEnv postEnv (Some ov)))
    = filter (\<lambda>e. Q (ev_Name e)) postEnv"
  unfolding merge_env env_slots.fold_merge_filter [OF assms(2)] suppressEnv_filter filter_filter
  using assms(1) by (auto intro!: filter_cong)

end
