(* ===== verification/Injector_Facts.thy ===== *)
theory Injector_Facts
  imports Pod_Injector Overrides_Facts
begin

text \<open>
  Lemmas on the pod handler: an answer that injects nothing leaves the specification and the labels
  alone and clears every claim of an injection; the stamp names the backend that was chosen; the
  choice is unique.
\<close>

definition injectionClaims :: "string list" where
  "injectionClaims = [AnnotationInjectedBy, AnnotationInjectedByUID, AnnotationInjectedGeneration]"

definition unwired :: "Pod \<Rightarrow> Pod \<Rightarrow> bool" where
  "unwired raw p \<longleftrightarrow>
     pod_Spec p = pod_Spec raw \<and> pod_Labels p = pod_Labels raw \<and> pod_Name p = pod_Name raw
     \<and> (\<forall>a\<in>set injectionClaims. gm_str (pod_Annotations p) a = [])
     \<and> (\<forall>a. a \<notin> set (AnnotationInjectSkipped # injectionClaims) \<longrightarrow>
            map_of (pod_Annotations p) a = map_of (pod_Annotations raw) a)"

definition inNamespace :: "admissionRequest \<Rightarrow> Pod \<Rightarrow> Pod" where
  "inNamespace req raw = (if pod_Namespace raw = [] then raw\<lparr>pod_Namespace := req_Namespace req\<rparr> else raw)"

lemma inNamespace_simps [simp]:
  "pod_Spec (inNamespace req raw) = pod_Spec raw" "pod_Labels (inNamespace req raw) = pod_Labels raw"
  "pod_Name (inNamespace req raw) = pod_Name raw" "pod_Annotations (inNamespace req raw) = pod_Annotations raw"
  by (simp_all add: inNamespace_def)

lemmas annotation_names = AnnotationInjectedBy_def AnnotationInjectedByUID_def AnnotationInjectedGeneration_def
  AnnotationInjectSkipped_def

lemma annotations_distinct [simp]:
  "AnnotationInjectedBy \<noteq> AnnotationInjectedByUID" "AnnotationInjectedByUID \<noteq> AnnotationInjectedBy"
  "AnnotationInjectedBy \<noteq> AnnotationInjectedGeneration" "AnnotationInjectedGeneration \<noteq> AnnotationInjectedBy"
  "AnnotationInjectedBy \<noteq> AnnotationInjectSkipped" "AnnotationInjectSkipped \<noteq> AnnotationInjectedBy"
  "AnnotationInjectedByUID \<noteq> AnnotationInjectedGeneration" "AnnotationInjectedGeneration \<noteq> AnnotationInjectedByUID"
  "AnnotationInjectedByUID \<noteq> AnnotationInjectSkipped" "AnnotationInjectSkipped \<noteq> AnnotationInjectedByUID"
  "AnnotationInjectedGeneration \<noteq> AnnotationInjectSkipped" "AnnotationInjectSkipped \<noteq> AnnotationInjectedGeneration"
  by (simp_all add: annotation_names)

lemma gm_str_delete [simp]: "gm_str (AList.delete k m) a = (if a = k then [] else gm_str m a)"
  by (simp add: gm_str_def gomap_simps)

lemma gm_str_update [simp]: "gm_str (AList.update k v m) a = (if a = k then v else gm_str m a)"
  by (simp add: gm_str_def gomap_simps)

lemma failOpen_unwired:
  assumes "\<forall>p. kl_Encodes k p" "req_Object req = Inr raw"
    and "persisted req (failOpen k (inNamespace req raw) why) = Some p"
  shows "unwired raw p"
  using assms
  by (auto simp: failOpen_def Let_def persisted_def unwired_def injectionClaims_def gomap_simps split: if_splits)

lemma skipInjection_unwired:
  assumes "\<forall>p. kl_Encodes k p" "req_Object req = Inr raw"
    and "persisted req (skipInjection k (inNamespace req raw)) = Some p"
  shows "unwired raw p"
  using assms
  by (auto simp: skipInjection_def Let_def persisted_def unwired_def injectionClaims_def gomap_simps split: if_splits)

lemma failOpen_not_denied: "failOpen k pod why \<noteq> Denied ns names"
  by (simp add: failOpen_def Let_def)

lemma skipInjection_not_denied: "skipInjection k pod \<noteq> Denied ns names"
  by (simp add: skipInjection_def Let_def)

text \<open>The handler on a decoded request, with the namespace mirrored onto the pod.\<close>

lemma Handle_decoded:
  assumes "req_Operation req \<noteq> []" "req_Object req = Inr raw"
  shows "Handle k h req =
     (if SkipAnnotationOptsOut (gm_str (pod_Annotations raw) AnnotationSkip) then skipInjection k (inNamespace req raw)
      else
        (case selectCacheBackend k h (inNamespace req raw) of
           Inl (AmbiguousMatch ns names) \<Rightarrow> Denied ns names
         | Inl (ListError err) \<Rightarrow> failOpen k (inNamespace req raw) (LookupFailed err)
         | Inr None \<Rightarrow> failOpen k (inNamespace req raw) NoMatchingBackend
         | Inr (Some cache) \<Rightarrow> injectFor k h cache (inNamespace req raw)))"
proof -
  have "(if pod_Namespace raw = [] then raw\<lparr>pod_Namespace := req_Namespace req\<rparr> else raw) = inNamespace req raw"
    by (simp add: inNamespace_def)
  then show ?thesis
    using assms by (simp add: Handle_def Let_def del: inNamespace_def cong: option.case_cong)
qed

text \<open>A successful injection: which adapter wired the pod, and what was stamped.\<close>

definition injectedBy ::
  "KubeLib \<Rightarrow> EngineInjector \<Rightarrow> CacheBackend \<Rightarrow> Pod \<Rightarrow> RuntimeAdapter \<Rightarrow> Binding option \<Rightarrow> Pod \<Rightarrow> Pod \<Rightarrow> bool" where
  "injectedBy k h cache pod adapter binding wired p \<longleftrightarrow>
     (\<exists>registry. ei_Registry h = Some registry \<and> SelectAdapter registry (ResolveRuntimeID cache) cache = Some adapter)
     \<and> kv_SupportsBinding adapter binding
     \<and> wireEngine adapter binding cache pod = Inr wired
     \<and> p = stampInjected cache (fst (attachSidecar adapter cache (applyKernelCheck adapter cache wired)))
     \<and> (IsEventsOnly (cb_Spec cache) \<longrightarrow> snd (attachSidecar adapter cache (applyKernelCheck adapter cache wired)))"

lemma injectWith_cases:
  assumes "\<forall>p. kl_Encodes k p"
  shows "(\<exists>why. injectWith k adapter binding cache pod = failOpen k pod why)
    \<or> (\<exists>wired. wireEngine adapter binding cache pod = Inr wired
        \<and> injectWith k adapter binding cache pod
          = PatchTo (stampInjected cache (fst (attachSidecar adapter cache (applyKernelCheck adapter cache wired))))
        \<and> (IsEventsOnly (cb_Spec cache) \<longrightarrow> snd (attachSidecar adapter cache (applyKernelCheck adapter cache wired))))"
proof (cases "wireEngine adapter binding cache pod")
  case (Inl err)
  then show ?thesis by (auto simp: injectWith_def)
next
  case (Inr wired)
  obtain m b where "attachSidecar adapter cache (applyKernelCheck adapter cache wired) = (m, b)"
    by fastforce
  then show ?thesis
    using Inr assms by (cases "\<not> IsEventsOnly (cb_Spec cache) \<or> b") (auto simp: injectWith_def Let_def)
qed

lemma bindAndInject_cases:
  "(\<exists>why. bindAndInject k adapter cache pod = failOpen k pod why)
   \<or> (\<exists>binding. kv_SupportsBinding adapter binding
        \<and> bindAndInject k adapter cache pod = injectWith k adapter binding cache pod)"
proof (cases "ProtocolFor (EffectiveRemoteStorage (cb_Spec cache))")
  case None
  then show ?thesis by (auto simp: bindAndInject_def)
next
  case (Some protocol)
  define binding where "binding = BindingFor (EffectiveRemoteStorage (cb_Spec cache)) protocol (effectiveEndpoint cache)"
  have "bindAndInject k adapter cache pod =
      (if \<not> kv_SupportsBinding adapter binding then failOpen k pod UnsupportedBinding
       else if (case binding of None \<Rightarrow> False | Some b \<Rightarrow> bi_Endpoint b = []) \<and> \<not> IsEventsOnly (cb_Spec cache)
       then failOpen k pod EndpointNotUsable
       else injectWith k adapter binding cache pod)"
    using Some by (simp add: bindAndInject_def binding_def Let_def)
  then show ?thesis by (auto split: if_splits)
qed

lemma injectFor_cases:
  assumes "\<forall>p. kl_Encodes k p"
  shows "(\<exists>why. injectFor k h cache pod = failOpen k pod why)
    \<or> (\<exists>adapter binding wired p. injectFor k h cache pod = PatchTo p \<and> injectedBy k h cache pod adapter binding wired p)"
proof -
  consider why where "injectFor k h cache pod = failOpen k pod why"
    | registry adapter where "ei_Registry h = Some registry"
        "SelectAdapter registry (ResolveRuntimeID cache) cache = Some adapter"
        "injectFor k h cache pod = bindAndInject k adapter cache pod"
  proof (cases "ei_Registry h")
    case None
    then show ?thesis using that(1) by (simp add: injectFor_def)
  next
    case r: (Some registry)
    show ?thesis
    proof (cases "SelectAdapter registry (ResolveRuntimeID cache) cache")
      case None
      then show ?thesis using that(1) r by (simp add: injectFor_def)
    next
      case (Some adapter)
      then show ?thesis
        using that r by (cases "mpEngineError adapter cache pod") (auto simp: injectFor_def)
    qed
  qed
  then show ?thesis
  proof cases
    case 1
    then show ?thesis by blast
  next
    case 2
    consider why where "injectFor k h cache pod = failOpen k pod why"
      | binding where "kv_SupportsBinding adapter binding"
          "injectFor k h cache pod = injectWith k adapter binding cache pod"
      using bindAndInject_cases 2(3) by metis
    then show ?thesis
    proof cases
      case 1
      then show ?thesis by blast
    next
      case b: 2
      show ?thesis
        using injectWith_cases [OF assms, of adapter binding cache pod] 2 b
        unfolding injectedBy_def by auto
    qed
  qed
qed


subsection \<open>The choice and the stamp\<close>

text \<open>The backends of a listing that select a pod with the given labels.\<close>

definition owners :: "KubeLib \<Rightarrow> (string, string) gomap \<Rightarrow> CacheBackend list \<Rightarrow> CacheBackend list" where
  "owners k podLabels items = filter (\<lambda>cb. matchLabels cb \<noteq> [] \<and> kl_Selects k (matchLabels cb) podLabels) items"

lemma mset_owners_sorted: "mset (owners k podLabels (sort_slice lt items)) = mset (owners k podLabels items)"
  by (simp add: owners_def)

lemma owners_sorted_Nil: "owners k podLabels (sort_slice lt items) = [] \<longleftrightarrow> owners k podLabels items = []"
  by (metis mset_owners_sorted mset_zero_iff)

lemma owners_sorted_single: "owners k podLabels (sort_slice lt items) = [cb] \<longleftrightarrow> owners k podLabels items = [cb]"
  by (metis mset_owners_sorted mset_single_iff mset.simps(1,2) add.left_neutral mset_single_iff_right)

lemma length_owners_sorted: "length (owners k podLabels (sort_slice lt items)) = length (owners k podLabels items)"
  by (metis mset_owners_sorted size_mset)

lemma selectCacheBackend_owners:
  "selectCacheBackend k h pod =
     (case ei_Reader h (pod_Namespace pod) of
        Inl err \<Rightarrow> Inl (ListError err)
      | Inr items \<Rightarrow>
          (case owners k (pod_Labels pod) items of
             [] \<Rightarrow> Inr None
           | [cb] \<Rightarrow> Inr (Some cb)
           | _ \<Rightarrow> Inl (AmbiguousMatch (pod_Namespace pod)
                    (map cb_Name (owners k (pod_Labels pod) (sort_slice (\<lambda>a b. cb_Name a < cb_Name b) items))))))"
proof (cases "ei_Reader h (pod_Namespace pod)")
  case (Inr items)
  let ?s = "owners k (pod_Labels pod) (sort_slice (\<lambda>a b. cb_Name a < cb_Name b) items)"
  have sel: "selectCacheBackend k h pod =
      (case ?s of [] \<Rightarrow> Inr None | [cb] \<Rightarrow> Inr (Some cb)
       | _ \<Rightarrow> Inl (AmbiguousMatch (pod_Namespace pod) (map cb_Name ?s)))"
    unfolding selectCacheBackend_def owners_def Let_def Inr by simp
  consider "?s = []" | cb where "?s = [cb]" | a b r where "?s = a # b # r"
    by (metis neq_Nil_conv)
  then show ?thesis
  proof cases
    case 1
    moreover from this have "owners k (pod_Labels pod) items = []" unfolding owners_sorted_Nil .
    ultimately show ?thesis using Inr sel by simp
  next
    case 2
    moreover from this have "owners k (pod_Labels pod) items = [cb]" unfolding owners_sorted_single .
    ultimately show ?thesis using Inr sel by simp
  next
    case 3
    then have "2 \<le> length (owners k (pod_Labels pod) items)"
      using length_owners_sorted [of k "pod_Labels pod" _ items] by (metis length_Cons Suc_le_mono le0 numeral_2_eq_2)
    then obtain a' b' r' where "owners k (pod_Labels pod) items = a' # b' # r'"
      by (auto simp: numeral_2_eq_2 Suc_le_length_iff)
    then show ?thesis using 3 Inr sel by simp
  qed
qed (simp add: selectCacheBackend_def)

lemma stampInjected_spec [simp]: "pod_Spec (stampInjected cache p) = pod_Spec p"
  by (simp add: stampInjected_def Let_def split: option.splits)

lemma stampInjected_annotations:
  "gm_str (pod_Annotations (stampInjected cache p)) AnnotationInjectedBy = cb_Namespace cache @ ''/'' @ cb_Name cache"
  "gm_str (pod_Annotations (stampInjected cache p)) AnnotationInjectedByUID = cb_UID cache"
  "gm_str (pod_Annotations (stampInjected cache p)) AnnotationInjectedGeneration = FormatInt (cb_Generation cache)"
  "map_of (pod_Annotations (stampInjected cache p)) AnnotationInjectSkipped = None"
  by (simp_all add: stampInjected_def Let_def gomap_simps split: option.splits)

lemma applyKernelCheck_containers [simp]:
  "ps_Containers (pod_Spec (applyKernelCheck adapter cache p)) = ps_Containers (pod_Spec p)"
  by (auto simp: applyKernelCheck_def Let_def setInitContainers_def split: option.splits sum.splits)

lemma attachSidecar_containers:
  "\<exists>extra. ps_Containers (pod_Spec (fst (attachSidecar adapter cache p))) = ps_Containers (pod_Spec p) @ extra
     \<and> (snd (attachSidecar adapter cache p) \<longrightarrow>
          (\<exists>sidecar. extra = [sidecar] \<and> \<not> hasContainer (ps_Containers (pod_Spec p)) (c_Name sidecar)
             \<and> kv_ObservationSidecar adapter cache p = Inr (Some sidecar)))"
  by (auto simp: attachSidecar_def setContainers_def split: option.splits sum.splits)


subsection \<open>Injected pods\<close>

text \<open>
  The pod \<open>p\<close> is \<open>pod\<close> wired for \<open>cache\<close>, the only backend of its namespace that selects it: by the
  adapter the registry has for the backend's runtime, with the observation container at the end when
  the backend only collects events, and stamped with the backend's identity.
\<close>

definition wiredFor :: "KubeLib \<Rightarrow> EngineInjector \<Rightarrow> Pod \<Rightarrow> Pod \<Rightarrow> CacheBackend \<Rightarrow> bool" where
  "wiredFor k h pod p cache \<longleftrightarrow>
     (\<exists>items registry adapter binding wired extra.
        ei_Reader h (pod_Namespace pod) = Inr items \<and> owners k (pod_Labels pod) items = [cache]
        \<and> ei_Registry h = Some registry \<and> SelectAdapter registry (ResolveRuntimeID cache) cache = Some adapter
        \<and> kv_SupportsBinding adapter binding
        \<and> wireEngine adapter binding cache pod = Inr wired
        \<and> ps_Containers (pod_Spec p) = ps_Containers (pod_Spec wired) @ extra
        \<and> (IsEventsOnly (cb_Spec cache) \<longrightarrow>
             (\<exists>sidecar. extra = [sidecar] \<and> \<not> hasContainer (ps_Containers (pod_Spec pod)) (c_Name sidecar))))
     \<and> gm_str (pod_Annotations p) AnnotationInjectedBy = cb_Namespace cache @ ''/'' @ cb_Name cache
     \<and> gm_str (pod_Annotations p) AnnotationInjectedByUID = cb_UID cache
     \<and> gm_str (pod_Annotations p) AnnotationInjectedGeneration = FormatInt (cb_Generation cache)
     \<and> map_of (pod_Annotations p) AnnotationInjectSkipped = None"

lemma wireEngine_eventsOnly: "IsEventsOnly (cb_Spec cache) \<Longrightarrow> wireEngine adapter binding cache pod = Inr pod"
  by (simp add: wireEngine_def)

lemma injectedBy_wiredFor:
  assumes inj: "injectedBy k h cache pod adapter binding wired p"
    and own: "ei_Reader h (pod_Namespace pod) = Inr items" "owners k (pod_Labels pod) items = [cache]"
  shows "wiredFor k h pod p cache"
proof -
  let ?q = "applyKernelCheck adapter cache wired"
  obtain extra where e: "ps_Containers (pod_Spec (fst (attachSidecar adapter cache ?q))) = ps_Containers (pod_Spec ?q) @ extra"
    and s: "snd (attachSidecar adapter cache ?q) \<longrightarrow>
          (\<exists>sidecar. extra = [sidecar] \<and> \<not> hasContainer (ps_Containers (pod_Spec ?q)) (c_Name sidecar))"
    using attachSidecar_containers [of adapter cache ?q] by blast
  have "IsEventsOnly (cb_Spec cache) \<longrightarrow>
      (\<exists>sidecar. extra = [sidecar] \<and> \<not> hasContainer (ps_Containers (pod_Spec pod)) (c_Name sidecar))"
    using inj s wireEngine_eventsOnly [of cache adapter binding pod] by (auto simp: injectedBy_def)
  moreover have "p = stampInjected cache (fst (attachSidecar adapter cache ?q))"
    using inj by (simp add: injectedBy_def)
  ultimately show ?thesis
    using inj own e unfolding injectedBy_def wiredFor_def
    by (simp add: stampInjected_annotations) blast
qed

lemma persisted_unless_denied:
  assumes "req_Object req = Inr raw" "\<And>ns names. resp \<noteq> Denied ns names"
  obtains p where "persisted req resp = Some p"
  using assms by (cases resp) (auto simp: persisted_def)

lemma Handle_trichotomy:
  assumes enc: "\<forall>p. kl_Encodes k p" and req: "req_Operation req \<noteq> []" "req_Object req = Inr raw"
  defines "pod \<equiv> inNamespace req raw"
  shows "(\<exists>names items. Handle k h req = Denied (pod_Namespace pod) names
            \<and> ei_Reader h (pod_Namespace pod) = Inr items \<and> 2 \<le> length (owners k (pod_Labels pod) items))
    \<or> (\<exists>p. persisted req (Handle k h req) = Some p \<and> unwired raw p)
    \<or> (\<exists>p cache. Handle k h req = PatchTo p \<and> wiredFor k h pod p cache
          \<and> \<not> SkipAnnotationOptsOut (gm_str (pod_Annotations raw) AnnotationSkip))"
proof -
  have fo: "\<exists>p. persisted req (failOpen k pod why) = Some p \<and> unwired raw p" for why
  proof -
    obtain p where "persisted req (failOpen k pod why) = Some p"
      using persisted_unless_denied [OF req(2) failOpen_not_denied] .
    then show ?thesis using failOpen_unwired [OF enc req(2)] unfolding pod_def by blast
  qed
  have sk: "\<exists>p. persisted req (skipInjection k pod) = Some p \<and> unwired raw p"
  proof -
    obtain p where "persisted req (skipInjection k pod) = Some p"
      using persisted_unless_denied [OF req(2) skipInjection_not_denied] .
    then show ?thesis using skipInjection_unwired [OF enc req(2)] unfolding pod_def by blast
  qed
  note H = Handle_decoded [OF req, of k h, folded pod_def]
  show ?thesis
  proof (cases "SkipAnnotationOptsOut (gm_str (pod_Annotations raw) AnnotationSkip)")
    case True
    then show ?thesis using H sk by simp
  next
    case no: False
    show ?thesis
    proof (cases "ei_Reader h (pod_Namespace pod)")
      case (Inl err)
      then have "Handle k h req = failOpen k pod (LookupFailed err)"
        using H no by (simp add: selectCacheBackend_owners)
      then show ?thesis using fo by simp
    next
      case (Inr items)
      consider "owners k (pod_Labels pod) items = []" | cache where "owners k (pod_Labels pod) items = [cache]"
        | a b r where "owners k (pod_Labels pod) items = a # b # r" by (metis neq_Nil_conv)
      then show ?thesis
      proof cases
        case 1
        then have "Handle k h req = failOpen k pod NoMatchingBackend"
          using H no Inr by (simp add: selectCacheBackend_owners)
        then show ?thesis using fo by simp
      next
        case 2
        then have h: "Handle k h req = injectFor k h cache pod"
          using H no Inr by (simp add: selectCacheBackend_owners)
        show ?thesis
          using injectFor_cases [OF enc, of h cache pod] fo no injectedBy_wiredFor [OF _ Inr 2] unfolding h by metis
      next
        case 3
        then show ?thesis using H no Inr by (simp add: selectCacheBackend_owners)
      qed
    qed
  qed
qed

end
