(* ===== verification/Engine_Adapters.thy ===== *)
theory Engine_Adapters
  imports Adapter_API
begin

text \<open>
  \<open>internal/adapters/builtin/runtime\<close>: the adapters the controller ships. First the shared helpers
  on arguments, environment and containers (\<open>runtime_helpers.go\<close>), then the observation sidecar
  (\<open>subscriber.go\<close>) and the SGLang HiCache adapter (\<open>sglang_hicache.go\<close>). The code mutates a copy and
  commits it at the end; here the operations return the new value.
\<close>

subsection \<open>Helpers\<close>

definition EngineContainerName :: string where "EngineContainerName = ''vllm''"
definition EnvInferenceCacheFailOpen :: string where "EnvInferenceCacheFailOpen = ''INFERENCECACHE_FAIL_OPEN''"
definition EnvPythonHashSeed :: string where "EnvPythonHashSeed = ''PYTHONHASHSEED''"
definition defaultPythonHashSeed :: string where "defaultPythonHashSeed = ''0''"
definition defaultEngineKVTransferConfigArg :: string where "defaultEngineKVTransferConfigArg = ''--kv-transfer-config''"

definition UpsertFlag :: "string list \<Rightarrow> string \<Rightarrow> string list" where
  "UpsertFlag args flag = (if flag \<in> set args then args else args @ [flag])"

definition validateInjectPodCacheInputs :: "PodSpec \<Rightarrow> adapterError option" where
  "validateInjectPodCacheInputs pod = (if ps_Containers pod = [] then Some PodHasNoContainers else None)"

fun indexNamed :: "nat \<Rightarrow> Container list \<Rightarrow> string \<Rightarrow> nat option" where
  "indexNamed i [] name = None"
| "indexNamed i (c # cs) name = (if c_Name c = name then Some i else indexNamed (Suc i) cs name)"

definition EngineContainerIndexNamed :: "PodSpec \<Rightarrow> string \<Rightarrow> adapterError + nat" where
  "EngineContainerIndexNamed pod name =
     (case indexNamed 0 (ps_Containers pod) name of
        Some i \<Rightarrow> Inr i
      | None \<Rightarrow>
          if length (ps_Containers pod) = 1 then Inr 0
          else Inl (EngineContainerNotFound (map c_Name (ps_Containers pod)) name))"

definition FailOpenString :: "CacheBackend \<Rightarrow> string" where
  "FailOpenString cache = (if IntegrationFailOpen (cbs_Integration (cb_Spec cache)) then ''true'' else ''false'')"

definition IntegrationRole :: "CacheBackend \<Rightarrow> string" where
  "IntegrationRole cache =
     (case cbs_Integration (cb_Spec cache) of
        None \<Rightarrow> RoleReadWrite
      | Some i \<Rightarrow> if in_Role i = [] then RoleReadWrite else in_Role i)"

fun UpsertArgPair :: "string list \<Rightarrow> string \<Rightarrow> string \<Rightarrow> string list" where
  "UpsertArgPair [] flag value = [flag, value]"
| "UpsertArgPair (a # rest) flag value =
     (if a = flag then a # value # tl rest
      else if HasPrefix a (flag @ ''='') then flag # value # rest
      else a # UpsertArgPair rest flag value)"

fun UpsertEnv :: "EnvVar list \<Rightarrow> EnvVar \<Rightarrow> EnvVar list" where
  "UpsertEnv [] want = [want]"
| "UpsertEnv (e # es) want =
     (if ev_Name e = ev_Name want then e\<lparr>ev_Value := ev_Value want, ev_ValueFrom := ev_ValueFrom want\<rparr> # es
      else e # UpsertEnv es want)"

definition removeEnv :: "EnvVar list \<Rightarrow> string \<Rightarrow> EnvVar list" where
  "removeEnv env name = filter (\<lambda>e. ev_Name e \<noteq> name) env"

definition plainEnv :: "string \<Rightarrow> string \<Rightarrow> EnvVar" where
  "plainEnv name value = \<lparr>ev_Name = name, ev_Value = value, ev_ValueFrom = None\<rparr>"

definition fieldEnv :: "string \<Rightarrow> string \<Rightarrow> EnvVar" where
  "fieldEnv name path = \<lparr>ev_Name = name, ev_Value = [], ev_ValueFrom = Some [FieldRef path]\<rparr>"

definition setEngine :: "PodSpec \<Rightarrow> nat \<Rightarrow> Container \<Rightarrow> PodSpec" where
  "setEngine pod i c = pod\<lparr>ps_Containers := (ps_Containers pod)[i := c]\<rparr>"

subsection \<open>Reading engine arguments\<close>

fun argValues :: "string list \<Rightarrow> string \<Rightarrow> string list \<times> bool" where
  "argValues [] flag = ([], False)"
| "argValues (a # rest) flag =
     (if a = flag then
        (if rest = [] \<or> HasPrefix (hd rest) ''--'' then (fst (argValues rest flag), True)
         else (hd rest # fst (argValues (tl rest) flag), snd (argValues (tl rest) flag)))
      else if HasPrefix a (flag @ ''='') then
        (let value = TrimPrefix a (flag @ ''='')
         in if value = [] then (fst (argValues rest flag), True)
            else (value # fst (argValues rest flag), snd (argValues rest flag)))
      else argValues rest flag)"

definition hasArg :: "string list \<Rightarrow> string \<Rightarrow> bool" where
  "hasArg args flag \<longleftrightarrow> list_ex (\<lambda>a. a = flag \<or> HasPrefix a (flag @ ''='')) args"

definition hasExactArg :: "string list \<Rightarrow> string \<Rightarrow> bool" where
  "hasExactArg args flag \<longleftrightarrow> flag \<in> set args"

definition leadingFlagToken :: "string \<Rightarrow> string" where
  "leadingFlagToken arg =
     (if \<not> HasPrefix arg ''-'' then []
      else (case cutAt ''='' arg of Some (flag, _) \<Rightarrow> flag | None \<Rightarrow> arg))"

definition rejectPresentArg :: "string list \<Rightarrow> string \<Rightarrow> adapterError option" where
  "rejectPresentArg args flag =
     (let (values, malformed) = argValues args flag
      in if malformed then Some (ArgumentMalformed flag)
         else if values \<noteq> [] then Some (ArgumentConflict flag (hd values) [])
         else None)"

definition equivalentExact :: "string \<Rightarrow> string \<Rightarrow> bool" where
  "equivalentExact actual desired \<longleftrightarrow> actual = desired"

definition equivalentInteger :: "string \<Rightarrow> string \<Rightarrow> bool" where
  "equivalentInteger actual desired \<longleftrightarrow> ParseInt 64 actual \<noteq> None \<and> ParseInt 64 actual = ParseInt 64 desired"

definition equivalentNumber :: "string \<Rightarrow> string \<Rightarrow> bool" where
  "equivalentNumber actual desired =
     (case (ParseFloat64 actual, ParseFloat64 desired) of
        (Some (Fin p), Some (Fin q)) \<Rightarrow> p = q
      | _ \<Rightarrow> False)"

subsection \<open>The observation sidecar\<close>

definition DefaultPolicyServerGRPCAddress :: string where
  "DefaultPolicyServerGRPCAddress = ''inference-cache-server.inference-cache-system.svc.cluster.local:9090''"

record SubscriberConfig =
  sub_Image :: string
  sub_PolicyServerGRPCAddress :: string

record subscriberSidecarParams =
  ssp_Config :: SubscriberConfig
  ssp_HashScheme :: string
  ssp_EngineZMQPortStr :: string
  ssp_EngineMetricsPortStr :: string
  ssp_EngineContainerName :: string

definition resolveEnvRef :: "string \<Rightarrow> EnvVar list \<Rightarrow> string" where
  "resolveEnvRef v env =
     (if \<not> HasPrefix v ''$('' \<or> \<not> HasSuffix v '')'' then v
      else
        (case find (\<lambda>e. ev_Name e = take (length v - 3) (drop 2 v)) env of
           None \<Rightarrow> []
         | Some e \<Rightarrow> ev_Value e))"

fun portFromArgv :: "EnvVar list \<Rightarrow> string list \<Rightarrow> string \<Rightarrow> string" where
  "portFromArgv env [] port = port"
| "portFromArgv env (a # rest) port =
     (let candidate =
            (if HasPrefix a ''--port='' then Some (TrimPrefix a ''--port='')
             else if a = ''--port'' \<and> rest \<noteq> [] then Some (hd rest)
             else None);
          port' =
            (case candidate of
               None \<Rightarrow> port
             | Some v \<Rightarrow>
                 (case ParseInt 64 (resolveEnvRef v env) of
                    None \<Rightarrow> port
                  | Some n \<Rightarrow> if 0 < n \<and> n < 65536 then FormatInt n else port))
      in portFromArgv env rest port')"

definition enginePortFromContainer :: "Pod \<Rightarrow> string \<Rightarrow> string" where
  "enginePortFromContainer pod containerName =
     (if containerName = [] then []
      else
        (case EngineContainerIndexNamed (pod_Spec pod) containerName of
           Inl _ \<Rightarrow> []
         | Inr idx \<Rightarrow>
             (let c = ps_Containers (pod_Spec pod) ! idx in portFromArgv (c_Env c) (c_Command c @ c_Args c) [])))"

definition subscriberArgs :: "subscriberSidecarParams \<Rightarrow> CacheBackend \<Rightarrow> Pod \<Rightarrow> string list" where
  "subscriberArgs p cache pod =
     (let serverAddr =
            (if sub_PolicyServerGRPCAddress (ssp_Config p) = [] then DefaultPolicyServerGRPCAddress
             else sub_PolicyServerGRPCAddress (ssp_Config p));
          custom = enginePortFromContainer pod (ssp_EngineContainerName p);
          metricsPort = (if custom \<noteq> [] then custom else ssp_EngineMetricsPortStr p)
      in [''--engine-endpoint=tcp://127.0.0.1:'' @ ssp_EngineZMQPortStr p,
          ''--server='' @ serverAddr,
          ''--replica-id=$(POD_NAME)'',
          ''--tenant-id=$(POD_NAMESPACE)'',
          ''--model-id='' @ EffectiveObservationModelID (cb_Spec cache),
          ''--hash-scheme='' @ ssp_HashScheme p]
         @ (if metricsPort \<noteq> [] then [''--engine-metrics-url=http://127.0.0.1:'' @ metricsPort @ ''/metrics''] else [])
         @ (if IsEventsOnly (cb_Spec cache) then [] else [''--ignore-block-removed=true'']))"

definition renderSubscriberSidecar :: "subscriberSidecarParams \<Rightarrow> CacheBackend \<Rightarrow> Pod \<Rightarrow> adapterError + Container option" where
  "renderSubscriberSidecar p cache pod =
     (if sub_Image (ssp_Config p) = [] \<or> EffectiveObservationModelID (cb_Spec cache) = [] then Inr None
      else
        Inr (Some (zeroContainer\<lparr>
          c_Name := SubscriberContainerName,
          c_Image := sub_Image (ssp_Config p),
          c_ImagePullPolicy := ''IfNotPresent'',
          c_Env := [fieldEnv ''POD_NAME'' ''metadata.name'', fieldEnv ''POD_NAMESPACE'' ''metadata.namespace''],
          c_Args := subscriberArgs p cache pod,
          c_Resources := \<lparr>rr_Requests = [(''cpu'', 1 / 100), (''memory'', 64 * 2 ^ 20)],
                          rr_Limits = [(''cpu'', 1 / 5), (''memory'', 128 * 2 ^ 20)], rr_Claims = []\<rparr>,
          c_SecurityContext :=
            Some \<lparr>sc_RunAsNonRoot = Some True, sc_RunAsUser = Some 65532, sc_RunAsGroup = None,
                  sc_AllowPrivilegeEscalation = Some False, sc_ReadOnlyRootFilesystem = Some True,
                  sc_DropCapabilities = [''ALL''], sc_SeccompProfile = None\<rparr>\<rparr>)))"

subsection \<open>SGLang HiCache\<close>

definition SGLangEngineContainerName :: string where "SGLangEngineContainerName = ''sglang''"
definition SGLangEnableLMCacheArg :: string where "SGLangEnableLMCacheArg = ''--enable-lmcache''"
definition SGLangEnableMetricsArg :: string where "SGLangEnableMetricsArg = ''--enable-metrics''"
definition SGLangConfigFileArg :: string where "SGLangConfigFileArg = ''--lmcache-config-file''"
definition sglangSubscriberHashScheme :: string where "sglangSubscriberHashScheme = ''sglang''"
definition sglangDefaultEngineZMQPortStr :: string where "sglangDefaultEngineZMQPortStr = ''5557''"
definition sglangDefaultMetricsPortStr :: string where "sglangDefaultMetricsPortStr = ''30000''"
definition SGLangEnableHiCacheArg :: string where "SGLangEnableHiCacheArg = ''--enable-hierarchical-cache''"
definition SGLangHiCacheSizeArg :: string where "SGLangHiCacheSizeArg = ''--hicache-size''"
definition SGLangHiCacheRatioArg :: string where "SGLangHiCacheRatioArg = ''--hicache-ratio''"
definition SGLangHiCacheWritePolicyArg :: string where "SGLangHiCacheWritePolicyArg = ''--hicache-write-policy''"
definition SGLangHiCacheIOBackendArg :: string where "SGLangHiCacheIOBackendArg = ''--hicache-io-backend''"
definition SGLangHiCacheMemoryLayoutArg :: string where "SGLangHiCacheMemoryLayoutArg = ''--hicache-mem-layout''"

definition hiCacheReservedArgs :: "string list" where
  "hiCacheReservedArgs =
     [SGLangEnableHiCacheArg, SGLangHiCacheSizeArg, SGLangHiCacheRatioArg, SGLangHiCacheWritePolicyArg,
      SGLangHiCacheIOBackendArg, SGLangHiCacheMemoryLayoutArg, SGLangEnableMetricsArg]"

definition validWritePolicy :: "string \<Rightarrow> bool" where
  "validWritePolicy v \<longleftrightarrow> v \<in> set [[], ''write_back'', ''write_through'', ''write_through_selective'']"

definition validIOBackend :: "string \<Rightarrow> bool" where
  "validIOBackend v \<longleftrightarrow> v \<in> set [[], ''direct'', ''kernel'', ''kernel_ascend'']"

definition validMemoryLayout :: "string \<Rightarrow> bool" where
  "validMemoryLayout v \<longleftrightarrow>
     v \<in> set [[], ''layer_first'', ''page_first'', ''page_first_direct'', ''page_first_kv_split'', ''page_head'']"

text \<open>A finite number above zero.\<close>

definition validRatio :: "string \<Rightarrow> bool" where
  "validRatio s = (case ParseFloat64 s of Some (Fin q) \<Rightarrow> 0 < q | _ \<Rightarrow> False)"

definition resolveHiCacheConfig :: "CacheBackend \<Rightarrow> SGLangHiCacheSpec option" where
  "resolveHiCacheConfig cache =
     (let spec = cb_Spec cache;
          integrationOK =
            (case cbs_Integration spec of
               None \<Rightarrow> True
             | Some i \<Rightarrow>
                 (in_Role i = [] \<or> in_Role i = RoleReadWrite) \<and> IntegrationFailOpen (Some i)
                 \<and> (case in_EngineOverrides i of
                      None \<Rightarrow> True
                    | Some ov \<Rightarrow>
                        list_all (\<lambda>a. leadingFlagToken a \<notin> set hiCacheReservedArgs) (eo_Args ov)
                        \<and> list_all (\<lambda>f. f \<notin> set hiCacheReservedArgs) (eo_SuppressArgs ov)))
      in if cbs_Type spec \<noteq> CacheBackendTypeSGLangHiCache then None
         else if ResolveRuntimeID cache \<noteq> RuntimeSGLang then None
         else if IntegrationMode (cbs_Integration spec) \<noteq> ModeOffload then None
         else if \<not> integrationOK then None
         else if matchLabels cache = [] then None
         else
           (case cbs_HiCache spec of
              None \<Rightarrow> None
            | Some hc \<Rightarrow>
                if (hc_SizeGB hc = None) = (hc_Ratio hc = []) then None
                else if (case hc_SizeGB hc of None \<Rightarrow> False | Some n \<Rightarrow> n < 1) then None
                else if hc_Ratio hc \<noteq> [] \<and> \<not> validRatio (hc_Ratio hc) then None
                else if \<not> validWritePolicy (hc_WritePolicy hc) \<or> \<not> validIOBackend (hc_IOBackend hc)
                        \<or> \<not> validMemoryLayout (hc_MemoryLayout hc) then None
                else Some hc))"

definition validateEnableArg :: "string list \<Rightarrow> adapterError option" where
  "validateEnableArg args =
     (if list_ex (\<lambda>a. HasPrefix a (SGLangEnableHiCacheArg @ ''='')) args
         \<or> 1 < length (filter (\<lambda>a. a = SGLangEnableHiCacheArg) args)
      then Some (ArgumentMalformed SGLangEnableHiCacheArg) else None)"

record desiredArg =
  da_flag :: string
  da_value :: string
  da_equivalent :: "string \<Rightarrow> string \<Rightarrow> bool"

definition hiCacheDesired :: "SGLangHiCacheSpec \<Rightarrow> desiredArg list" where
  "hiCacheDesired cfg =
     (case hc_SizeGB cfg of
        Some n \<Rightarrow> [\<lparr>da_flag = SGLangHiCacheSizeArg, da_value = FormatInt n, da_equivalent = equivalentInteger\<rparr>]
      | None \<Rightarrow> [\<lparr>da_flag = SGLangHiCacheRatioArg, da_value = hc_Ratio cfg, da_equivalent = equivalentNumber\<rparr>])
     @ concat (map (\<lambda>(flag, value). if value = [] then []
                      else [\<lparr>da_flag = flag, da_value = value, da_equivalent = equivalentExact\<rparr>])
         [(SGLangHiCacheWritePolicyArg, hc_WritePolicy cfg), (SGLangHiCacheIOBackendArg, hc_IOBackend cfg),
          (SGLangHiCacheMemoryLayoutArg, hc_MemoryLayout cfg)])"

text \<open>The first complaint about a desired argument, or the flags already present with an equivalent value.\<close>

fun desiredPresent :: "string list \<Rightarrow> desiredArg list \<Rightarrow> adapterError + string list" where
  "desiredPresent args [] = Inr []"
| "desiredPresent args (want # ws) =
     (let (values, malformed) = argValues args (da_flag want)
      in if malformed \<or> 1 < length values then Inl (ArgumentMalformed (da_flag want))
         else if values = [] then desiredPresent args ws
         else if \<not> da_equivalent want (hd values) (da_value want)
         then Inl (ArgumentConflict (da_flag want) (hd values) (da_value want))
         else map_sum id (\<lambda>fs. da_flag want # fs) (desiredPresent args ws))"

definition hiCacheConflict :: "SGLangHiCacheSpec \<Rightarrow> string list \<Rightarrow> adapterError option" where
  "hiCacheConflict cfg args =
     (if hasArg args SGLangEnableLMCacheArg \<or> hasArg args SGLangConfigFileArg then Some ConflictingArguments
      else
        (case validateEnableArg args of
           Some e \<Rightarrow> Some e
         | None \<Rightarrow>
             (case find (\<lambda>flag. snd (argValues args flag) \<or> 1 < length (fst (argValues args flag)))
                     [SGLangHiCacheWritePolicyArg, SGLangHiCacheIOBackendArg, SGLangHiCacheMemoryLayoutArg] of
                Some flag \<Rightarrow> Some (ArgumentMalformed flag)
              | None \<Rightarrow>
                  rejectPresentArg args
                    (if hc_SizeGB cfg \<noteq> None then SGLangHiCacheRatioArg else SGLangHiCacheSizeArg))))"

definition hiCacheArgs :: "SGLangHiCacheSpec \<Rightarrow> string list \<Rightarrow> adapterError + string list" where
  "hiCacheArgs cfg args =
     (case hiCacheConflict cfg args of
        Some e \<Rightarrow> Inl e
      | None \<Rightarrow>
          (case desiredPresent args (hiCacheDesired cfg) of
             Inl e \<Rightarrow> Inl e
           | Inr present \<Rightarrow>
               (let enabled = (if hasExactArg args SGLangEnableHiCacheArg then args else args @ [SGLangEnableHiCacheArg]);
                    updated = fold (\<lambda>want out. if da_flag want \<in> set present then out
                                               else out @ [da_flag want, da_value want])
                                (hiCacheDesired cfg) enabled
                in Inr (UpsertFlag updated SGLangEnableMetricsArg))))"

definition hiCacheInject :: "PodSpec \<Rightarrow> Binding option \<Rightarrow> CacheBackend \<Rightarrow> adapterError + PodSpec" where
  "hiCacheInject pod binding cache =
     (case binding of
        Some b \<Rightarrow> Inl (BindingNotSupported (bi_Protocol b))
      | None \<Rightarrow>
          (case resolveHiCacheConfig cache of
             None \<Rightarrow> Inl HiCacheConfigInvalid
           | Some cfg \<Rightarrow>
               if ps_Containers pod = [] then Inl PodHasNoContainers
               else
                 (case EngineContainerIndexNamed pod SGLangEngineContainerName of
                    Inl e \<Rightarrow> Inl e
                  | Inr i \<Rightarrow>
                      (let engine = ps_Containers pod ! i
                       in case hiCacheArgs cfg (c_Args engine) of
                            Inl e \<Rightarrow> Inl e
                          | Inr args \<Rightarrow> Inr (setEngine pod i (engine\<lparr>c_Args := args\<rparr>))))))"

definition sglangSidecarParams :: "SubscriberConfig \<Rightarrow> subscriberSidecarParams" where
  "sglangSidecarParams subscriber =
     \<lparr>ssp_Config = subscriber, ssp_HashScheme = sglangSubscriberHashScheme,
      ssp_EngineZMQPortStr = sglangDefaultEngineZMQPortStr, ssp_EngineMetricsPortStr = sglangDefaultMetricsPortStr,
      ssp_EngineContainerName = SGLangEngineContainerName\<rparr>"

definition sglangHiCacheAdapter :: "SubscriberConfig \<Rightarrow> RuntimeAdapter" where
  "sglangHiCacheAdapter subscriber =
     \<lparr>kv_Supports = (\<lambda>runtime cache. runtime = RuntimeSGLang \<and> cbs_Type (cb_Spec cache) = CacheBackendTypeSGLangHiCache),
      kv_SupportsBinding = (\<lambda>binding. binding = None),
      kv_InjectEngineConfig = hiCacheInject,
      kv_ObservationSidecar = renderSubscriberSidecar (sglangSidecarParams subscriber),
      kv_ReservedArgs = hiCacheReservedArgs,
      kv_ReservedEnv = [],
      kv_EngineContainerName = SGLangEngineContainerName,
      kv_ValidateMPEnginePod = None,
      kv_KernelCheckInitContainer = None,
      kv_SupportedPairs = Some [(RuntimeSGLang, CacheBackendTypeSGLangHiCache)]\<rparr>"

end
