(* ===== verification/LMCache_Adapters.thy ===== *)
theory LMCache_Adapters
  imports Engine_Adapters
begin

text \<open>
  The LMCache multiprocess adapters for vLLM (\<open>vllm_lmcache_mp.go\<close>) and SGLang
  (\<open>sglang_lmcache.go\<close>), the PodLocal server they share (\<open>lmcache_mp_renderer.go\<close>), the engine side of
  the NodeLocal topology (\<open>lmcache_mp_nodelocal.go\<close>), the kernel check (\<open>lmcachecheck.go\<close>) and the
  registry the controller builds (\<open>internal/adapters/builtin/registry.go\<close>).

  The two scripts the code embeds in containers, the shell wrapper of the PodLocal server and the
  Python programs of the NodeLocal gate and the kernel check, are arguments: they are data to Go.
\<close>

subsection \<open>Constants\<close>

definition lmCacheMPServerContainerName :: string where "lmCacheMPServerContainerName = ''lmcache-mp-server''"
definition lmCacheMPServerManagedEnv :: string where "lmCacheMPServerManagedEnv = ''INFERENCECACHE_MP_SERVER''"
definition lmCacheMPServerManagedValue :: string where "lmCacheMPServerManagedValue = ''true''"
definition lmCacheMPConfigVolumeName :: string where "lmCacheMPConfigVolumeName = ''lmcache-mp-config''"
definition lmCacheMPConfigMountPath :: string where "lmCacheMPConfigMountPath = ''/var/run/inference-cache/lmcache''"
definition lmCacheMPConfigFilePath :: string where "lmCacheMPConfigFilePath = lmCacheMPConfigMountPath @ ''/client.yaml''"
definition lmCacheMPShmVolumeName :: string where "lmCacheMPShmVolumeName = ''lmcache-mp-shm''"
definition lmCacheMPShmMountPath :: string where "lmCacheMPShmMountPath = ''/dev/shm''"
definition lmCacheMPTransferModeArg :: string where "lmCacheMPTransferModeArg = ''--supported-transfer-mode''"
definition lmCacheMPTransferModeLMCacheDriven :: string where "lmCacheMPTransferModeLMCacheDriven = ''lmcache_driven''"
definition lmCacheMPL1NonLazyArg :: string where "lmCacheMPL1NonLazyArg = ''--no-l1-use-lazy''"
definition lmCacheMPL1LazyArg :: string where "lmCacheMPL1LazyArg = ''--l1-use-lazy''"
definition lmCacheMPShmNameArg :: string where "lmCacheMPShmNameArg = ''--shm-name''"
definition lmCacheMPServerPortName :: string where "lmCacheMPServerPortName = ''lmcache-mp''"
definition lmCacheMPHTTPPortName :: string where "lmCacheMPHTTPPortName = ''lmcache-http''"
definition lmCacheMPHTTPPort :: int where "lmCacheMPHTTPPort = 8080"
definition lmCacheMPHealthPath :: string where "lmCacheMPHealthPath = ''/healthcheck''"
definition lmCacheRESPUsernameEnv :: string where "lmCacheRESPUsernameEnv = ''LMCACHE_RESP_USERNAME''"
definition lmCacheRESPPasswordEnv :: string where "lmCacheRESPPasswordEnv = ''LMCACHE_RESP_PASSWORD''"

text \<open>\<open>1Gi\<close>, the headroom above the L1 capacity.\<close>

definition lmCacheMPShmHeadroom :: quantity where "lmCacheMPShmHeadroom = 2 ^ 30"

subsection \<open>Volumes, mounts and containers by name\<close>

definition mountAtPath :: "VolumeMount list \<Rightarrow> string \<Rightarrow> VolumeMount option" where
  "mountAtPath mounts path = find (\<lambda>m. vm_MountPath m = path) mounts"

definition plainMount :: "string \<Rightarrow> string \<Rightarrow> VolumeMount" where
  "plainMount name path = \<lparr>vm_Name = name, vm_MountPath = path, vm_SubPath = [], vm_SubPathExpr = [], vm_ReadOnly = False\<rparr>"

fun upsertMountByName :: "VolumeMount list \<Rightarrow> VolumeMount \<Rightarrow> VolumeMount list" where
  "upsertMountByName [] want = [want]"
| "upsertMountByName (m # ms) want = (if vm_Name m = vm_Name want then want # ms else m # upsertMountByName ms want)"

fun adoptContainer :: "Container list \<Rightarrow> Container \<Rightarrow> bool \<Rightarrow> adapterError + Container list" where
  "adoptContainer [] want owned = Inr [want]"
| "adoptContainer (c # cs) want owned =
     (if c_Name c = c_Name want then (if owned then Inr (want # cs) else Inl (NameReserved (c_Name want)))
      else map_sum id (\<lambda>r. c # r) (adoptContainer cs want owned))"

fun adoptVolume :: "Volume list \<Rightarrow> Volume \<Rightarrow> bool \<Rightarrow> adapterError + Volume list" where
  "adoptVolume [] want owned = Inr [want]"
| "adoptVolume (v # vs) want owned =
     (if v_Name v = v_Name want then (if owned then Inr (want # vs) else Inl (NameReserved (v_Name want)))
      else map_sum id (\<lambda>r. v # r) (adoptVolume vs want owned))"

definition readOnlySource :: "volumeSource \<Rightarrow> bool" where
  "readOnlySource src =
     (case src of
        ConfigMapVolume \<Rightarrow> True
      | SecretVolume \<Rightarrow> True
      | DownwardAPIVolume \<Rightarrow> True
      | ProjectedVolume \<Rightarrow> True
      | PersistentVolumeClaim ro \<Rightarrow> ro
      | CSI ro \<Rightarrow> ro = Some True
      | NFS ro \<Rightarrow> ro
      | _ \<Rightarrow> False)"

definition checkLMCacheMPShmReusable :: "Volume list \<Rightarrow> VolumeMount \<Rightarrow> adapterError option" where
  "checkLMCacheMPShmReusable volumes mount =
     (if vm_ReadOnly mount \<or> vm_SubPathExpr mount \<noteq> [] then Some (ShmNotUsable (vm_Name mount))
      else
        (case find (\<lambda>v. v_Name v = vm_Name mount) volumes of
           None \<Rightarrow> None
         | Some v \<Rightarrow> if readOnlySource (v_Source v) then Some (ShmNotUsable (vm_Name mount)) else None))"

definition checkLMCacheMPShmBudget :: "Volume list \<Rightarrow> VolumeMount \<Rightarrow> quantity \<Rightarrow> adapterError option" where
  "checkLMCacheMPShmBudget volumes mount budget =
     (case find (\<lambda>v. v_Name v = vm_Name mount) volumes of
        None \<Rightarrow> Some (ShmNotUsable (vm_Name mount))
      | Some v \<Rightarrow>
          (case v_Source v of
             EmptyDir medium sizeLimit \<Rightarrow>
               if medium \<noteq> ''Memory'' then Some (ShmNotUsable (vm_Name mount))
               else
                 (case sizeLimit of
                    None \<Rightarrow> Some (ShmTooSmall (vm_Name mount))
                  | Some q \<Rightarrow> if q < budget then Some (ShmTooSmall (vm_Name mount)) else None)
           | _ \<Rightarrow> Some (ShmNotUsable (vm_Name mount))))"

definition lmCacheMPMemoryBudget :: "quantity \<Rightarrow> quantity" where
  "lmCacheMPMemoryBudget l1Capacity = l1Capacity + lmCacheMPShmHeadroom"

definition managedBy :: "Container \<Rightarrow> string \<Rightarrow> string \<Rightarrow> bool" where
  "managedBy c name value \<longleftrightarrow> list_ex (\<lambda>e. ev_Name e = name \<and> ev_Value e = value) (c_Env c)"

definition lmCacheMPWireIsOurs :: "PodSpec \<Rightarrow> bool" where
  "lmCacheMPWireIsOurs pod =
     (case find (\<lambda>c. c_Name c = lmCacheMPServerContainerName) (ps_InitContainers pod) of
        None \<Rightarrow> False
      | Some c \<Rightarrow> managedBy c lmCacheMPServerManagedEnv lmCacheMPServerManagedValue)"

subsection \<open>The remote-storage binding of the server\<close>

definition splitLMCacheHostPort :: "string \<Rightarrow> (string \<times> string) option" where
  "splitLMCacheHostPort s =
     (if s = [] then None
      else if HasPrefix s ''['' then
        (case cutAt '']'' s of
           None \<Rightarrow> None
         | Some (inside, tail) \<Rightarrow>
             if length inside \<le> 1 then None
             else if tail = [] then None
             else if \<not> HasPrefix tail '':'' \<or> Contains (tl tail) '':'' then None
             else Some (tl inside, tl tail))
      else if 1 < length (filter (\<lambda>c. c = CHR '':'') s) then None
      else cutLast CHR '':'' s)"

fun jsonEscapeChar :: "char \<Rightarrow> string" where
  "jsonEscapeChar c =
     (let n = charCode c;
          hexDigit = (\<lambda>d. if d < 10 then char_of (48 + d) else char_of (87 + d))
      in if c = CHR 0x22 then [CHR 0x5C, CHR 0x22]
         else if c = CHR 0x5C then [CHR 0x5C, CHR 0x5C]
         else if n = 8 then [CHR 0x5C, CHR ''b'']
         else if n = 9 then [CHR 0x5C, CHR ''t'']
         else if n = 10 then [CHR 0x5C, CHR ''n'']
         else if n = 12 then [CHR 0x5C, CHR ''f'']
         else if n = 13 then [CHR 0x5C, CHR ''r'']
         else if n < 32 \<or> c \<in> {CHR ''<'', CHR ''>'', CHR ''&''}
         then [CHR 0x5C, CHR ''u'', CHR ''0'', CHR ''0'', hexDigit (n div 16), hexDigit (n mod 16)]
         else [c])"

text \<open>A JSON string; bytes above ASCII are copied, as \<open>json.Marshal\<close> does with well-formed UTF-8.\<close>

definition jsonString :: "string \<Rightarrow> string" where
  "jsonString s = [CHR 0x22] @ concat (map jsonEscapeChar s) @ [CHR 0x22]"

definition jsonField :: "string \<Rightarrow> string \<Rightarrow> string" where
  "jsonField name value = jsonString name @ '':'' @ value"

definition secretEnv :: "string \<Rightarrow> SecretKeySelector \<Rightarrow> EnvVar" where
  "secretEnv name sel = \<lparr>ev_Name = name, ev_Value = [], ev_ValueFrom = Some [SecretKeyRef sel]\<rparr>"

definition renderLMCacheMPL2Binding :: "Binding option \<Rightarrow> adapterError + (string \<times> EnvVar list)" where
  "renderLMCacheMPL2Binding binding =
     (case binding of
        None \<Rightarrow> Inr ([], [])
      | Some b \<Rightarrow>
          if bi_Protocol b \<noteq> ProtocolRESP then Inl (BindingNotSupported (bi_Protocol b))
          else if (case bi_Redis b of None \<Rightarrow> False | Some r \<Rightarrow> rb_TLS r \<noteq> None \<or> rb_Database r \<noteq> None)
          then Inl RedisFeatureUnsupported
          else
            (case splitLMCacheHostPort (TrimSpace (bi_Endpoint b)) of
               None \<Rightarrow> Inl (EndpointInvalid (bi_Endpoint b))
             | Some (host, portText) \<Rightarrow>
                 if host = [] \<or> portText = [] then Inl (EndpointInvalid (bi_Endpoint b))
                 else
                   (case ParseInt 32 portText of
                      None \<Rightarrow> Inl (EndpointInvalid (bi_Endpoint b))
                    | Some port \<Rightarrow>
                        if port < 1 \<or> 65535 < port then Inl (EndpointInvalid (bi_Endpoint b))
                        else
                          Inr (''{'' @ jsonField ''host'' (jsonString host) @ '','' @ jsonField ''port'' (FormatInt port)
                                 @ '','' @ jsonField ''type'' (jsonString ''resp'') @ ''}'',
                               (case bi_Redis b of
                                  None \<Rightarrow> []
                                | Some r \<Rightarrow>
                                    (case rb_Authentication r of
                                       None \<Rightarrow> []
                                     | Some auth \<Rightarrow>
                                         (case ra_Username auth of None \<Rightarrow> [] | Some u \<Rightarrow> [secretEnv lmCacheRESPUsernameEnv u])
                                         @ [secretEnv lmCacheRESPPasswordEnv (ra_Password auth)]))))))"

subsection \<open>The PodLocal server\<close>

text \<open>
  \<open>Value\<close> rounds away from zero. A whole number of GiB is written as such; otherwise the quotient as
  the shortest decimal of its \<open>float64\<close>.
\<close>

definition quantityValue :: "quantity \<Rightarrow> int" where
  "quantityValue q = (if 0 \<le> q then \<lceil>q\<rceil> else \<lfloor>q\<rfloor>)"

definition quantityAsGiB :: "quantity \<Rightarrow> adapterError + string" where
  "quantityAsGiB q =
     (let bytes = quantityValue q; gib = 2 ^ 30
      in if bytes \<le> 0 then Inl ServerConfigInvalid
         else if bytes mod gib = 0 then Inr (FormatInt (bytes div gib))
         else
           Inr (FormatFloat64
                  (case rnd binary64 (of_int bytes) of
                     Fin v \<Rightarrow> rnd binary64 (v / of_int gib)
                   | x \<Rightarrow> x)))"

record lmCacheMPServerConfig =
  mp_Image :: string
  mp_Port :: int
  mp_ChunkSizeTokens :: int
  mp_L1Capacity :: quantity
  mp_MaxWorkers :: int
  mp_Resources :: ResourceRequirements
  mp_Binding :: "Binding option"
  mp_WriteClientConfig :: bool

definition validateLMCacheMPServerConfig :: "lmCacheMPServerConfig \<Rightarrow> adapterError option" where
  "validateLMCacheMPServerConfig cfg =
     (if TrimSpace (mp_Image cfg) = [] \<or> mp_Port cfg < 1 \<or> 65535 < mp_Port cfg \<or> mp_Port cfg = lmCacheMPHTTPPort
         \<or> mp_ChunkSizeTokens cfg < 1 \<or> mp_L1Capacity cfg \<le> 0 \<or> mp_MaxWorkers cfg < 1
      then Some ServerConfigInvalid else None)"

definition lmCacheMPHTTPProbe :: "int \<Rightarrow> int \<Rightarrow> Probe" where
  "lmCacheMPHTTPProbe period failures =
     \<lparr>pb_Path = lmCacheMPHealthPath, pb_Port = lmCacheMPHTTPPortName, pb_PeriodSeconds = period,
      pb_FailureThreshold = failures, pb_TimeoutSeconds = 2\<rparr>"

definition lmCacheMPServerSecurityContext :: SecurityContext where
  "lmCacheMPServerSecurityContext =
     \<lparr>sc_RunAsNonRoot = None, sc_RunAsUser = None, sc_RunAsGroup = None, sc_AllowPrivilegeEscalation = Some False,
      sc_ReadOnlyRootFilesystem = None, sc_DropCapabilities = [''ALL''], sc_SeccompProfile = Some ''RuntimeDefault''\<rparr>"

text \<open>The scripts the containers run.\<close>

record embedded =
  em_ConfigScript :: string
  em_GateScript :: string
  em_KernelCheckScript :: string

definition serverArgs :: "lmCacheMPServerConfig \<Rightarrow> string \<Rightarrow> string \<Rightarrow> string list" where
  "serverArgs cfg l1GiB l2Adapter =
     [''server'', lmCacheMPTransferModeArg, lmCacheMPTransferModeLMCacheDriven, lmCacheMPL1NonLazyArg,
      lmCacheMPShmNameArg, [],
      ''--host'', ''127.0.0.1'',
      ''--port'', FormatInt (mp_Port cfg),
      ''--http-host'', ''0.0.0.0'',
      ''--http-port'', FormatInt lmCacheMPHTTPPort,
      ''--chunk-size'', FormatInt (mp_ChunkSizeTokens cfg),
      ''--l1-size-gb'', l1GiB,
      ''--eviction-policy'', ''LRU'',
      ''--max-workers'', FormatInt (mp_MaxWorkers cfg)]
     @ (if l2Adapter \<noteq> [] then [''--l2-adapter'', l2Adapter] else [])"

definition lmCacheMPServerContainer ::
  "embedded \<Rightarrow> lmCacheMPServerConfig \<Rightarrow> string \<Rightarrow> EnvVar list \<Rightarrow> VolumeMount \<Rightarrow> adapterError + Container" where
  "lmCacheMPServerContainer em cfg l2Adapter bindingEnv shmMount =
     (case quantityAsGiB (mp_L1Capacity cfg) of
        Inl e \<Rightarrow> Inl e
      | Inr l1GiB \<Rightarrow>
          (let args = serverArgs cfg l1GiB l2Adapter;
               wrapped =
                 [em_ConfigScript em, ''inference-cache-lmcache-config'', lmCacheMPConfigFilePath,
                  FormatInt (mp_ChunkSizeTokens cfg), FormatInt (mp_Port cfg), ''lmcache''] @ args;
               env = [plainEnv ''NVIDIA_VISIBLE_DEVICES'' ''all'', plainEnv lmCacheMPServerManagedEnv lmCacheMPServerManagedValue]
           in Inr (zeroContainer\<lparr>
                c_Name := lmCacheMPServerContainerName,
                c_Image := TrimSpace (mp_Image cfg),
                c_ImagePullPolicy := ''IfNotPresent'',
                c_RestartPolicy := Some ''Always'',
                c_Command := (if mp_WriteClientConfig cfg then [''/bin/sh'', ''-c''] else [''lmcache'']),
                c_Args := (if mp_WriteClientConfig cfg then wrapped else args),
                c_Env := fold (\<lambda>e env. UpsertEnv env e) bindingEnv env,
                c_Resources := mp_Resources cfg,
                c_VolumeMounts :=
                  [shmMount] @ (if mp_WriteClientConfig cfg then [plainMount lmCacheMPConfigVolumeName lmCacheMPConfigMountPath] else []),
                c_Ports :=
                  [\<lparr>cpt_Name = lmCacheMPServerPortName, cpt_ContainerPort = mp_Port cfg, cpt_HostPort = 0\<rparr>,
                   \<lparr>cpt_Name = lmCacheMPHTTPPortName, cpt_ContainerPort = lmCacheMPHTTPPort, cpt_HostPort = 0\<rparr>],
                c_StartupProbe := Some (lmCacheMPHTTPProbe 3 40),
                c_ReadinessProbe := Some (lmCacheMPHTTPProbe 5 3),
                c_LivenessProbe := Some (lmCacheMPHTTPProbe 10 3),
                c_SecurityContext := Some lmCacheMPServerSecurityContext\<rparr>)))"

text \<open>The client-config mount of the engine, when one is written.\<close>

definition adoptClientConfig :: "lmCacheMPServerConfig \<Rightarrow> bool \<Rightarrow> nat \<Rightarrow> PodSpec \<Rightarrow> adapterError + PodSpec" where
  "adoptClientConfig cfg owned i pod =
     (if \<not> mp_WriteClientConfig cfg then Inr pod
      else
        (let engine = ps_Containers pod ! i;
             volume = \<lparr>v_Name = lmCacheMPConfigVolumeName, v_Source = EmptyDir [] None\<rparr>;
             mount = plainMount lmCacheMPConfigVolumeName lmCacheMPConfigMountPath
         in if (case mountAtPath (c_VolumeMounts engine) lmCacheMPConfigMountPath of
                  None \<Rightarrow> False
                | Some m \<Rightarrow> \<not> (owned \<and> vm_Name m = lmCacheMPConfigVolumeName))
            then Inl (MountReserved lmCacheMPConfigMountPath)
            else
              (case adoptVolume (ps_Volumes pod) volume owned of
                 Inl e \<Rightarrow> Inl e
               | Inr vs \<Rightarrow>
                   Inr ((setEngine pod i (engine\<lparr>c_VolumeMounts := upsertMountByName (c_VolumeMounts engine) mount\<rparr>))
                          \<lparr>ps_Volumes := vs\<rparr>))))"

text \<open>The engine's own \<open>/dev/shm\<close> when it has a usable one, or a volume of the adapter's.\<close>

definition adoptShm :: "lmCacheMPServerConfig \<Rightarrow> bool \<Rightarrow> nat \<Rightarrow> PodSpec \<Rightarrow> adapterError + (PodSpec \<times> VolumeMount)" where
  "adoptShm cfg owned i pod =
     (let engine = ps_Containers pod ! i;
          budget = lmCacheMPMemoryBudget (mp_L1Capacity cfg);
          ours = plainMount lmCacheMPShmVolumeName lmCacheMPShmMountPath;
          adopt =
            (case adoptVolume (ps_Volumes pod) \<lparr>v_Name = lmCacheMPShmVolumeName, v_Source = EmptyDir ''Memory'' (Some budget)\<rparr> owned of
               Inl e \<Rightarrow> Inl e
             | Inr vs \<Rightarrow>
                 Inr ((setEngine pod i (engine\<lparr>c_VolumeMounts := upsertMountByName (c_VolumeMounts engine) ours\<rparr>))
                        \<lparr>ps_Volumes := vs\<rparr>, ours))
      in case mountAtPath (c_VolumeMounts engine) lmCacheMPShmMountPath of
           None \<Rightarrow> adopt
         | Some m \<Rightarrow>
             if owned \<and> vm_Name m = lmCacheMPShmVolumeName then adopt
             else
               (case checkLMCacheMPShmReusable (ps_Volumes pod) m of
                  Some e \<Rightarrow> Inl e
                | None \<Rightarrow>
                    (case checkLMCacheMPShmBudget (ps_Volumes pod) m budget of
                       Some e \<Rightarrow> Inl e
                     | None \<Rightarrow> Inr (pod, (plainMount (vm_Name m) lmCacheMPShmMountPath)\<lparr>vm_SubPath := vm_SubPath m\<rparr>))))"

definition renderLMCachePodLocalServer ::
  "embedded \<Rightarrow> PodSpec \<Rightarrow> string \<Rightarrow> lmCacheMPServerConfig \<Rightarrow> adapterError + (PodSpec \<times> string)" where
  "renderLMCachePodLocalServer em pod engineContainerName cfg =
     andThen (EngineContainerIndexNamed pod engineContainerName) (\<lambda>i.
     unlessError (validateLMCacheMPServerConfig cfg) (
     andThen (renderLMCacheMPL2Binding (mp_Binding cfg)) (\<lambda>(l2Adapter, bindingEnv).
     let owned = lmCacheMPWireIsOurs pod in
     andThen (adoptClientConfig cfg owned i pod) (\<lambda>pod1.
     andThen (adoptShm cfg owned i pod1) (\<lambda>(pod2, shmMount).
     andThen (lmCacheMPServerContainer em cfg l2Adapter bindingEnv shmMount) (\<lambda>server.
     andThen (adoptContainer (ps_InitContainers pod2) server owned) (\<lambda>inits.
       Inr (pod2\<lparr>ps_InitContainers := inits\<rparr>, if mp_WriteClientConfig cfg then lmCacheMPConfigFilePath else []))))))))"

definition IsLMCacheMPCUDAServerProfile :: "string list \<Rightarrow> bool" where
  "IsLMCacheMPCUDAServerProfile args \<longleftrightarrow>
     argValues args lmCacheMPTransferModeArg = ([lmCacheMPTransferModeLMCacheDriven], False)
     \<and> argValues args lmCacheMPShmNameArg = ([[]], False)
     \<and> length (filter (\<lambda>a. a = lmCacheMPL1NonLazyArg) args) = 1
     \<and> lmCacheMPL1LazyArg \<notin> set args"


subsection \<open>The NodeLocal engine\<close>

definition lmCacheNodeLocalGateContainerName :: string where "lmCacheNodeLocalGateContainerName = ''lmcache-node-local-gate''"
definition lmCacheNodeLocalGateManagedEnv :: string where "lmCacheNodeLocalGateManagedEnv = ''INFERENCECACHE_NODE_LOCAL_GATE''"
definition lmCacheNodeLocalGateManagedValue :: string where "lmCacheNodeLocalGateManagedValue = ''true''"
definition lmCacheNodeLocalShmVolumeName :: string where "lmCacheNodeLocalShmVolumeName = ''lmcache-node-shm''"
definition lmCacheNodeLocalConfigVolumeName :: string where "lmCacheNodeLocalConfigVolumeName = ''lmcache-node-config''"
definition lmCacheNodeLocalConfigMountPath :: string where "lmCacheNodeLocalConfigMountPath = ''/var/run/inference-cache/lmcache-node''"
definition lmCacheNodeLocalConfigFilePath :: string where "lmCacheNodeLocalConfigFilePath = lmCacheNodeLocalConfigMountPath @ ''/client.yaml''"
definition lmCacheNodeIPEnv :: string where "lmCacheNodeIPEnv = ''INFERENCECACHE_NODE_IP''"
definition lmCacheNodeLocalShmHostRoot :: string where "lmCacheNodeLocalShmHostRoot = ''/dev/shm/inference-cache''"
definition hostPathComponentMaxLength :: nat where "hostPathComponentMaxLength = 255"

definition effectiveLMCacheChunkSize :: "LMCacheEngineSpec \<Rightarrow> int" where
  "effectiveLMCacheChunkSize lm = (case lm_ChunkSizeTokens lm of None \<Rightarrow> 256 | Some n \<Rightarrow> n)"

definition safePathChar :: "char \<Rightarrow> bool" where
  "safePathChar c \<longleftrightarrow>
     (let n = charCode c
      in 97 \<le> n \<and> n \<le> 122 \<or> 65 \<le> n \<and> n \<le> 90 \<or> 48 \<le> n \<and> n \<le> 57 \<or> c \<in> {CHR ''-'', CHR ''_'', CHR ''.''})"

definition nodeLocalBackendUID :: "CacheBackend \<Rightarrow> adapterError + string" where
  "nodeLocalBackendUID cache =
     (if cb_UID cache = [] \<or> \<not> list_all safePathChar (cb_UID cache) \<or> hostPathComponentMaxLength < length (cb_UID cache)
      then Inl UIDUnsafe else Inr (cb_UID cache))"

definition NodeLocalServerShmHostPath :: "CacheBackend \<Rightarrow> adapterError + string" where
  "NodeLocalServerShmHostPath cache =
     map_sum id (\<lambda>uid. lmCacheNodeLocalShmHostRoot @ ''/'' @ uid) (nodeLocalBackendUID cache)"

definition validateLMCacheNodeLocalServerConfig :: "LMCacheNodeLocalServerSpec \<Rightarrow> int \<Rightarrow> adapterError option" where
  "validateLMCacheNodeLocalServerConfig server chunkSize =
     (if TrimSpace (nls_Image server) = []
         \<or> nls_Port server < 1 \<or> 65535 < nls_Port server \<or> nls_HTTPPort server < 1 \<or> 65535 < nls_HTTPPort server
         \<or> nls_Port server = nls_HTTPPort server
         \<or> chunkSize < 1 \<or> nls_L1Capacity server \<le> 0 \<or> nls_MaxGPUWorkers server < 1 \<or> nls_MaxCPUWorkers server < 1
      then Some ServerConfigInvalid else None)"

definition lmCacheNodeLocalInstanceID :: "CacheBackend \<Rightarrow> string" where
  "lmCacheNodeLocalInstanceID cache =
     cb_Namespace cache @ ''/'' @ cb_Name cache @ ''@'' @ cb_UID cache @ ''#'' @ FormatInt (cb_Generation cache)"

definition lmCacheNodeLocalWireIsOurs :: "PodSpec \<Rightarrow> bool" where
  "lmCacheNodeLocalWireIsOurs pod =
     (case find (\<lambda>c. c_Name c = lmCacheNodeLocalGateContainerName) (ps_InitContainers pod) of
        None \<Rightarrow> False
      | Some c \<Rightarrow> managedBy c lmCacheNodeLocalGateManagedEnv lmCacheNodeLocalGateManagedValue)"

definition checkNodeLocalHostShm :: "Volume list \<Rightarrow> VolumeMount \<Rightarrow> string \<Rightarrow> adapterError option" where
  "checkNodeLocalHostShm volumes mount wantHostPath =
     (if vm_ReadOnly mount \<or> vm_SubPath mount \<noteq> [] \<or> vm_SubPathExpr mount \<noteq> [] then Some (ShmNotUsable (vm_Name mount))
      else
        (case find (\<lambda>v. v_Name v = vm_Name mount) volumes of
           None \<Rightarrow> Some (ShmNotUsable (vm_Name mount))
         | Some v \<Rightarrow>
             if v_Source v = HostPath wantHostPath (Some ''DirectoryOrCreate'') then None
             else Some (ShmNotUsable (vm_Name mount))))"

definition lmCacheNodeLocalGateContainer ::
  "embedded \<Rightarrow> CacheBackend \<Rightarrow> LMCacheNodeLocalServerSpec \<Rightarrow> int \<Rightarrow> string \<Rightarrow> VolumeMount list \<Rightarrow> Container" where
  "lmCacheNodeLocalGateContainer em cache server chunkSize configPath mounts =
     zeroContainer\<lparr>
       c_Name := lmCacheNodeLocalGateContainerName,
       c_Image := TrimSpace (nls_Image server),
       c_ImagePullPolicy := ''IfNotPresent'',
       c_Command := [''python3'', ''-c''],
       c_Args := [em_GateScript em],
       c_Env :=
         [plainEnv lmCacheNodeLocalGateManagedEnv lmCacheNodeLocalGateManagedValue,
          fieldEnv lmCacheNodeIPEnv ''status.hostIP'',
          plainEnv ''EXPECTED_INSTANCE_ID'' (lmCacheNodeLocalInstanceID cache),
          plainEnv ''EXPECTED_MP_PORT'' (FormatInt (nls_Port server)),
          plainEnv ''EXPECTED_HTTP_PORT'' (FormatInt (nls_HTTPPort server)),
          plainEnv ''EXPECTED_CHUNK_SIZE'' (FormatInt chunkSize),
          plainEnv ''EXPECTED_MAX_GPU_WORKERS'' (FormatInt (nls_MaxGPUWorkers server)),
          plainEnv ''EXPECTED_MAX_CPU_WORKERS'' (FormatInt (nls_MaxCPUWorkers server)),
          plainEnv ''CLIENT_CONFIG_PATH'' configPath],
       c_Resources := \<lparr>rr_Requests = [(''cpu'', 1 / 100), (''memory'', 32 * 2 ^ 20)],
                       rr_Limits = [(''memory'', 128 * 2 ^ 20)], rr_Claims = []\<rparr>,
       c_VolumeMounts := mounts,
       c_SecurityContext := Some lmCacheMPServerSecurityContext\<rparr>"

definition nodeLocalShm :: "string \<Rightarrow> bool \<Rightarrow> nat \<Rightarrow> PodSpec \<Rightarrow> adapterError + PodSpec" where
  "nodeLocalShm shmHostPath owned i pod =
     (let engine = ps_Containers pod ! i;
          ours = plainMount lmCacheNodeLocalShmVolumeName lmCacheMPShmMountPath
      in case mountAtPath (c_VolumeMounts engine) lmCacheMPShmMountPath of
           Some m \<Rightarrow> (case checkNodeLocalHostShm (ps_Volumes pod) m shmHostPath of Some e \<Rightarrow> Inl e | None \<Rightarrow> Inr pod)
         | None \<Rightarrow>
             (case adoptVolume (ps_Volumes pod)
                     \<lparr>v_Name = lmCacheNodeLocalShmVolumeName, v_Source = HostPath shmHostPath (Some ''DirectoryOrCreate'')\<rparr> owned of
                Inl e \<Rightarrow> Inl e
              | Inr vs \<Rightarrow>
                  Inr ((setEngine pod i (engine\<lparr>c_VolumeMounts := upsertMountByName (c_VolumeMounts engine) ours\<rparr>))
                         \<lparr>ps_Volumes := vs\<rparr>)))"

definition nodeLocalConfig :: "bool \<Rightarrow> bool \<Rightarrow> nat \<Rightarrow> PodSpec \<Rightarrow> adapterError + PodSpec" where
  "nodeLocalConfig writeClientConfig owned i pod =
     (if \<not> writeClientConfig then Inr pod
      else
        (let engine = ps_Containers pod ! i;
             mount = plainMount lmCacheNodeLocalConfigVolumeName lmCacheNodeLocalConfigMountPath
         in if (case mountAtPath (c_VolumeMounts engine) lmCacheNodeLocalConfigMountPath of
                  None \<Rightarrow> False
                | Some m \<Rightarrow> \<not> (owned \<and> vm_Name m = lmCacheNodeLocalConfigVolumeName))
            then Inl (MountReserved lmCacheNodeLocalConfigMountPath)
            else
              (case adoptVolume (ps_Volumes pod) \<lparr>v_Name = lmCacheNodeLocalConfigVolumeName, v_Source = EmptyDir [] None\<rparr> owned of
                 Inl e \<Rightarrow> Inl e
               | Inr vs \<Rightarrow>
                   Inr ((setEngine pod i (engine\<lparr>c_VolumeMounts := upsertMountByName (c_VolumeMounts engine) mount\<rparr>))
                          \<lparr>ps_Volumes := vs\<rparr>))))"

definition nodeIPVar :: EnvVar where
  "nodeIPVar = fieldEnv lmCacheNodeIPEnv ''status.hostIP''"

text \<open>The NodeLocal server and the chunk size of a backend.\<close>

definition nodeLocalServerOf :: "CacheBackend \<Rightarrow> (LMCacheNodeLocalServerSpec \<times> int) option" where
  "nodeLocalServerOf cache =
     (case cbs_LMCache (cb_Spec cache) of
        None \<Rightarrow> None
      | Some lm \<Rightarrow>
          (case lm_NodeLocal lm of
             None \<Rightarrow> None
           | Some nl \<Rightarrow> map_option (\<lambda>server. (server, effectiveLMCacheChunkSize lm)) (nl_Server nl)))"

definition renderLMCacheNodeLocalEngine ::
  "embedded \<Rightarrow> PodSpec \<Rightarrow> string \<Rightarrow> CacheBackend \<Rightarrow> bool \<Rightarrow> adapterError + (PodSpec \<times> string)" where
  "renderLMCacheNodeLocalEngine em pod engineContainerName cache writeClientConfig =
     andThen (EngineContainerIndexNamed pod engineContainerName) (\<lambda>i.
     case nodeLocalServerOf cache of
       None \<Rightarrow> Inl ConfigurationMissing
     | Some (server, chunkSize) \<Rightarrow>
         if cb_UID cache = [] then Inl ConfigurationMissing
         else
           unlessError (validateLMCacheNodeLocalServerConfig server chunkSize) (
           andThen (NodeLocalServerShmHostPath cache) (\<lambda>shmHostPath.
           let owned = lmCacheNodeLocalWireIsOurs pod;
               engine = ps_Containers pod ! i;
               configPath = (if writeClientConfig then lmCacheNodeLocalConfigFilePath else []);
               mounts =
                 (if writeClientConfig then [plainMount lmCacheNodeLocalConfigVolumeName lmCacheNodeLocalConfigMountPath] else [])
           in
           if list_ex (\<lambda>e. ev_Name e = lmCacheNodeIPEnv \<and> \<not> owned \<and> e \<noteq> nodeIPVar) (c_Env engine)
           then Inl (NameReserved lmCacheNodeIPEnv)
           else
             andThen (nodeLocalShm shmHostPath owned i
                        (setEngine pod i (engine\<lparr>c_Env := UpsertEnv (c_Env engine) nodeIPVar\<rparr>))) (\<lambda>pod1.
             andThen (nodeLocalConfig writeClientConfig owned i pod1) (\<lambda>pod2.
             andThen (adoptContainer (ps_InitContainers pod2)
                        (lmCacheNodeLocalGateContainer em cache server chunkSize configPath mounts) owned) (\<lambda>inits.
               Inr (pod2\<lparr>ps_InitContainers := inits\<rparr>, configPath)))))))"


subsection \<open>vLLM\<close>

definition vllmDisableHybridKVCacheArg :: string where "vllmDisableHybridKVCacheArg = ''--disable-hybrid-kv-cache-manager''"
definition vllmLMCacheMPConnectorName :: string where "vllmLMCacheMPConnectorName = ''LMCacheMPConnector''"
definition vllmLMCacheMPConnectorModulePath :: string where
  "vllmLMCacheMPConnectorModulePath = ''lmcache.integration.vllm.lmcache_mp_connector''"

text \<open>The values given to any of the aliases of a flag, with the alias.\<close>

fun parallelValues :: "string list \<Rightarrow> string list \<Rightarrow> adapterError + (string \<times> string) list" where
  "parallelValues [] flags = Inr []"
| "parallelValues (a # rest) flags =
     (case find (\<lambda>f. a = f \<or> HasPrefix a (f @ ''='')) flags of
        None \<Rightarrow> parallelValues rest flags
      | Some f \<Rightarrow>
          if a = f then
            (if rest = [] \<or> HasPrefix (hd rest) ''-'' then Inl (ArgumentMalformed f)
             else map_sum id (\<lambda>vs. (f, hd rest) # vs) (parallelValues (tl rest) flags))
          else if TrimPrefix a (f @ ''='') = [] then Inl (ArgumentMalformed f)
          else map_sum id (\<lambda>vs. (f, TrimPrefix a (f @ ''='')) # vs) (parallelValues rest flags))"

definition positiveParallelSize :: "string list \<Rightarrow> string list \<Rightarrow> int \<Rightarrow> adapterError + int" where
  "positiveParallelSize args flags fallback =
     andThen (parallelValues args flags) (\<lambda>vs.
       case vs of
         [] \<Rightarrow> Inr fallback
       | [(f, v)] \<Rightarrow>
           (case ParseInt 32 v of
              None \<Rightarrow> Inl (ArgumentMalformed f)
            | Some n \<Rightarrow> if n < 1 then Inl (ArgumentMalformed f) else Inr n)
       | (f, _) # _ \<Rightarrow> Inl (ArgumentMalformed f))"

fun booleanValued :: "string list \<Rightarrow> string \<Rightarrow> bool" where
  "booleanValued [] flag = False"
| "booleanValued (a # rest) flag =
     (a = flag \<and> rest \<noteq> [] \<and> ToLower (hd rest) \<in> set [''true'', ''false'', ''0'', ''1'']
      \<or> HasPrefix a (flag @ ''='') \<or> booleanValued rest flag)"

definition validateVLLMBooleanArg :: "string list \<Rightarrow> string \<Rightarrow> adapterError option" where
  "validateVLLMBooleanArg args flag =
     (if booleanValued args flag \<or> 1 < length (filter (\<lambda>a. a = flag) args) then Some (ArgumentMalformed flag) else None)"

definition checkTopology :: "LMCacheEngineSpec \<Rightarrow> adapterError option" where
  "checkTopology lm =
     (if lm_Topology lm = LMCacheTopologyPodLocal then
        (case lm_PodLocal lm of None \<Rightarrow> Some ConfigurationMissing | Some pl \<Rightarrow> if pl_Server pl = None then Some ConfigurationMissing else None)
      else if lm_Topology lm = LMCacheTopologyNodeLocal then
        (case lm_NodeLocal lm of None \<Rightarrow> Some ConfigurationMissing | Some nl \<Rightarrow> if nl_Server nl = None then Some ConfigurationMissing else None)
      else Some (TopologyNotImplemented (lm_Topology lm)))"

definition sizeOne :: "string \<Rightarrow> adapterError + int \<Rightarrow> adapterError option" where
  "sizeOne what r =
     (case r of Inl e \<Rightarrow> Some e | Inr n \<Rightarrow> if n \<noteq> 1 then Some (ParallelSizeUnsupported what n) else None)"

text \<open>The first of a list of checks that fails.\<close>

fun firstError :: "'e option list \<Rightarrow> 'e option" where
  "firstError [] = None"
| "firstError (Some e # es) = Some e"
| "firstError (None # es) = firstError es"

definition vllmArgsError :: "string list \<Rightarrow> adapterError option" where
  "vllmArgsError args =
     firstError
       ([case positiveParallelSize args [''--tensor-parallel-size'', ''-tp''] 1 of Inl e \<Rightarrow> Some e | Inr _ \<Rightarrow> None,
         sizeOne ''pipeline'' (positiveParallelSize args [''--pipeline-parallel-size'', ''-pp''] 1),
         sizeOne ''data'' (positiveParallelSize args [''--data-parallel-size'', ''-dp''] 1)]
        @ map (\<lambda>flag. if hasArg args flag then Some (ArgumentConflict flag [] []) else None)
            [''--data-parallel-rank'', ''--data-parallel-start-rank'', ''--data-parallel-size-local'',
             ''--data-parallel-address'', ''--data-parallel-rpc-port'']
        @ [validateVLLMBooleanArg args vllmDisableHybridKVCacheArg,
           (let (values, malformed) = argValues args defaultEngineKVTransferConfigArg
            in if malformed \<or> 1 < length values then Some (ArgumentMalformed defaultEngineKVTransferConfigArg) else None)])"

definition vllmValidateMPEnginePod :: "Pod \<Rightarrow> CacheBackend \<Rightarrow> adapterError option" where
  "vllmValidateMPEnginePod pod cache =
     (case cbs_LMCache (cb_Spec cache) of
        None \<Rightarrow> Some ConfigurationMissing
      | Some lm \<Rightarrow>
          firstError
            [checkTopology lm,
             (case EngineContainerIndexNamed (pod_Spec pod) EngineContainerName of
                Inl e \<Rightarrow> Some e
              | Inr i \<Rightarrow> vllmArgsError (c_Args (ps_Containers (pod_Spec pod) ! i)))])"

definition vllmMPKVTransferConfigJSONForHost :: "string \<Rightarrow> string \<Rightarrow> int \<Rightarrow> adapterError + string" where
  "vllmMPKVTransferConfigJSONForHost role host port =
     (let json = (\<lambda>kvRole.
            ''{'' @ jsonField ''kv_connector'' (jsonString vllmLMCacheMPConnectorName)
            @ '','' @ jsonField ''kv_connector_module_path'' (jsonString vllmLMCacheMPConnectorModulePath)
            @ '','' @ jsonField ''kv_role'' (jsonString kvRole)
            @ '','' @ jsonField ''kv_connector_extra_config''
                (''{'' @ jsonField ''lmcache.mp.host'' (jsonString host)
                 @ '','' @ jsonField ''lmcache.mp.port'' (jsonString (FormatInt port))
                 @ '','' @ jsonField ''lmcache.mp.mp_transfer_mode'' (jsonString lmCacheMPTransferModeLMCacheDriven) @ ''}'')
            @ ''}'')
      in if role = RoleReadOnly then Inr (json ''kv_consumer'')
         else if role = RoleWriteOnly then Inr (json ''kv_producer'')
         else if role = [] \<or> role = RoleReadWrite then Inr (json ''kv_both'')
         else Inl (RoleUnsupported role))"

definition podLocalConfig :: "LMCachePodLocalServerSpec \<Rightarrow> int \<Rightarrow> Binding option \<Rightarrow> bool \<Rightarrow> lmCacheMPServerConfig" where
  "podLocalConfig server chunkSize binding writeClientConfig =
     \<lparr>mp_Image = pls_Image server, mp_Port = pls_Port server, mp_ChunkSizeTokens = chunkSize,
      mp_L1Capacity = pls_L1Capacity server, mp_MaxWorkers = pls_MaxWorkers server, mp_Resources = pls_Resources server,
      mp_Binding = binding, mp_WriteClientConfig = writeClientConfig\<rparr>"

definition respBinding :: "Binding option \<Rightarrow> bool" where
  "respBinding binding = (case binding of None \<Rightarrow> True | Some b \<Rightarrow> bi_Protocol b = ProtocolRESP)"

text \<open>The engine flags and variables of the vLLM connector.\<close>

definition vllmEngine :: "CacheBackend \<Rightarrow> string \<Rightarrow> Container \<Rightarrow> Container" where
  "vllmEngine cache configJSON engine =
     engine\<lparr>
       c_Args := UpsertFlag (UpsertArgPair (c_Args engine) defaultEngineKVTransferConfigArg configJSON) vllmDisableHybridKVCacheArg,
       c_Env :=
         removeEnv (removeEnv (c_Env engine) EnvPythonHashSeed @ [plainEnv EnvPythonHashSeed defaultPythonHashSeed])
           EnvInferenceCacheFailOpen
         @ [plainEnv EnvInferenceCacheFailOpen (FailOpenString cache)]\<rparr>"

definition vllmInject :: "embedded \<Rightarrow> PodSpec \<Rightarrow> Binding option \<Rightarrow> CacheBackend \<Rightarrow> adapterError + PodSpec" where
  "vllmInject em pod binding cache =
     unlessError (validateInjectPodCacheInputs pod) (
     case cbs_LMCache (cb_Spec cache) of
       None \<Rightarrow> Inl ConfigurationMissing
     | Some lm \<Rightarrow>
         if \<not> respBinding binding then Inl (BindingNotSupported (bi_Protocol (the binding)))
         else
           unlessError (checkTopology lm) (
           andThen
             (if lm_Topology lm = LMCacheTopologyPodLocal
              then
                (let server = the (pl_Server (the (lm_PodLocal lm)))
                 in andThen (vllmMPKVTransferConfigJSONForHost (IntegrationRole cache) ''tcp://127.0.0.1'' (pls_Port server)) (\<lambda>configJSON.
                    andThen (renderLMCachePodLocalServer em pod EngineContainerName
                               (podLocalConfig server (effectiveLMCacheChunkSize lm) binding False)) (\<lambda>(work, _).
                      Inr (work, configJSON))))
              else
                (let server = the (nl_Server (the (lm_NodeLocal lm)))
                 in andThen (vllmMPKVTransferConfigJSONForHost (IntegrationRole cache)
                               (''tcp://$('' @ lmCacheNodeIPEnv @ '')'') (nls_Port server)) (\<lambda>configJSON.
                    andThen (renderLMCacheNodeLocalEngine em pod EngineContainerName cache False) (\<lambda>(work, _).
                      Inr (work, configJSON)))))
             (\<lambda>(work, configJSON).
                andThen (EngineContainerIndexNamed work EngineContainerName) (\<lambda>i.
                  Inr (setEngine work i (vllmEngine cache configJSON (ps_Containers work ! i)))))))"

definition lmcacheSupports :: "string \<Rightarrow> string \<Rightarrow> CacheBackend \<Rightarrow> bool" where
  "lmcacheSupports wanted runtime cache \<longleftrightarrow>
     runtime = wanted \<and> EffectiveCacheType (cb_Spec cache) = CacheBackendTypeLMCache
     \<and> (IsEventsOnly (cb_Spec cache)
        \<or> (case cbs_LMCache (cb_Spec cache) of
             None \<Rightarrow> False
           | Some lm \<Rightarrow> lm_Topology lm = LMCacheTopologyPodLocal \<or> lm_Topology lm = LMCacheTopologyNodeLocal))"

definition resolveKernelCheckMode :: "CacheBackend \<Rightarrow> string" where
  "resolveKernelCheckMode cache =
     (let v = gm_str (cb_Annotations cache) AnnotationLMCacheKernelCheck
      in if v \<in> set [KernelCheckModeReportOnly, KernelCheckModeStrict, KernelCheckModeOff] then v else KernelCheckModeAuto)"

definition engineContainerForKernelCheck :: "Pod \<Rightarrow> Container option" where
  "engineContainerForKernelCheck pod =
     (case find (\<lambda>c. c_Name c = EngineContainerName) (ps_Containers (pod_Spec pod)) of
        Some c \<Rightarrow> Some c
      | None \<Rightarrow> (case ps_Containers (pod_Spec pod) of [c] \<Rightarrow> Some c | _ \<Rightarrow> None))"

definition requestsGPU :: "Container \<Rightarrow> bool" where
  "requestsGPU c \<longleftrightarrow>
     list_ex (\<lambda>rl. case map_of rl ''nvidia.com/gpu'' of None \<Rightarrow> False | Some q \<Rightarrow> 0 < q)
       [rr_Limits (c_Resources c), rr_Requests (c_Resources c)]"

definition KernelCheckInitContainer :: "embedded \<Rightarrow> CacheBackend \<Rightarrow> Pod \<Rightarrow> adapterError + Container option" where
  "KernelCheckInitContainer em cache pod =
     (let mode = resolveKernelCheckMode cache
      in if mode = KernelCheckModeOff then Inr None
         else
           (case engineContainerForKernelCheck pod of
              None \<Rightarrow> Inr None
            | Some engine \<Rightarrow>
                if c_Image engine = [] \<or> mode = KernelCheckModeAuto \<and> \<not> requestsGPU engine then Inr None
                else
                  Inr (Some (zeroContainer\<lparr>
                    c_Name := LMCacheKernelCheckContainerName,
                    c_Image := c_Image engine,
                    c_ImagePullPolicy := c_ImagePullPolicy engine,
                    c_SecurityContext := c_SecurityContext engine,
                    c_WorkingDir := c_WorkingDir engine,
                    c_Command := [''python3'', ''-c'', em_KernelCheckScript em],
                    c_Env := filter (\<lambda>e. ev_Name e \<noteq> EnvKernelCheckStrict) (c_Env engine)
                             @ [plainEnv EnvKernelCheckStrict (if mode = KernelCheckModeStrict then ''1'' else ''0'')],
                    c_VolumeMounts := c_VolumeMounts engine,
                    c_Resources := \<lparr>rr_Requests = [(''cpu'', 1 / 20), (''memory'', 256 * 2 ^ 20)], rr_Limits = [], rr_Claims = []\<rparr>,
                    c_TerminationMessagePath := ''/dev/termination-log'',
                    c_TerminationMessagePolicy := ''File''\<rparr>))))"

definition vllmLMCacheMPAdapter :: "embedded \<Rightarrow> SubscriberConfig \<Rightarrow> RuntimeAdapter" where
  "vllmLMCacheMPAdapter em subscriber =
     \<lparr>kv_Supports = lmcacheSupports RuntimeVLLM,
      kv_SupportsBinding = respBinding,
      kv_InjectEngineConfig = vllmInject em,
      kv_ObservationSidecar =
        renderSubscriberSidecar
          \<lparr>ssp_Config = subscriber, ssp_HashScheme = ''vllm'', ssp_EngineZMQPortStr = ''5557'',
           ssp_EngineMetricsPortStr = ''8000'', ssp_EngineContainerName = EngineContainerName\<rparr>,
      kv_ReservedArgs = [defaultEngineKVTransferConfigArg, vllmDisableHybridKVCacheArg],
      kv_ReservedEnv = [EnvPythonHashSeed, EnvInferenceCacheFailOpen],
      kv_EngineContainerName = EngineContainerName,
      kv_ValidateMPEnginePod = Some vllmValidateMPEnginePod,
      kv_KernelCheckInitContainer = Some (KernelCheckInitContainer em),
      kv_SupportedPairs = Some [(RuntimeVLLM, CacheBackendTypeLMCache)]\<rparr>"

subsection \<open>SGLang\<close>

definition EnvLMCacheUseExperimental :: string where "EnvLMCacheUseExperimental = ''LMCACHE_USE_EXPERIMENTAL''"

definition validateSGLangMPPageSize :: "string list \<Rightarrow> int \<Rightarrow> adapterError option" where
  "validateSGLangMPPageSize args chunkSize =
     (let (values, malformed) = argValues args ''--page-size''
      in if malformed \<or> length values \<noteq> 1 then Some (ArgumentMalformed ''--page-size'')
         else
           (case ParseInt 32 (hd values) of
              None \<Rightarrow> Some (PageSizeInvalid (hd values))
            | Some pageSize \<Rightarrow>
                if pageSize < 1 then Some (PageSizeInvalid (hd values))
                else if chunkSize mod pageSize \<noteq> 0 then Some (ChunkNotMultiple chunkSize pageSize)
                else None))"

definition sglangValidateMPEnginePod :: "Pod \<Rightarrow> CacheBackend \<Rightarrow> adapterError option" where
  "sglangValidateMPEnginePod pod cache =
     (case cbs_LMCache (cb_Spec cache) of
        None \<Rightarrow> Some ConfigurationMissing
      | Some lm \<Rightarrow>
          firstError
            [checkTopology lm,
             (case EngineContainerIndexNamed (pod_Spec pod) SGLangEngineContainerName of
                Inl e \<Rightarrow> Some e
              | Inr i \<Rightarrow>
                  validateSGLangMPPageSize (c_Args (ps_Containers (pod_Spec pod) ! i)) (effectiveLMCacheChunkSize lm))])"

definition sglangEngine :: "CacheBackend \<Rightarrow> string \<Rightarrow> Container \<Rightarrow> Container" where
  "sglangEngine cache configPath engine =
     engine\<lparr>
       c_Args := UpsertArgPair (UpsertFlag (c_Args engine) SGLangEnableLMCacheArg) SGLangConfigFileArg configPath,
       c_Env :=
         UpsertEnv (UpsertEnv (c_Env engine) (plainEnv EnvLMCacheUseExperimental ''True''))
           (plainEnv EnvInferenceCacheFailOpen (FailOpenString cache))\<rparr>"

definition injectSGLangLMCacheMP :: "embedded \<Rightarrow> PodSpec \<Rightarrow> Binding option \<Rightarrow> CacheBackend \<Rightarrow> adapterError + PodSpec" where
  "injectSGLangLMCacheMP em pod binding cache =
     unlessError (validateInjectPodCacheInputs pod) (
     case cbs_LMCache (cb_Spec cache) of
       None \<Rightarrow> Inl ConfigurationMissing
     | Some lm \<Rightarrow>
         unlessError (checkTopology lm) (
         andThen
           (if lm_Topology lm = LMCacheTopologyPodLocal
            then renderLMCachePodLocalServer em pod SGLangEngineContainerName
                   (podLocalConfig (the (pl_Server (the (lm_PodLocal lm)))) (effectiveLMCacheChunkSize lm) binding True)
            else renderLMCacheNodeLocalEngine em pod SGLangEngineContainerName cache True)
           (\<lambda>(work, configPath).
              andThen (EngineContainerIndexNamed work SGLangEngineContainerName) (\<lambda>i.
                Inr (setEngine work i (sglangEngine cache configPath (ps_Containers work ! i)))))))"

definition ensureSGLangMetricsForSubscriber :: "PodSpec \<Rightarrow> CacheBackend \<Rightarrow> SubscriberConfig \<Rightarrow> adapterError + PodSpec" where
  "ensureSGLangMetricsForSubscriber pod cache subscriber =
     (if sub_Image subscriber = [] \<or> EffectiveObservationModelID (cb_Spec cache) = [] then Inr pod
      else
        andThen (EngineContainerIndexNamed pod SGLangEngineContainerName) (\<lambda>i.
          let engine = ps_Containers pod ! i
          in Inr (setEngine pod i (engine\<lparr>c_Args := UpsertFlag (c_Args engine) SGLangEnableMetricsArg\<rparr>))))"

definition sglangLMCacheAdapter :: "embedded \<Rightarrow> SubscriberConfig \<Rightarrow> RuntimeAdapter" where
  "sglangLMCacheAdapter em subscriber =
     \<lparr>kv_Supports = lmcacheSupports RuntimeSGLang,
      kv_SupportsBinding = respBinding,
      kv_InjectEngineConfig = (\<lambda>pod binding cache.
        andThen (injectSGLangLMCacheMP em pod binding cache) (\<lambda>work. ensureSGLangMetricsForSubscriber work cache subscriber)),
      kv_ObservationSidecar = renderSubscriberSidecar (sglangSidecarParams subscriber),
      kv_ReservedArgs = [SGLangEnableLMCacheArg, SGLangConfigFileArg, SGLangEnableMetricsArg],
      kv_ReservedEnv = [EnvLMCacheUseExperimental, EnvInferenceCacheFailOpen],
      kv_EngineContainerName = SGLangEngineContainerName,
      kv_ValidateMPEnginePod = Some sglangValidateMPEnginePod,
      kv_KernelCheckInitContainer = None,
      kv_SupportedPairs = Some [(RuntimeSGLang, CacheBackendTypeLMCache)]\<rparr>"

subsection \<open>The registry the controller builds\<close>

definition builtinRegistry :: "embedded \<Rightarrow> string \<Rightarrow> string \<Rightarrow> Registry" where
  "builtinRegistry em img address =
     (let subscriber = \<lparr>sub_Image = img, sub_PolicyServerGRPCAddress = address\<rparr>
      in Register (Register (Register [] (Some (vllmLMCacheMPAdapter em subscriber)))
           (Some (sglangLMCacheAdapter em subscriber))) (Some (sglangHiCacheAdapter subscriber)))"

end
