(* ===== verification/Control_Examples.thy ===== *)
theory Control_Examples
  imports Injector_Facts LMCache_Adapters
begin

text \<open>
  Concrete objects for the control plane: a cluster library that meets its documented behaviour, an
  SGLang pod, and a backend that selects it.
\<close>

definition selectsAll :: "(string, string) gomap \<Rightarrow> (string, string) gomap \<Rightarrow> bool" where
  "selectsAll want have \<longleftrightarrow> list_all (\<lambda>(l, v). map_of have l = Some v) want"

definition exKube :: KubeLib where
  "exKube =
     \<lparr>kl_Selects = selectsAll, kl_Encodes = (\<lambda>p. True), kl_IsValidLabelValue = (\<lambda>s. []), kl_IsQualifiedName = (\<lambda>s. []),
      kl_IsEnvVarName = (\<lambda>s. []), kl_IsDNS1123Subdomain = (\<lambda>s. []), kl_IsConfigMapKey = (\<lambda>s. []),
      kl_ParseQuantity = (\<lambda>s. None), kl_AsInt64 = (\<lambda>q. None)\<rparr>"

lemma exKube_selects: "selects_spec exKube"
  by (auto simp: selects_spec_def exKube_def selectsAll_def list_all_iff)

lemma exKube_encodes: "\<forall>p. kl_Encodes exKube p"
  by (simp add: exKube_def)

definition exScripts :: embedded where
  "exScripts = \<lparr>em_ConfigScript = ''sh'', em_GateScript = ''gate'', em_KernelCheckScript = ''check''\<rparr>"

definition exEngine :: Container where
  "exEngine = zeroContainer\<lparr>c_Name := ''sglang'', c_Image := ''sglang:1'', c_Args := [''--page-size'', ''64'']\<rparr>"

definition exPod :: Pod where
  "exPod =
     \<lparr>pod_Namespace = [], pod_Name = ''engine-0'', pod_Labels = [(''inferencecache.io/cache-domain'', ''chat'')],
      pod_Annotations = [(''inferencecache.io/injected-by'', ''forged'')],
      pod_Spec = \<lparr>ps_NodeName = [], ps_Containers = [exEngine], ps_InitContainers = [], ps_Volumes = []\<rparr>\<rparr>"

definition exHiCache :: SGLangHiCacheSpec where
  "exHiCache = \<lparr>hc_SizeGB = Some 8, hc_Ratio = [], hc_WritePolicy = ''write_through'', hc_IOBackend = [], hc_MemoryLayout = []\<rparr>"

definition exBackend :: CacheBackend where
  "exBackend =
     \<lparr>cb_Namespace = ''ml'', cb_Name = ''shared'', cb_UID = ''u1'', cb_Generation = 3, cb_Annotations = [],
      cb_Spec =
        \<lparr>cbs_Runtime = CacheBackendRuntimeSGLang, cbs_Type = CacheBackendTypeSGLangHiCache, cbs_LMCache = None,
         cbs_RemoteStorage = None,
         cbs_Observation = Some \<lparr>ob_ModelID = ''m'', ob_FirstEventTimeout = None\<rparr>, cbs_Integration = None,
         cbs_EngineSelector = Some \<lparr>es_MatchLabels = [(''inferencecache.io/cache-domain'', ''chat'')]\<rparr>,
         cbs_HiCache = Some exHiCache, cbs_AllowCrossNamespace = False\<rparr>,
      cb_Status = \<lparr>cbst_RemoteStorage = None, cbst_IndexParticipation = None\<rparr>\<rparr>"

definition exInjector :: EngineInjector where
  "exInjector =
     \<lparr>ei_Reader = (\<lambda>ns. Inr (if ns = ''ml'' then [exBackend] else [])),
      ei_Registry = Some (builtinRegistry exScripts ''subscriber:1'' [])\<rparr>"

definition exRequest :: admissionRequest where
  "exRequest = \<lparr>req_Operation = ''CREATE'', req_Namespace = ''ml'', req_Object = Inr exPod\<rparr>"


text \<open>Overrides that replace one adapter flag, drop another, add a third, and name one of the template in vain.\<close>

definition exPreArgs :: "string list" where "exPreArgs = [''--page-size'', ''64'']"

definition exPostArgs :: "string list" where
  "exPostArgs = [''--page-size'', ''64'', ''--hicache-size'', ''8'', ''--enable-metrics'']"

definition exOverrides :: EngineInjectionOverrides where
  "exOverrides =
     \<lparr>eo_Args = [''--hicache-size=16'', ''--page-size=1'', ''--log-level'', ''debug''],
      eo_SuppressArgs = [''--enable-metrics'', ''--page-size''], eo_Env = [], eo_SuppressEnv = []\<rparr>"

end
