(* ===== verification/Control_Properties.thy ===== *)
theory Control_Properties
  imports Control_Examples
begin

text \<open>
  The properties of the control plane: what the pod webhook does to a pod.
\<close>

text \<open>
  C39. Injection is all or nothing, and never silent about which it was. Whatever adapters are
  registered, a request for a pod is denied only when two backends of its namespace select it.
  Otherwise the pod that is stored carries the injected-by annotation exactly when it was wired: with
  the annotation it is wired by the adapter of the one backend that selects it, the stamps name that
  backend, its UID and its generation, and it had not opted out; without it, its specification and
  labels are those submitted, and no claim of an injection is left, not even one that was submitted.
\<close>

theorem injection_all_or_nothing:
  assumes "\<forall>p. kl_Encodes k p" "req_Operation req \<noteq> []" "req_Object req = Inr raw"
  shows "case persisted req (Handle k h req) of
      None \<Rightarrow> (\<exists>items. ei_Reader h (pod_Namespace (inNamespace req raw)) = Inr items
                 \<and> 2 \<le> length (owners k (pod_Labels raw) items))
    | Some p \<Rightarrow>
        if gm_str (pod_Annotations p) AnnotationInjectedBy = [] then unwired raw p
        else (\<exists>cache. wiredFor k h (inNamespace req raw) p cache)
             \<and> \<not> SkipAnnotationOptsOut (gm_str (pod_Annotations raw) AnnotationSkip)"
proof -
  let ?pod = "inNamespace req raw"
  consider names items where "Handle k h req = Denied (pod_Namespace ?pod) names"
      "ei_Reader h (pod_Namespace ?pod) = Inr items" "2 \<le> length (owners k (pod_Labels ?pod) items)"
    | p where "persisted req (Handle k h req) = Some p" "unwired raw p"
    | p cache where "Handle k h req = PatchTo p" "wiredFor k h ?pod p cache"
        "\<not> SkipAnnotationOptsOut (gm_str (pod_Annotations raw) AnnotationSkip)"
    using Handle_trichotomy [OF assms, of h] by metis
  then show ?thesis
  proof cases
    case 1
    then show ?thesis by (simp add: persisted_def)
  next
    case 2
    then show ?thesis by (simp add: unwired_def injectionClaims_def)
  next
    case 3
    then have "gm_str (pod_Annotations p) AnnotationInjectedBy \<noteq> []"
      by (simp add: wiredFor_def)
    then show ?thesis using 3 by (auto simp: persisted_def)
  qed
qed

theorem injection_all_or_nothing_witness:
  "\<exists>p. persisted exRequest (Handle exKube exInjector exRequest) = Some p
     \<and> c_Args (hd (ps_Containers (pod_Spec p)))
        = [''--page-size'', ''64'', ''--enable-hierarchical-cache'', ''--hicache-size'', ''8'', ''--hicache-write-policy'',
           ''write_through'', ''--enable-metrics'']
     \<and> map c_Name (ps_Containers (pod_Spec p)) = [''sglang'', ''kvevent-subscriber'']
     \<and> gm_str (pod_Annotations p) AnnotationInjectedBy = ''ml/shared''
     \<and> (\<exists>cache. wiredFor exKube exInjector (inNamespace exRequest exPod) p cache)"
proof -
  have r: "req_Operation exRequest \<noteq> []" "req_Object exRequest = Inr exPod"
    by (simp_all add: exRequest_def)
  define facts :: "Pod \<Rightarrow> bool" where "facts = (\<lambda>p.
     c_Args (hd (ps_Containers (pod_Spec p)))
        = [''--page-size'', ''64'', ''--enable-hierarchical-cache'', ''--hicache-size'', ''8'', ''--hicache-write-policy'',
           ''write_through'', ''--enable-metrics'']
     \<and> map c_Name (ps_Containers (pod_Spec p)) = [''sglang'', ''kvevent-subscriber'']
     \<and> gm_str (pod_Annotations p) AnnotationInjectedBy = ''ml/shared'')"
  have "case persisted exRequest (Handle exKube exInjector exRequest) of None \<Rightarrow> False | Some p \<Rightarrow> facts p"
    unfolding facts_def by code_simp
  then obtain p where p: "persisted exRequest (Handle exKube exInjector exRequest) = Some p" "facts p"
    by (auto split: option.splits)
  then show ?thesis
    using injection_all_or_nothing [OF exKube_encodes r, of exInjector] by (simp add: facts_def)
qed




end
