(* ===== verification/Spec2Isabelle.thy ===== *)
theory Spec2Isabelle
  imports Index_Properties Lookup_Properties Service_Properties Contract_Properties Subscriber_Properties Control_Plane_Facts
    Control_Properties
begin

text \<open>
  A verification library for inference-cache, a cache-hint service for LLM inference. Engines
  report which token prefixes they hold in their KV caches; the service keeps a soft-state index
  of these reports and answers routing queries with the replicas most likely to have a prompt's
  prefix; a control plane on Kubernetes configures it and reflects its state.

  \<^bold>\<open>Parts of the program and the theories that model them\<close> (paths under \<open>src/\<close>)

  \<^item> \<^bold>\<open>Go itself.\<close> \<open>Prelude\<close> has maps, machine integers, times and \<open>sort.Slice\<close>; \<open>Go_Float\<close> the two
    float types with their rounding; \<open>Go_Text\<close> number parsing and printing of \<open>strconv\<close>; \<open>Sha256\<close>
    the digest of \<open>crypto/sha256\<close>.
  \<^item> \<^bold>\<open>The index\<close> (\<open>internal/index\<close>). \<open>Index_Types\<close> has the state (\<open>types.go\<close>, \<open>index.go\<close>: the record
    \<open>Index\<close> mirrors the struct, field for field, with the metrics sink as the list of calls made),
    \<open>Accounting\<close> the counters and gauges (\<open>accounting.go\<close>), \<open>Eviction\<close> the sweep, cap and quota
    (\<open>eviction.go\<close>), \<open>Ingest\<close> updates and events (\<open>ingest.go\<close>), \<open>Ranking\<close> the score factors
    (\<open>ranking.go\<close>), \<open>Lookups\<close> the lookups (\<open>lookup.go\<close>), \<open>Snapshots\<close> the read-outs
    (\<open>snapshot.go\<close>). A method that takes the lock is one step. \<open>Index_Machine\<close> has the reachable states:
    any sequence of the operations that change the index, from any configuration. \<open>Index_Spec\<close> is the
    abstract store the index implements, \<open>Gauge\<close> and \<open>Identity\<close> the invariants of the gauges and of the
    entry identities, \<open>Lookup_Facts\<close> the reference definitions of the lookups.
  \<^item> \<^bold>\<open>The server\<close> (\<open>internal/server\<close>). \<open>Policy\<close> has the policy store and the \<open>/policy\<close> endpoint
    (\<open>policy.go\<close>), \<open>Service\<close> the gRPC handlers (\<open>inferencecache_service.go\<close>), \<open>Probe\<close> the functional
    probe (\<open>probe.go\<close>). Clock readings, deadlines and the outcomes of \<open>select\<close> are arguments (the
    record \<open>callEnv\<close>); what other clients do between two steps of a call is a function on the index.
    \<open>Service_Facts\<close> and \<open>Probe_Facts\<close> hold their lemmas.
  \<^item> \<^bold>\<open>The fingerprint\<close> (\<open>pkg/fingerprint\<close>). \<open>Fingerprint\<close> has the rolling prefix hashes; the hash
    function is third-party and a parameter.
  \<^item> \<^bold>\<open>The subscriber\<close> (\<open>internal/subscriber\<close>). \<open>Subscriber\<close> has the positional index, the messages and
    the reporter loop, a function from its state and one input to the next state and the calls made;
    \<open>Subscriber_Facts\<close> its lemmas, \<open>End_To_End\<close> its composition with the server.
  \<^item> \<^bold>\<open>The control plane.\<close> \<open>Control_Plane\<close> has the CachePolicy and CacheTenant resources
    (\<open>api/v1alpha1\<close>), their admission (\<open>internal/webhook/v1alpha1\<close>) and the push of the resolved
    policies (\<open>internal/controller/controlplane_controller.go\<close>); \<open>Control_Plane_Facts\<close> its lemmas.
  \<^item> \<^bold>\<open>The pod webhook\<close> (\<open>internal/webhook/pod\<close>). \<open>Cluster_Types\<close> has pods and the CacheBackend resource,
    \<open>Adapter_API\<close> the interface of a runtime adapter as a record of its methods, \<open>Overrides\<close> the merge
    of engine overrides (\<open>overrides.go\<close>), \<open>Pod_Injector\<close> the admission handler (\<open>podinjector.go\<close>);
    \<open>Overrides_Facts\<close> and \<open>Injector_Facts\<close> their lemmas. The handler is parametric in the adapter.
  \<^item> \<^bold>\<open>The built-in adapters\<close> (\<open>internal/adapters/builtin/runtime\<close>). \<open>Engine_Adapters\<close> has the shared helpers,
    the observation sidecar and SGLang HiCache, \<open>LMCache_Adapters\<close> the vLLM and SGLang LMCache adapters,
    the server and gate containers they inject and the registry. Constants that only name a flag, a
    volume or a variable of these adapters carry the source's names. \<open>Go_Strings\<close> has what they use of
    \<open>strings\<close>, \<open>strconv\<close> and \<open>net\<close>; \<open>Control_Examples\<close> concrete pods and backends.

  \<^bold>\<open>What is shown.\<close> The properties stand in the theories named \<open>_Properties\<close>, each after a text
  block with its number; \<open>Examples\<close> has the concrete states their witnesses use.

  \<^item> Here and in \<open>Index_Properties\<close>: the counters, cap and gauge are exact in every reachable state; the
    index refines the abstract store; each operation stores and removes exactly what it should, whatever
    the iteration order of the maps.
  \<^item> \<open>Lookup_Properties\<close>: the lookups agree with declarative reference definitions, the score factors
    stay in range and are monotone, misses are classified truthfully, snapshots are exact.
  \<^item> \<open>Service_Properties\<close>, \<open>Contract_Properties\<close>: the answer of a routing call is sound and follows its
    contract on every branch, credit goes only to hits that were delivered, the policy endpoint changes
    all or nothing, no wire call touches the probe's tenant, hashes and seeds identify what they encode.
  \<^item> \<open>Subscriber_Properties\<close>: subscriber and server compute the same keys, evictions take effect in
    order, a stored prefix is routed, the probe has no false alarms and leaves no trace.
  \<^item> \<open>Control_Properties\<close>: the pod webhook wires a pod completely or leaves it alone, and its stamps say
    which; engine overrides reach only what the adapter contributed.

  \<^bold>\<open>Bounds and fuel.\<close> The only fuel is that of the decimal search in \<open>Go_Text\<close> (189 steps, enough for
  every \<open>float32\<close> by \<open>shortAt_149\<close>). Every other loop is structural or has a termination proof. Token
  counts wrap at 32 bits and durations saturate or wrap at 64 bits where the code's do; counters of map
  sizes are unbounded integers, since a map of that size does not fit in memory.

  \<^bold>\<open>Not modelled.\<close> The controllers other than the policy push, and the admission of CacheBackends, which watch and
  check Kubernetes objects; the NodeLocal server and cleanup pods the controller creates and the managed
  Redis workload; the scripts embedded in containers, which are arguments; the doctor command, canary
  and calibration tools; TLS, authentication, logging and the metrics registry; the tokenizer binding;
  the generated protocol and deep-copy code; goroutines and tickers, of which only the steps they take
  are modelled.
\<close>

subsection \<open>The state of the index\<close>

text \<open>
  C1. In every reachable state of the index the counters that the code keeps beside the prefix
  map are exact: the totals count (prefix, replica) entries, the tenant and model counters count
  distinct prefixes, and the serving count of a replica in an engine domain is the number of
  prefixes of the domain it holds.
\<close>

theorem index_counters_exact:
  assumes "reachable i"
  shows "totalEntries i = int (card {(k, r). held i k r \<noteq> None}) \<and>
    reservedEntries i = int (card {(k, r). isReservedTenant i (pk_tenant k) \<and> held i k r \<noteq> None}) \<and>
    gm_int (prefixesByTenant i) t = int (card {k \<in> keysHeld i. pk_tenant k = t}) \<and>
    gm_int (prefixesByTenantModel i) (ModelKey t m) = int (card {k \<in> keysHeld i. modelOf k = ModelKey t m}) \<and>
    gm_int (gm_map (servingByScope i) (ScopeKey t m s)) r =
      int (card {k. scopeOf k = ScopeKey t m s \<and> held i k r \<noteq> None})"
  using prefix_inv_counts [OF reachable_prefix_inv [OF assms]] by blast

theorem index_counters_exact_witness:
  "int (card {(k, r). held exIndex k r \<noteq> None}) = 2 \<and>
   int (card {k. scopeOf k = ScopeKey ''t'' ''m'' ''s'' \<and> held exIndex k ''r'' \<noteq> None}) = 2"
proof -
  have "totalEntries exIndex = 2" by code_simp
  moreover have "gm_int (gm_map (servingByScope exIndex) (ScopeKey ''t'' ''m'' ''s'')) ''r'' = 2" by code_simp
  ultimately show ?thesis
    using index_counters_exact [OF reachable_exIndex, of "''t''" "''m''" "''s''" "''r''"] by simp
qed

text \<open>
  C2. The entry cap holds in every reachable state, not only after an update: with a positive
  \<open>maxEntries\<close>, the entries outside the reserved tenants never exceed it.
\<close>

theorem index_cap_invariant:
  assumes "reachable i" and "0 < maxEntries i"
  shows "totalEntries i - reservedEntries i \<le> maxEntries i"
  using reachable_cap [OF assms(1)] assms(2) by (simp add: effectiveTotal_def)

theorem index_cap_invariant_witness:
  "totalEntries (Ingest exIndex 6 (exUpdate ''u'' ''q'' [exRef ''c'' 10]))
     - reservedEntries (Ingest exIndex 6 (exUpdate ''u'' ''q'' [exRef ''c'' 10])) \<le> 2"
proof -
  have "reachable (Ingest exIndex 6 (exUpdate ''u'' ''q'' [exRef ''c'' 10]))"
    by (rule reachable.step [OF reachable_exIndex index_step.ingest])
  moreover have "maxEntries (Ingest exIndex 6 (exUpdate ''u'' ''q'' [exRef ''c'' 10])) = 2" by code_simp
  ultimately show ?thesis
    using index_cap_invariant [of "Ingest exIndex 6 (exUpdate ''u'' ''q'' [exRef ''c'' 10])"] by simp
qed

text \<open>
  C3. The per-model gauge a metrics sink shows is exact in every reachable state: for every model,
  drained ones included, it is the number of live prefixes outside the reserved tenants.
\<close>

theorem index_gauge_exact:
  assumes "reachable i" and "metrics i = Some calls"
  shows "gaugeValue calls model = int (liveKeys i model)"
  using reachable_inv [OF assms(1)] assms(2) by (simp add: gauge_exact_def)

theorem index_gauge_exact_witness: "gaugeValue (the (metrics exIndex)) ''m'' = 2"
proof -
  have "metrics exIndex = Some (the (metrics exIndex))" by code_simp
  from index_gauge_exact [OF reachable_exIndex this, of "''m''"] have
    "gaugeValue (the (metrics exIndex)) ''m'' = int (liveKeys exIndex ''m'')" .
  moreover have "liveKeys exIndex ''m'' = 2" by code_simp
  ultimately show ?thesis by simp
qed

end
